(* ===== verification/Prelude.thy ===== *)
theory Prelude
  imports Main "HOL-Library.Word" "HOL-Library.Sublist"
begin

text \<open>
  Shared vocabulary of the QuicFrame development: byte strings, Go's nil-able string maps,
  the result of a call that may panic, decimal printing (the \<^verbatim>\<open>%d\<close> verb of package fmt) and the
  big-endian 32-bit codec of package encoding/binary, with the generic lemmas on lists and
  words that the component theories use.
\<close>

unbundle bit_operations_syntax

type_synonym byte = "8 word"
type_synonym bytes = "byte list"

text \<open>A Go \<^verbatim>\<open>map[string]string\<close>: \<open>None\<close> is the nil map, which can be read but holds no key.\<close>

type_synonym gomap = "(string \<rightharpoonup> string) option"

named_theorems frame_simps \<open>facts that evaluate frame encoding and decoding\<close>

section \<open>Results of calls\<close>

text \<open>A Go call returns or panics; the panic carries the printed panic value.\<close>

datatype 'a outcome = Ret 'a | Panic string

definition is_panic :: "'a outcome \<Rightarrow> bool" where
  "is_panic r = (case r of Ret _ \<Rightarrow> False | Panic _ \<Rightarrow> True)"

lemma is_panic_simps [simp]: "\<not> is_panic (Ret x)" "is_panic (Panic s)"
  by (simp_all add: is_panic_def)

section \<open>Maps with a default\<close>

text \<open>Indexing a \<^verbatim>\<open>map[string]string\<close>: a missing key, or a nil map, gives the empty string.\<close>

definition gomap_get :: "gomap \<Rightarrow> string \<Rightarrow> string" where
  "gomap_get m k = (case m of None \<Rightarrow> [] | Some f \<Rightarrow> (case f k of None \<Rightarrow> [] | Some v \<Rightarrow> v))"

text \<open>The body of a \<^verbatim>\<open>for k, v := range m\<close> loop that copies every pair into another map.\<close>

definition gomap_copy :: "gomap \<Rightarrow> (string \<rightharpoonup> string) \<Rightarrow> (string \<rightharpoonup> string)" where
  "gomap_copy m acc = (case m of None \<Rightarrow> acc | Some f \<Rightarrow> acc ++ f)"

lemma gomap_get_None [simp]: "gomap_get None k = []"
  by (simp add: gomap_get_def)

lemma gomap_get_Some: "gomap_get (Some f) k = (case f k of None \<Rightarrow> [] | Some v \<Rightarrow> v)"
  by (simp add: gomap_get_def)

lemma gomap_get_upd [simp]: "gomap_get (Some (f(k \<mapsto> v))) k = v"
  by (simp add: gomap_get_def)

section \<open>Decimal printing\<close>

definition digit_char :: "nat \<Rightarrow> char" where
  "digit_char d = char_of (48 + d)"

fun show_nat :: "nat \<Rightarrow> string" where
  "show_nat n = (if n < 10 then [digit_char n] else show_nat (n div 10) @ [digit_char (n mod 10)])"

declare show_nat.simps [simp del]

definition show_int :: "int \<Rightarrow> string" where
  "show_int i = (if i < 0 then CHR ''-'' # show_nat (nat (- i)) else show_nat (nat i))"

definition read_digit :: "char \<Rightarrow> nat" where
  "read_digit c = of_char c - 48"

definition read_nat :: "string \<Rightarrow> nat" where
  "read_nat s = foldl (\<lambda>n c. 10 * n + read_digit c) 0 s"

lemma read_digit_digit_char: "d < 10 \<Longrightarrow> read_digit (digit_char d) = d"
  by (simp add: read_digit_def digit_char_def)

lemma read_nat_snoc: "read_nat (s @ [c]) = 10 * read_nat s + read_digit c"
  by (simp add: read_nat_def)

lemma read_show_nat [simp]: "read_nat (show_nat n) = n"
proof (induction n rule: show_nat.induct)
  case (1 n)
  show ?case
  proof (cases "n < 10")
    case True
    then show ?thesis
      by (simp add: show_nat.simps [of n] read_nat_def read_digit_digit_char)
  next
    case False
    with 1 have "read_nat (show_nat (n div 10)) = n div 10" by simp
    with False show ?thesis
      by (simp add: show_nat.simps [of n] read_nat_snoc read_digit_digit_char)
  qed
qed

lemma show_nat_inject [simp]: "show_nat m = show_nat n \<longleftrightarrow> m = n"
  by (metis read_show_nat)

lemma digit_char_not_minus: "d < 10 \<Longrightarrow> digit_char d \<noteq> CHR ''-''"
proof -
  assume "d < 10"
  then have "(of_char (digit_char d) :: nat) \<noteq> of_char (CHR ''-'')"
    by (simp add: digit_char_def)
  then show ?thesis by metis
qed

lemma hd_show_nat: "\<exists>d rest. show_nat n = digit_char d # rest \<and> d < 10"
proof (induction n rule: show_nat.induct)
  case (1 n)
  show ?case
  proof (cases "n < 10")
    case True
    then show ?thesis by (auto simp: show_nat.simps [of n])
  next
    case False
    with 1 obtain d rest where "show_nat (n div 10) = digit_char d # rest" "d < 10" by blast
    with False show ?thesis by (auto simp: show_nat.simps [of n])
  qed
qed

lemma show_int_inject [simp]: "show_int i = show_int j \<longleftrightarrow> i = j"
proof -
  have ne: "show_nat n \<noteq> CHR ''-'' # s" for n s
    using hd_show_nat [of n] digit_char_not_minus by (metis list.inject)
  show ?thesis
    by (auto simp: show_int_def ne ne [symmetric])
qed

section \<open>Hexadecimal printing\<close>

text \<open>hex.EncodeToString, and the verb \<^verbatim>\<open>%x\<close> on a byte slice.\<close>

definition hex_digit :: "nat \<Rightarrow> char" where
  "hex_digit d = (if d < 10 then char_of (48 + d) else char_of (87 + d))"

definition hex_encode :: "bytes \<Rightarrow> string" where
  "hex_encode bs = concat (map (\<lambda>b. [hex_digit (unat b div 16), hex_digit (unat b mod 16)]) bs)"

lemma hex_digit_inj:
  assumes "a < 16" "b < 16"
  shows "hex_digit a = hex_digit b \<longleftrightarrow> a = b"
proof
  have code: "of_char (hex_digit d) = (if d < 10 then 48 + d else 87 + d)" if "d < 16" for d :: nat
    using that by (simp add: hex_digit_def)
  assume "hex_digit a = hex_digit b"
  then have "(if a < 10 then 48 + a else 87 + a) = (if b < 10 then 48 + b else 87 + b)"
    using code [OF assms(1)] code [OF assms(2)] by simp
  then show "a = b" by (simp split: if_splits)
qed simp

lemma hex_encode_inj [simp]: "hex_encode xs = hex_encode ys \<longleftrightarrow> xs = ys"
proof (induction xs arbitrary: ys)
  case Nil
  show ?case by (cases ys) (simp_all add: hex_encode_def)
next
  case (Cons x xs)
  show ?case
  proof (cases ys)
    case Nil
    then show ?thesis by (simp add: hex_encode_def)
  next
    case ys: (Cons y ys')
    have lt: "unat x < 256" "unat y < 256" using unsigned_less [of x] unsigned_less [of y] by simp_all
    have "unat x = unat y \<longleftrightarrow> unat x div 16 = unat y div 16 \<and> unat x mod 16 = unat y mod 16"
      by (metis div_mult_mod_eq)
    moreover have "hex_encode (x # xs) = hex_encode (y # ys') \<longleftrightarrow>
        hex_digit (unat x div 16) = hex_digit (unat y div 16) \<and>
        hex_digit (unat x mod 16) = hex_digit (unat y mod 16) \<and> hex_encode xs = hex_encode ys'"
      by (simp add: hex_encode_def)
    ultimately show ?thesis using lt Cons.IH [of ys'] by (simp add: ys hex_digit_inj word_unat_eq_iff)
  qed
qed

section \<open>Big-endian 32-bit words (encoding/binary)\<close>

definition PutUint32 :: "32 word \<Rightarrow> bytes" where
  "PutUint32 v = [ucast (drop_bit 24 v), ucast (drop_bit 16 v), ucast (drop_bit 8 v), ucast v]"

fun Uint32 :: "bytes \<Rightarrow> 32 word" where
  "Uint32 [b0, b1, b2, b3] =
     ucast b3 OR push_bit 8 (ucast b2) OR push_bit 16 (ucast b1) OR push_bit 24 (ucast b0)"
| "Uint32 _ = 0"

lemma length_PutUint32 [simp]: "length (PutUint32 v) = 4"
  by (simp add: PutUint32_def)

lemma Uint32_PutUint32 [simp, frame_simps]: "Uint32 (PutUint32 v) = v"
  unfolding PutUint32_def Uint32.simps
proof (rule bit_word_eqI)
  fix n :: nat
  assume "n < LENGTH(32)"
  then consider "n < 8" | "8 \<le> n" "n < 16" | "16 \<le> n" "n < 24" | "24 \<le> n" "n < 32"
    by fastforce
  then show "bit (ucast (ucast v :: byte) OR push_bit 8 (ucast (ucast (drop_bit 8 v) :: byte)) OR
      push_bit 16 (ucast (ucast (drop_bit 16 v) :: byte)) OR
      push_bit 24 (ucast (ucast (drop_bit 24 v) :: byte)) :: 32 word) n = bit v n"
    by cases (auto simp: bit_simps)
qed

lemma PutUint32_inject [simp]: "PutUint32 v = PutUint32 w \<longleftrightarrow> v = w"
  by (metis Uint32_PutUint32)

lemma PutUint32_Uint32: "length bs = 4 \<Longrightarrow> PutUint32 (Uint32 bs) = bs"
proof -
  assume "length bs = 4"
  then obtain a b c d where bs: "bs = [a, b, c, d]"
    by (auto simp: numeral_eq_Suc length_Suc_conv)
  show ?thesis
    unfolding bs PutUint32_def Uint32.simps
    by (intro arg_cong2 [where f = Cons] refl; rule bit_word_eqI; auto simp: bit_simps dest: bit_imp_le_length)
qed

section \<open>Lists\<close>

lemma list_all_prefix: "list_all P ys \<Longrightarrow> prefix xs ys \<Longrightarrow> list_all P xs"
  by (auto simp: prefix_def)

lemma foldl_append_concat: "foldl (\<lambda>acc x. acc @ f x) a xs = a @ concat (map f xs)"
  by (induction xs arbitrary: a) auto

lemma find_SomeD: "find P xs = Some x \<Longrightarrow> x \<in> set xs \<and> P x"
  by (auto simp: find_Some_iff in_set_conv_nth)

lemma nth_update_at: "j < length xs \<Longrightarrow> xs[i := x] ! j = (if i = j then x else xs ! j)"
  by (cases "i = j") simp_all

lemma take_append_left: "length xs = n \<Longrightarrow> take n (xs @ ys) = xs"
  by simp

lemma drop_append_left: "length xs = n \<Longrightarrow> drop n (xs @ ys) = ys"
  by simp

end
