(* ===== verification/Go_Lib.thy ===== *)
theory Go_Lib
  imports Prelude
begin

text \<open>
  The parts of Go's standard library the sources call, on byte strings (a Go \<^verbatim>\<open>string\<close> is a
  sequence of bytes, an Isabelle \<^verbatim>\<open>char\<close> is a byte): package strings (HasPrefix, Trim, Split,
  Join, Cut, TrimSpace, ToUpper, ToLower), package net/url (Parse and Query as far as the
  framework reads their results) and net.SplitHostPort.
  What the sources use of larger parts of it is a parameter, collected in \<open>golib\<close>: the Unicode
  case mapping of strings that hold non-ASCII bytes, the verdict of url.parseAuthority, the
  cookie parser of net/http and strconv.Quote.
\<close>

record golib =
  mapToUpper :: "string \<Rightarrow> string" \<comment> \<open>strings.Map(unicode.ToUpper, s) for a non-ASCII s\<close>
  mapToLower :: "string \<Rightarrow> string" \<comment> \<open>strings.Map(unicode.ToLower, s) for a non-ASCII s\<close>
  authorityOK :: "string \<Rightarrow> bool" \<comment> \<open>url.parseAuthority returns no error\<close>
  cookieValue :: "string \<Rightarrow> string \<Rightarrow> string option"
    \<comment> \<open>http.Request.Cookie: of a Cookie header and a name, the value of the first such cookie\<close>
  Quote :: "string \<Rightarrow> string" \<comment> \<open>strconv.Quote, the verb %q\<close>

section \<open>Package strings\<close>

definition HasPrefix :: "string \<Rightarrow> string \<Rightarrow> bool" where
  "HasPrefix s p = (take (length p) s = p)"

lemma HasPrefix_iff: "HasPrefix s p \<longleftrightarrow> prefix p s"
  by (metis HasPrefix_def append_eq_conv_conj prefix_def)

text \<open>\<open>Trim1 c s\<close> is \<^verbatim>\<open>strings.Trim(s, cutset)\<close> for a cutset of the single ASCII character \<open>c\<close>.\<close>

definition Trim1 :: "char \<Rightarrow> string \<Rightarrow> string" where
  "Trim1 c s = rev (dropWhile (\<lambda>x. x = c) (rev (dropWhile (\<lambda>x. x = c) s)))"

text \<open>\<open>Split1 c s\<close> is \<^verbatim>\<open>strings.Split(s, sep)\<close> for a separator of one character.\<close>

fun Split1 :: "char \<Rightarrow> string \<Rightarrow> string list" where
  "Split1 c [] = [[]]"
| "Split1 c (x # xs) =
     (if x = c then [] # Split1 c xs
      else (case Split1 c xs of [] \<Rightarrow> [[x]] | p # ps \<Rightarrow> (x # p) # ps))"

fun Join :: "string list \<Rightarrow> string \<Rightarrow> string" where
  "Join [] sep = []"
| "Join [x] sep = x"
| "Join (x # y # xs) sep = x @ sep @ Join (y # xs) sep"

text \<open>\<open>Cut1 c s\<close> is the first two results of \<^verbatim>\<open>strings.Cut(s, sep)\<close>.\<close>

definition Cut1 :: "char \<Rightarrow> string \<Rightarrow> string \<times> string" where
  "Cut1 c s = (takeWhile (\<lambda>x. x \<noteq> c) s, tl (dropWhile (\<lambda>x. x \<noteq> c) s))"

definition is_ascii :: "char \<Rightarrow> bool" where
  "is_ascii c = (of_char c < (128::nat))"

definition upper_char :: "char \<Rightarrow> char" where
  "upper_char c = (let n = of_char c :: nat in if 97 \<le> n \<and> n \<le> 122 then char_of (n - 32) else c)"

definition lower_char :: "char \<Rightarrow> char" where
  "lower_char c = (let n = of_char c :: nat in if 65 \<le> n \<and> n \<le> 90 then char_of (n + 32) else c)"

definition ToUpper :: "golib \<Rightarrow> string \<Rightarrow> string" where
  "ToUpper L s = (if list_all is_ascii s then map upper_char s else mapToUpper L s)"

definition ToLower :: "golib \<Rightarrow> string \<Rightarrow> string" where
  "ToLower L s = (if list_all is_ascii s then map lower_char s else mapToLower L s)"

subsection \<open>TrimSpace\<close>

text \<open>
  The UTF-8 encodings of the runes for which unicode.IsSpace holds. No encoding is a prefix or
  a suffix of another, and a byte string starts (ends) with one of them exactly when its first
  (last) rune is a space.
\<close>

definition space_seqs :: "string list" where
  "space_seqs = map (map char_of)
     ([[9], [10], [11], [12], [13], [32], [0xC2, 0x85], [0xC2, 0xA0], [0xE1, 0x9A, 0x80]]
      @ map (\<lambda>n. [0xE2, 0x80, n]) [0x80 ..< 0x8B]
      @ [[0xE2, 0x80, 0xA8], [0xE2, 0x80, 0xA9], [0xE2, 0x80, 0xAF], [0xE2, 0x81, 0x9F],
         [0xE3, 0x80, 0x80 :: nat]])"

function trim_seqs :: "string list \<Rightarrow> string \<Rightarrow> string" where
  "trim_seqs qs s =
     (case find (\<lambda>q. q \<noteq> [] \<and> HasPrefix s q) qs of
        None \<Rightarrow> s
      | Some q \<Rightarrow> trim_seqs qs (drop (length q) s))"
  by pat_completeness auto
termination
proof (relation "measure (\<lambda>(qs, s). length s)", goal_cases)
  case (2 qs s q)
  then have "q \<noteq> []" "HasPrefix s q" by (auto simp: find_Some_iff)
  then have "0 < length q" "length q \<le> length s"
    by (auto simp: HasPrefix_iff dest: prefix_length_le)
  then have "length s - length q < length s" by linarith
  then show ?case by simp
qed simp

declare trim_seqs.simps [simp del]

lemma trim_seqs_id: "find (\<lambda>q. q \<noteq> [] \<and> HasPrefix s q) qs = None \<Longrightarrow> trim_seqs qs s = s"
  by (subst trim_seqs.simps) simp

lemma find_space_None:
  assumes "s = [] \<or> hd s \<notin> hd ` set qs"
  shows "find (\<lambda>q. q \<noteq> [] \<and> HasPrefix s q) qs = None"
proof -
  have "\<not> HasPrefix s q" if "q \<in> set qs" "q \<noteq> []" for q
  proof
    assume "HasPrefix s q"
    then obtain t where "s = q @ t" by (auto simp: HasPrefix_iff prefix_def)
    with that assms show False by auto
  qed
  then show ?thesis by (auto simp: find_None_iff)
qed

definition TrimSpace :: "string \<Rightarrow> string" where
  "TrimSpace s = rev (trim_seqs (map rev space_seqs) (rev (trim_seqs space_seqs s)))"

section \<open>Package net/url\<close>

text \<open>The fields of \<^verbatim>\<open>url.URL\<close> the framework reads.\<close>

record url =
  url_Path :: string
  url_RawQuery :: string

definition hex_val :: "char \<Rightarrow> nat option" where
  "hex_val c = (let n = of_char c :: nat in
     if 48 \<le> n \<and> n \<le> 57 then Some (n - 48)
     else if 97 \<le> n \<and> n \<le> 102 then Some (n - 87)
     else if 65 \<le> n \<and> n \<le> 70 then Some (n - 55)
     else None)"

text \<open>
  \<^verbatim>\<open>url.unescape\<close>: the flag is the mode encodeQueryComponent, in which a plus sign is a space;
  \<open>None\<close> is the EscapeError.
\<close>

fun unescape :: "bool \<Rightarrow> string \<Rightarrow> string option" where
  "unescape q [] = Some []"
| "unescape q (c # cs) =
     (if c = CHR ''%'' then
        (case cs of
           h # l # rest \<Rightarrow>
             (case (hex_val h, hex_val l) of
                (Some a, Some b) \<Rightarrow> map_option (Cons (char_of (16 * a + b))) (unescape q rest)
              | _ \<Rightarrow> None)
         | _ \<Rightarrow> None)
      else map_option (Cons (if q \<and> c = CHR ''+'' then CHR '' '' else c)) (unescape q cs))"

definition is_alpha :: "char \<Rightarrow> bool" where
  "is_alpha c = (let n = of_char c :: nat in (97 \<le> n \<and> n \<le> 122) \<or> (65 \<le> n \<and> n \<le> 90))"

definition is_digit :: "char \<Rightarrow> bool" where
  "is_digit c = (let n = of_char c :: nat in 48 \<le> n \<and> n \<le> 57)"

text \<open>
  \<^verbatim>\<open>url.getScheme\<close>: \<open>acc\<close> is what the loop has passed, so it is empty at index 0; \<open>None\<close> is the
  error "missing protocol scheme".
\<close>

fun getScheme :: "string \<Rightarrow> string \<Rightarrow> string \<Rightarrow> (string \<times> string) option" where
  "getScheme raw acc [] = Some ([], raw)"
| "getScheme raw acc (c # cs) =
     (if is_alpha c then getScheme raw (acc @ [c]) cs
      else if is_digit c \<or> c = CHR ''+'' \<or> c = CHR ''-'' \<or> c = CHR ''.'' then
        (if acc = [] then Some ([], raw) else getScheme raw (acc @ [c]) cs)
      else if c = CHR '':'' then (if acc = [] then None else Some (acc, cs))
      else Some ([], raw))"

definition is_ctl :: "char \<Rightarrow> bool" where
  "is_ctl c = (let n = of_char c :: nat in n < 32 \<or> n = 127)"

text \<open>The tail of \<^verbatim>\<open>url.parse\<close>: authority and path of what is left once scheme and query are cut.\<close>

definition url_setPath :: "string \<Rightarrow> string \<Rightarrow> url option" where
  "url_setPath p q = map_option (\<lambda>path. \<lparr>url_Path = path, url_RawQuery = q\<rparr>) (unescape False p)"

definition url_hier :: "golib \<Rightarrow> string \<Rightarrow> string \<Rightarrow> string \<Rightarrow> url option" where
  "url_hier L scheme rest q =
     (if (scheme \<noteq> [] \<or> \<not> HasPrefix rest ''///'') \<and> HasPrefix rest ''//'' then
        (let authority = takeWhile (\<lambda>c. c \<noteq> CHR ''/'') (drop 2 rest);
             rest' = dropWhile (\<lambda>c. c \<noteq> CHR ''/'') (drop 2 rest)
         in if authorityOK L authority then url_setPath rest' q else None)
      else url_setPath rest q)"

text \<open>\<^verbatim>\<open>url.parse(rawURL, false)\<close>.\<close>

definition url_parse :: "golib \<Rightarrow> string \<Rightarrow> url option" where
  "url_parse L raw =
     (if list_ex is_ctl raw then None
      else if raw = ''*'' then Some \<lparr>url_Path = ''*'', url_RawQuery = []\<rparr>
      else (case getScheme raw [] raw of
          None \<Rightarrow> None
        | Some (scheme, rest0) \<Rightarrow>
            (let (rest, q) = Cut1 (CHR ''?'') rest0
             in if \<not> HasPrefix rest ''/'' then
                  (if scheme \<noteq> [] then Some \<lparr>url_Path = [], url_RawQuery = q\<rparr>
                   else if CHR '':'' \<in> set (fst (Cut1 (CHR ''/'') rest)) then None
                   else url_hier L scheme rest q)
                else url_hier L scheme rest q)))"

text \<open>\<^verbatim>\<open>url.Parse\<close>: a fragment is cut off first, and must unescape.\<close>

definition url_Parse :: "golib \<Rightarrow> string \<Rightarrow> url option" where
  "url_Parse L raw =
     (let (u, frag) = Cut1 (CHR ''#'') raw
      in case url_parse L u of
           None \<Rightarrow> None
         | Some r \<Rightarrow> if frag = [] \<or> unescape False frag \<noteq> None then Some r else None)"

text \<open>\<^verbatim>\<open>url.Values\<close>, and \<^verbatim>\<open>URL.Query\<close>, which drops the malformed pairs of the query.\<close>

type_synonym values_map = "string \<rightharpoonup> string list"

definition query_add :: "values_map \<Rightarrow> string \<Rightarrow> values_map" where
  "query_add m piece =
     (if CHR '';'' \<in> set piece \<or> piece = [] then m
      else (let (k, v) = Cut1 (CHR ''='') piece
            in case (unescape True k, unescape True v) of
                 (Some k', Some v') \<Rightarrow>
                   m(k' \<mapsto> (case m k' of None \<Rightarrow> [] | Some vs \<Rightarrow> vs) @ [v'])
               | _ \<Rightarrow> m))"

definition ParseQuery :: "string \<Rightarrow> values_map" where
  "ParseQuery q = foldl query_add Map.empty (Split1 (CHR ''&'') q)"

definition Values_Get :: "values_map \<Rightarrow> string \<Rightarrow> string" where
  "Values_Get m k = (case m k of None \<Rightarrow> [] | Some [] \<Rightarrow> [] | Some (v # vs) \<Rightarrow> v)"

section \<open>net.SplitHostPort\<close>

text \<open>The host part; \<open>None\<close> is an AddrError. \<open>last_colon\<close> splits at the last colon.\<close>

definition last_colon :: "string \<Rightarrow> (string \<times> string) option" where
  "last_colon s =
     (if CHR '':'' \<in> set s
      then Some (rev (tl (dropWhile (\<lambda>c. c \<noteq> CHR '':'') (rev s))),
                 rev (takeWhile (\<lambda>c. c \<noteq> CHR '':'') (rev s)))
      else None)"

definition SplitHost :: "string \<Rightarrow> string option" where
  "SplitHost hp =
     (case last_colon hp of
        None \<Rightarrow> None
      | Some (before, port) \<Rightarrow>
          if hp \<noteq> [] \<and> hd hp = CHR ''['' then
            (if CHR '']'' \<notin> set hp then None
             else (let inner = takeWhile (\<lambda>c. c \<noteq> CHR '']'') (tl hp);
                       after = tl (dropWhile (\<lambda>c. c \<noteq> CHR '']'') (tl hp))
                   in if after \<noteq> CHR '':'' # port \<or> CHR ''['' \<in> set (tl hp) \<or> CHR '']'' \<in> set after
                      then None else Some inner))
          else if CHR '':'' \<in> set before \<or> CHR ''['' \<in> set hp \<or> CHR '']'' \<in> set hp then None
          else Some before)"

section \<open>Facts about strings\<close>

lemma Split1_ne [simp]: "Split1 c s \<noteq> []"
  by (cases s) (auto split: list.splits)

lemma Join_Split1 [simp]: "Join (Split1 c s) [c] = s"
proof (induction s)
  case Nil
  show ?case by simp
next
  case (Cons x xs)
  obtain p ps where "Split1 c xs = p # ps" by (meson Split1_ne neq_Nil_conv)
  with Cons show ?case by (cases ps) auto
qed

lemma Split1_no_sep: "p \<in> set (Split1 c s) \<Longrightarrow> c \<notin> set p"
  by (induction s arbitrary: p) (auto split: list.splits if_splits)

lemma Split1_id: "c \<notin> set s \<Longrightarrow> Split1 c s = [s]"
  by (induction s) auto

lemma Split1_append_sep: "c \<notin> set p \<Longrightarrow> Split1 c (p @ c # s) = p # Split1 c s"
  by (induction p) auto

lemma Split1_Join:
  "xs \<noteq> [] \<Longrightarrow> \<forall>x \<in> set xs. c \<notin> set x \<Longrightarrow> Split1 c (Join xs [c]) = xs"
proof (induction xs)
  case Nil
  then show ?case by simp
next
  case (Cons x xs)
  then show ?case
    by (cases xs) (auto simp: Split1_id Split1_append_sep)
qed

lemma Trim1_Nil [simp]: "Trim1 c [] = []"
  by (simp add: Trim1_def)

lemma dropWhile_replicate [simp]: "dropWhile (\<lambda>x. x = c) (replicate n c @ s) = dropWhile (\<lambda>x. x = c) s"
  by (induction n) auto

lemma Trim1_pad: "Trim1 c (replicate m c @ s @ replicate n c) = Trim1 c s"
proof -
  have *: "dropWhile (\<lambda>x. x = c) (rev (dropWhile (\<lambda>x. x = c) (s @ replicate n c)))
      = dropWhile (\<lambda>x. x = c) (rev (dropWhile (\<lambda>x. x = c) s))"
  proof (cases "list_all (\<lambda>x. x = c) s")
    case True
    then have nil: "dropWhile (\<lambda>x. x = c) s = []" "dropWhile (\<lambda>x. x = c) (s @ replicate n c) = []"
      by (auto simp: list_all_iff)
    show ?thesis by (simp only: nil)
  next
    case False
    then have "dropWhile (\<lambda>x. x = c) (s @ replicate n c) = dropWhile (\<lambda>x. x = c) s @ replicate n c"
      by (auto simp: list_all_iff dropWhile_append)
    then show ?thesis by simp
  qed
  then show ?thesis by (simp add: Trim1_def)
qed

lemma dropWhile_hd_id: "xs = [] \<or> \<not> P (hd xs) \<Longrightarrow> dropWhile P xs = xs"
  by (cases xs) auto

lemma Trim1_id: "s = [] \<or> hd s \<noteq> c \<and> last s \<noteq> c \<Longrightarrow> Trim1 c s = s"
  by (auto simp: Trim1_def dropWhile_hd_id hd_rev)

lemma ToUpper_ascii: "list_all is_ascii s \<Longrightarrow> ToUpper L s = map upper_char s"
  by (simp add: ToUpper_def)

end
