(* ===== verification/Errors.thy ===== *)
theory Errors
  imports Go_Lib
begin

text \<open>
  Go error values. An error is known by its text (\<^verbatim>\<open>err.Error()\<close>) and by the chain that
  \<^verbatim>\<open>fmt.Errorf("...: %w", err)\<close> builds, so \<open>Wrap p e\<close> is the error whose text is \<open>p\<close> followed by the
  text of \<open>e\<close> and which unwraps to \<open>e\<close>. The one error type with structure that the framework
  returns, \<^verbatim>\<open>*ValidationError\<close> of framework/validation.go, has a constructor of its own.
\<close>

record FieldError =
  fe_Field :: string
  fe_Tag :: string
  fe_Value :: string

text \<open>The loop body of \<^verbatim>\<open>ValidationError.Error\<close>, and the method.\<close>

definition field_part :: "FieldError \<Rightarrow> string" where
  "field_part f =
     (if fe_Value f \<noteq> [] then fe_Field f @ '' failed '' @ fe_Tag f @ ''='' @ fe_Value f
      else fe_Field f @ '' failed '' @ fe_Tag f)"

definition ValidationError_Error :: "FieldError list \<Rightarrow> string" where
  "ValidationError_Error fs =
     (if fs = [] then ''validation failed''
      else ''validation failed: '' @ Join (map field_part fs) '', '')"

datatype goerr = Err string | Wrap string goerr | EValidation "FieldError list"

fun err_text :: "goerr \<Rightarrow> string" where
  "err_text (Err s) = s"
| "err_text (Wrap p e) = p @ err_text e"
| "err_text (EValidation fs) = ValidationError_Error fs"

text \<open>The sentinel errors of package io.\<close>

definition io_EOF :: goerr where
  "io_EOF = Err ''EOF''"

definition io_ErrUnexpectedEOF :: goerr where
  "io_ErrUnexpectedEOF = Err ''unexpected EOF''"

end
