(* ===== verification/Go_IO.thy ===== *)
theory Go_IO
  imports Errors
begin

text \<open>
  The \<^verbatim>\<open>io.ReadWriter\<close> a transport hands to the dispatcher: one bidirectional stream. \<open>rx\<close> are the
  bytes the peer has sent and nobody has read, \<open>rend\<close> the error a read meets after them
  (\<^verbatim>\<open>io.EOF\<close> when the peer closed its side, otherwise a transport error), \<open>tx\<close> the bytes written so
  far. \<open>wfail\<close> says when writing starts to fail: \<open>None\<close> never, \<open>Some (n, e)\<close> after \<open>n\<close> more bytes,
  with error \<open>e\<close>; a write that does not fit delivers its first \<open>n\<close> bytes, as the contract of
  \<^verbatim>\<open>io.Writer\<close> allows, and every later non-empty write fails.
\<close>

record gostream =
  rx :: bytes
  rend :: goerr
  tx :: bytes
  wfail :: "(nat \<times> goerr) option"

definition io_Write :: "gostream \<Rightarrow> bytes \<Rightarrow> goerr option \<times> gostream" where
  "io_Write s bs =
     (case wfail s of
        None \<Rightarrow> (None, s\<lparr>tx := tx s @ bs\<rparr>)
      | Some (n, e) \<Rightarrow>
          if length bs \<le> n then (None, s\<lparr>tx := tx s @ bs, wfail := Some (n - length bs, e)\<rparr>)
          else (Some e, s\<lparr>tx := tx s @ take n bs, wfail := Some (0, e)\<rparr>))"

text \<open>
  \<^verbatim>\<open>io.ReadFull(r, buf)\<close> with \<open>n = len(buf)\<close>: all \<open>n\<close> bytes, or what io.ReadFull documents: the read
  error as it is, except that EOF after some bytes is ErrUnexpectedEOF.
\<close>

definition io_ReadFull :: "gostream \<Rightarrow> nat \<Rightarrow> (goerr + bytes) \<times> gostream" where
  "io_ReadFull s n =
     (if n \<le> length (rx s) then (Inr (take n (rx s)), s\<lparr>rx := drop n (rx s)\<rparr>)
      else (Inl (if rend s = io_EOF \<and> rx s \<noteq> [] then io_ErrUnexpectedEOF else rend s),
            s\<lparr>rx := []\<rparr>))"

text \<open>A new stream on a working connection, and a stream on which writes do not fail.\<close>

definition fresh_stream :: gostream where
  "fresh_stream = \<lparr>rx = [], rend = io_EOF, tx = [], wfail = None\<rparr>"

definition healthy :: "gostream \<Rightarrow> bool" where
  "healthy s = (wfail s = None)"

lemma io_Write_healthy [simp]:
  "healthy s \<Longrightarrow> io_Write s bs = (None, s\<lparr>tx := tx s @ bs\<rparr>)"
  by (simp add: io_Write_def healthy_def)

lemma healthy_tx_update [simp]: "healthy (s\<lparr>tx := t\<rparr>) = healthy s"
  by (simp add: healthy_def)

lemma healthy_rx_update [simp]: "healthy (s\<lparr>rx := r\<rparr>) = healthy s"
  by (simp add: healthy_def)

lemma io_Write_frame:
  "io_Write s bs = (r, s') \<Longrightarrow> rx s' = rx s \<and> rend s' = rend s \<and> healthy s' = healthy s"
  by (auto simp: io_Write_def healthy_def split: option.splits if_splits prod.splits)

lemma io_Write_ok: "io_Write s bs = (None, s') \<Longrightarrow> tx s' = tx s @ bs"
  by (auto simp: io_Write_def split: option.splits if_splits prod.splits)

lemma io_Write_err:
  "io_Write s bs = (Some e, s') \<Longrightarrow> \<exists>p. strict_prefix p bs \<and> tx s' = tx s @ p"
proof -
  assume a: "io_Write s bs = (Some e, s')"
  then obtain n where n: "\<not> length bs \<le> n" "tx s' = tx s @ take n bs"
    by (auto simp: io_Write_def split: option.splits if_splits prod.splits)
  then have "strict_prefix (take n bs) bs"
    by (metis nle_le strict_prefix_def take_all_iff take_is_prefix)
  with n show ?thesis by blast
qed

lemma io_ReadFull_tx: "io_ReadFull s n = (r, s') \<Longrightarrow> tx s' = tx s \<and> wfail s' = wfail s"
  by (auto simp: io_ReadFull_def split: if_splits)

lemma io_ReadFull_append [simp]:
  "length bs = n \<Longrightarrow> rx s = bs @ rest \<Longrightarrow> io_ReadFull s n = (Inr bs, s\<lparr>rx := rest\<rparr>)"
  by (simp add: io_ReadFull_def)

end
