(* ===== verification/Protocol.thy ===== *)
theory Protocol
  imports Go_IO
begin

text \<open>
  Package protocol: the wire types of protocol/types.go and the frame codec of
  protocol/codec.go. The MessagePack library is not part of the repository; it is the
  parameter \<open>msgpack\<close>, one function per type the sources marshal or unmarshal.
\<close>

section \<open>protocol/types.go\<close>

type_synonym FrameType = "8 word"

definition FrameTypeRequest :: FrameType where "FrameTypeRequest = 0x01"
definition FrameTypeResponse :: FrameType where "FrameTypeResponse = 0x02"
definition FrameTypeStreamData :: FrameType where "FrameTypeStreamData = 0x03"
definition FrameTypeStreamEnd :: FrameType where "FrameTypeStreamEnd = 0x04"
definition FrameTypeError :: FrameType where "FrameTypeError = 0x05"
definition FrameTypePing :: FrameType where "FrameTypePing = 0x06"
definition FrameTypePong :: FrameType where "FrameTypePong = 0x07"

lemmas FrameType_defs = FrameTypeRequest_def FrameTypeResponse_def FrameTypeStreamData_def
  FrameTypeStreamEnd_def FrameTypeError_def FrameTypePing_def FrameTypePong_def

text \<open>The status codes the sources send.\<close>

definition StatusNoContent :: int where "StatusNoContent = 204"
definition StatusBadRequest :: int where "StatusBadRequest = 400"
definition StatusUnauthorized :: int where "StatusUnauthorized = 401"
definition StatusTooManyRequests :: int where "StatusTooManyRequests = 429"
definition StatusInternalServerError :: int where "StatusInternalServerError = 500"

lemmas Status_defs = StatusNoContent_def StatusBadRequest_def StatusUnauthorized_def
  StatusTooManyRequests_def StatusInternalServerError_def

record Request =
  req_ID :: string
  req_Method :: string
  req_Path :: string
  req_Headers :: gomap
  req_Body :: bytes
  req_Stream :: bool

record Response =
  resp_ID :: string
  resp_Status :: int
  resp_Headers :: gomap
  resp_Body :: bytes
  resp_Stream :: bool

record StreamChunk =
  chunk_ID :: string
  chunk_Seq :: "64 word"
  chunk_Data :: bytes
  chunk_Final :: bool

record ErrorFrame =
  ef_ID :: string
  ef_Code :: int
  ef_Message :: string
  ef_Data :: bytes

record PingFrame =
  ping_Timestamp :: int

definition MaxFrameSize :: "32 word" where
  "MaxFrameSize = 64 * 1024 * 1024"

lemma unat_MaxFrameSize: "unat MaxFrameSize = 67108864"
  by (simp add: MaxFrameSize_def)

section \<open>The MessagePack library\<close>

text \<open>What the sources pass to \<^verbatim>\<open>msgpack.Marshal\<close>: a wire struct, or an application value.\<close>

datatype 'v payload =
    PRequest Request
  | PResponse Response
  | PStreamChunk StreamChunk
  | PErrorFrame ErrorFrame
  | PPing PingFrame
  | PValue 'v

text \<open>
  \<open>Unmarshal_value data v\<close> is \<^verbatim>\<open>msgpack.Unmarshal(data, &v)\<close> for an application target holding \<open>v\<close>.
\<close>

record 'v msgpack =
  Marshal :: "'v payload \<Rightarrow> goerr + bytes"
  Unmarshal_Request :: "bytes \<Rightarrow> goerr + Request"
  Unmarshal_Response :: "bytes \<Rightarrow> goerr + Response"
  Unmarshal_StreamChunk :: "bytes \<Rightarrow> goerr + StreamChunk"
  Unmarshal_ErrorFrame :: "bytes \<Rightarrow> goerr + ErrorFrame"
  Unmarshal_value :: "bytes \<Rightarrow> 'v \<Rightarrow> goerr + 'v"

section \<open>protocol/codec.go\<close>

text \<open>\<^verbatim>\<open>uint32(1 + len(encoded))\<close>: the conversion keeps the low 32 bits.\<close>

definition frameLen :: "bytes \<Rightarrow> 32 word" where
  "frameLen encoded = word_of_nat (1 + length encoded)"

definition WriteFrame ::
    "'v msgpack \<Rightarrow> gostream \<Rightarrow> FrameType \<Rightarrow> 'v payload \<Rightarrow> goerr option \<times> gostream" where
  "WriteFrame M w frameType payload =
     (case Marshal M payload of
        Inl err \<Rightarrow> (Some (Wrap ''quicframe/protocol: marshal: '' err), w)
      | Inr encoded \<Rightarrow>
          if frameLen encoded > MaxFrameSize then
            (Some (Err (''quicframe/protocol: payload too large ('' @
                show_nat (unat (frameLen encoded)) @ '' bytes)'')), w)
          else
            (case io_Write w (PutUint32 (frameLen encoded)) of
               (Some err, w1) \<Rightarrow> (Some (Wrap ''quicframe/protocol: write header: '' err), w1)
             | (None, w1) \<Rightarrow>
                 (case io_Write w1 [frameType] of
                    (Some err, w2) \<Rightarrow> (Some (Wrap ''quicframe/protocol: write type: '' err), w2)
                  | (None, w2) \<Rightarrow>
                      (case io_Write w2 encoded of
                         (Some err, w3) \<Rightarrow> (Some (Wrap ''quicframe/protocol: write payload: '' err), w3)
                       | (None, w3) \<Rightarrow> (None, w3)))))"

definition ReadFrame :: "gostream \<Rightarrow> (goerr + FrameType \<times> bytes) \<times> gostream" where
  "ReadFrame r =
     (case io_ReadFull r 4 of
        (Inl err, r1) \<Rightarrow> (Inl (Wrap ''quicframe/protocol: read header: '' err), r1)
      | (Inr header, r1) \<Rightarrow>
          (let flen = Uint32 header
           in if flen = 0 \<or> flen > MaxFrameSize then
                (Inl (Err (''quicframe/protocol: invalid frame length '' @ show_nat (unat flen))), r1)
              else
                (case io_ReadFull r1 (unat flen) of
                   (Inl err, r2) \<Rightarrow> (Inl (Wrap ''quicframe/protocol: read body: '' err), r2)
                 | (Inr buf, r2) \<Rightarrow> (Inr (hd buf, tl buf), r2))))"

definition wrap_err :: "string \<Rightarrow> goerr + 'a \<Rightarrow> goerr + 'a" where
  "wrap_err p r = (case r of Inl e \<Rightarrow> Inl (Wrap p e) | Inr x \<Rightarrow> Inr x)"

definition DecodeRequest :: "'v msgpack \<Rightarrow> bytes \<Rightarrow> goerr + Request" where
  "DecodeRequest M data =
     wrap_err ''quicframe/protocol: decode request: '' (Unmarshal_Request M data)"

definition DecodeResponse :: "'v msgpack \<Rightarrow> bytes \<Rightarrow> goerr + Response" where
  "DecodeResponse M data =
     wrap_err ''quicframe/protocol: decode response: '' (Unmarshal_Response M data)"

definition DecodeStreamChunk :: "'v msgpack \<Rightarrow> bytes \<Rightarrow> goerr + StreamChunk" where
  "DecodeStreamChunk M data =
     wrap_err ''quicframe/protocol: decode stream chunk: '' (Unmarshal_StreamChunk M data)"

definition DecodeError :: "'v msgpack \<Rightarrow> bytes \<Rightarrow> goerr + ErrorFrame" where
  "DecodeError M data =
     wrap_err ''quicframe/protocol: decode error: '' (Unmarshal_ErrorFrame M data)"

definition WriteError ::
    "'v msgpack \<Rightarrow> gostream \<Rightarrow> string \<Rightarrow> int \<Rightarrow> string \<Rightarrow> bytes \<Rightarrow> goerr option \<times> gostream" where
  "WriteError M w requestID code message data =
     WriteFrame M w FrameTypeError
       (PErrorFrame \<lparr>ef_ID = requestID, ef_Code = code, ef_Message = message, ef_Data = data\<rparr>)"

end
