(* ===== verification/Frames.thy ===== *)
theory Frames
  imports Protocol
begin

text \<open>
  What the frame codec guarantees. \<open>encode_frame\<close> is the byte layout of one frame,
  \<open>ReadFrames\<close> is a peer that calls ReadFrame until it fails. The locale \<open>frame_codec\<close> is the
  interface between the codec and its users: decoding what was encoded gives the frame and the
  rest, and only encodings decode. Its lemmas on sequences of frames are proved once and
  interpreted on WriteFrame's layout and ReadFrame.
\<close>

section \<open>Layout of a frame\<close>

type_synonym frame = "FrameType \<times> bytes"

definition encode_frame :: "frame \<Rightarrow> bytes" where
  "encode_frame f = PutUint32 (frameLen (snd f)) @ [fst f] @ snd f"

definition frame_fits :: "frame \<Rightarrow> bool" where
  "frame_fits f = (1 + length (snd f) \<le> 67108864)"

lemma length_encode_frame [simp]: "length (encode_frame f) = 5 + length (snd f)"
  by (simp add: encode_frame_def)

lemma encode_frame_ne [simp]: "encode_frame f \<noteq> []"
  by (metis add_is_0 length_0_conv length_encode_frame numeral_neq_zero)

lemma unat_frameLen_mod: "unat (frameLen enc) = (1 + length enc) mod 2 ^ 32"
  unfolding frameLen_def by (simp only: unsigned_of_nat take_bit_eq_mod) simp

lemma unat_frameLen: "length enc < 2 ^ 32 - 1 \<Longrightarrow> unat (frameLen enc) = 1 + length enc"
  by (simp add: unat_frameLen_mod)

lemma frameLen_fits:
  "length enc < 2 ^ 32 - 1 \<Longrightarrow> frameLen enc > MaxFrameSize \<longleftrightarrow> \<not> frame_fits (ft, enc)"
  by (simp add: word_less_nat_alt unat_frameLen unat_MaxFrameSize frame_fits_def not_le)

lemma frame_fits_frameLen:
  assumes "frame_fits (ft, enc)"
  shows "\<not> frameLen enc > MaxFrameSize" "frameLen enc \<noteq> 0" "unat (frameLen enc) = 1 + length enc"
proof -
  from assms have len: "length enc < 2 ^ 32 - 1" by (simp add: frame_fits_def)
  then show u: "unat (frameLen enc) = 1 + length enc" by (rule unat_frameLen)
  from assms len show "\<not> frameLen enc > MaxFrameSize"
    using frameLen_fits by blast
  from u show "frameLen enc \<noteq> 0" by auto
qed

section \<open>Writing\<close>

lemma WriteFrame_healthy:
  assumes "healthy w" "Marshal M p = Inr enc" "\<not> frameLen enc > MaxFrameSize"
  shows "WriteFrame M w ft p = (None, w\<lparr>tx := tx w @ encode_frame (ft, enc)\<rparr>)"
  using assms by (simp add: WriteFrame_def encode_frame_def)

lemma WriteFrame_marshal_err:
  "Marshal M p = Inl e \<Longrightarrow>
   WriteFrame M w ft p = (Some (Wrap ''quicframe/protocol: marshal: '' e), w)"
  by (simp add: WriteFrame_def)

lemma WriteFrame_too_large:
  "Marshal M p = Inr enc \<Longrightarrow> frameLen enc > MaxFrameSize \<Longrightarrow>
   WriteFrame M w ft p = (Some (Err (''quicframe/protocol: payload too large ('' @
     show_nat (unat (frameLen enc)) @ '' bytes)'')), w)"
  by (simp add: WriteFrame_def)

text \<open>Success means that the whole frame is on the wire, on any stream.\<close>

lemma WriteFrame_ok:
  assumes "WriteFrame M w ft p = (None, w')"
  obtains enc where "Marshal M p = Inr enc" "\<not> frameLen enc > MaxFrameSize"
    "tx w' = tx w @ encode_frame (ft, enc)"
  using assms
  by (auto simp: WriteFrame_def encode_frame_def dest!: io_Write_ok
      split: sum.splits if_splits prod.splits option.splits)

lemma WriteFrame_frame:
  assumes "WriteFrame M w ft p = (r, w')"
  shows "rx w' = rx w" "rend w' = rend w" "healthy w' = healthy w"
  using assms
  by (auto simp: WriteFrame_def dest!: io_Write_frame
      split: sum.splits if_splits prod.splits option.splits)

text \<open>Failure means that the frame is cut short: nothing, or a proper prefix of it.\<close>

lemma strict_prefix_append: "strict_prefix p q \<Longrightarrow> strict_prefix (xs @ p) (xs @ q)"
  by (simp add: strict_prefix_def)

lemma strict_prefix_appendI: "strict_prefix p q \<Longrightarrow> strict_prefix p (q @ r)"
  by (auto simp: strict_prefix_def prefix_def)

lemma WriteFrame_err:
  assumes "WriteFrame M w ft p = (Some e, w')"
  shows "tx w' = tx w \<or>
    (\<exists>enc q. Marshal M p = Inr enc \<and> strict_prefix q (encode_frame (ft, enc)) \<and> tx w' = tx w @ q)"
proof (cases "Marshal M p")
  case (Inl a)
  with assms show ?thesis by (simp add: WriteFrame_def)
next
  case (Inr enc)
  let ?h = "PutUint32 (frameLen enc)"
  have "tx w' = tx w \<or> (\<exists>q. strict_prefix q (?h @ [ft] @ enc) \<and> tx w' = tx w @ q)"
  proof (cases "frameLen enc > MaxFrameSize")
    case True
    with assms Inr show ?thesis by (simp add: WriteFrame_def)
  next
    case False
    with assms Inr consider
        (h) e' where "io_Write w ?h = (Some e', w')"
      | (t) e' w1 where "io_Write w ?h = (None, w1)" "io_Write w1 [ft] = (Some e', w')"
      | (p) e' w1 w2 where "io_Write w ?h = (None, w1)" "io_Write w1 [ft] = (None, w2)"
          "io_Write w2 enc = (Some e', w')"
      by (auto simp: WriteFrame_def split: prod.splits option.splits)
    then show ?thesis
    proof cases
      case h
      then show ?thesis by (blast dest: io_Write_err intro: strict_prefix_appendI)
    next
      case t
      from io_Write_err [OF t(2)] obtain q where q: "strict_prefix q [ft]" "tx w' = tx w1 @ q"
        by blast
      with io_Write_ok [OF t(1)] have "tx w' = tx w @ (?h @ q)" by simp
      moreover have "strict_prefix (?h @ q) (?h @ [ft] @ enc)"
        using strict_prefix_append [OF strict_prefix_appendI [OF q(1), of enc], of ?h] by simp
      ultimately show ?thesis by blast
    next
      case p
      from io_Write_err [OF p(3)] obtain q where q: "strict_prefix q enc" "tx w' = tx w2 @ q"
        by blast
      with io_Write_ok [OF p(1)] io_Write_ok [OF p(2)] have "tx w' = tx w @ (?h @ [ft] @ q)"
        by simp
      moreover have "strict_prefix (?h @ [ft] @ q) (?h @ [ft] @ enc)"
        using strict_prefix_append [OF q(1), of "?h @ [ft]"] by simp
      ultimately show ?thesis by blast
    qed
  qed
  with Inr show ?thesis by (auto simp: encode_frame_def)
qed

section \<open>Reading\<close>

lemma ReadFrame_encode:
  assumes "frame_fits (ft, enc)" "rx r = encode_frame (ft, enc) @ rest"
  shows "ReadFrame r = (Inr (ft, enc), r\<lparr>rx := rest\<rparr>)"
proof -
  let ?h = "PutUint32 (frameLen enc)"
  have 1: "io_ReadFull r 4 = (Inr ?h, r\<lparr>rx := [ft] @ enc @ rest\<rparr>)"
    by (rule io_ReadFull_append) (simp_all add: assms encode_frame_def)
  have 2: "io_ReadFull (r\<lparr>rx := [ft] @ enc @ rest\<rparr>) (unat (frameLen enc))
      = (Inr ([ft] @ enc), (r\<lparr>rx := [ft] @ enc @ rest\<rparr>)\<lparr>rx := rest\<rparr>)"
    by (rule io_ReadFull_append) (simp_all add: frame_fits_frameLen [OF assms(1)])
  show ?thesis
    using frame_fits_frameLen(1,2) [OF assms(1)] 2 by (simp add: ReadFrame_def 1 Let_def)
qed

lemma ReadFrame_Inr:
  assumes "ReadFrame r = (Inr (ft, p), r')"
  shows "rx r = encode_frame (ft, p) @ rx r'" "frame_fits (ft, p)" "r' = r\<lparr>rx := rx r'\<rparr>"
proof -
  from assms obtain h r1 buf where
      h: "io_ReadFull r 4 = (Inr h, r1)" and len: "Uint32 h \<noteq> 0" "\<not> Uint32 h > MaxFrameSize"
    and b: "io_ReadFull r1 (unat (Uint32 h)) = (Inr buf, r')" and fp: "ft = hd buf" "p = tl buf"
    by (auto simp: ReadFrame_def Let_def split: prod.splits sum.splits if_splits)
  from h have h': "length h = 4" "rx r = h @ rx r1" "r1 = r\<lparr>rx := rx r1\<rparr>"
    by (auto simp: io_ReadFull_def split: if_splits)
  from b have b': "length buf = unat (Uint32 h)" "rx r1 = buf @ rx r'" "r' = r1\<lparr>rx := rx r'\<rparr>"
    by (auto simp: io_ReadFull_def split: if_splits)
  from len(1) have "0 < unat (Uint32 h)" by (simp add: unat_gt_0)
  with b'(1) have "buf \<noteq> []" by auto
  with fp have buf: "buf = ft # p" by simp
  with b'(1) have l: "unat (Uint32 h) = 1 + length p" by simp
  with len(2) show fits: "frame_fits (ft, p)"
    by (simp add: word_less_nat_alt unat_MaxFrameSize frame_fits_def)
  from l frame_fits_frameLen(3) [OF fits] have "Uint32 h = frameLen p"
    by (simp add: word_unat_eq_iff)
  then have "h = PutUint32 (frameLen p)"
    using PutUint32_Uint32 [OF h'(1)] by simp
  with h'(2) b'(2) buf show "rx r = encode_frame (ft, p) @ rx r'"
    by (simp add: encode_frame_def)
  from h'(3) b'(3) show "r' = r\<lparr>rx := rx r'\<rparr>" by (metis gostream.surjective gostream.update_convs(1))
qed

section \<open>Sequences of frames\<close>

locale frame_codec =
  fixes enc :: "'f \<Rightarrow> bytes"
    and dec :: "bytes \<Rightarrow> ('f \<times> bytes) option"
    and ok :: "'f \<Rightarrow> bool"
  assumes dec_enc: "ok f \<Longrightarrow> dec (enc f @ rest) = Some (f, rest)"
    and dec_sound: "dec bs = Some (f, rest) \<Longrightarrow> bs = enc f @ rest \<and> ok f"
    and enc_nonempty: "enc f \<noteq> []"
begin

lemma enc_append_inject:
  assumes "ok f" "ok g" "enc f @ r = enc g @ s"
  shows "f = g \<and> r = s"
proof -
  from dec_enc [OF assms(1), of r] dec_enc [OF assms(2), of s] assms(3)
  have "Some (f, r) = Some (g, s)" by metis
  then show ?thesis by simp
qed

lemma concat_enc_inject:
  "list_all ok fs \<Longrightarrow> list_all ok gs \<Longrightarrow> concat (map enc fs) = concat (map enc gs) \<Longrightarrow> fs = gs"
proof (induction fs arbitrary: gs)
  case Nil
  then show ?case by (cases gs) (simp_all add: enc_nonempty)
next
  case (Cons f fs)
  have "gs \<noteq> []" using Cons.prems(3) enc_nonempty [of f] by auto
  then obtain g gs' where gs: "gs = g # gs'" by (cases gs) auto
  with Cons.prems have "enc f @ concat (map enc fs) = enc g @ concat (map enc gs')"
    and ok: "ok f" "ok g" by auto
  with enc_append_inject [OF ok] have eq: "f = g" "concat (map enc fs) = concat (map enc gs')"
    by blast+
  have "fs = gs'" by (rule Cons.IH) (use Cons.prems gs eq in simp_all)
  with eq gs show ?case by simp
qed

lemma dec_strict_prefix:
  assumes "ok f" "strict_prefix q (enc f)"
  shows "dec q = None"
proof (rule ccontr)
  assume "dec q \<noteq> None"
  then obtain g r where g: "q = enc g @ r" "ok g" using dec_sound by fastforce
  from assms(2) obtain t where t: "enc f = q @ t" "t \<noteq> []"
    by (auto simp: strict_prefix_def prefix_def)
  with g have "enc f @ [] = enc g @ (r @ t)" by simp
  with enc_append_inject [OF assms(1) g(2)] t(2) show False by blast
qed

end

text \<open>ReadFrame as a decoder of bytes that are followed by the end of the stream.\<close>

definition decode_frame :: "bytes \<Rightarrow> (frame \<times> bytes) option" where
  "decode_frame bs =
     (case ReadFrame \<lparr>rx = bs, rend = io_EOF, tx = [], wfail = None\<rparr> of
        (Inl e, r) \<Rightarrow> None
      | (Inr f, r) \<Rightarrow> Some (f, rx r))"

interpretation wire: frame_codec encode_frame decode_frame frame_fits
proof unfold_locales
  fix f rest
  assume "frame_fits f"
  then show "decode_frame (encode_frame f @ rest) = Some (f, rest)"
    by (cases f) (simp add: decode_frame_def ReadFrame_encode)
next
  fix bs f rest
  assume "decode_frame bs = Some (f, rest)"
  then obtain r' where r: "ReadFrame \<lparr>rx = bs, rend = io_EOF, tx = [], wfail = None\<rparr> = (Inr f, r')"
      "rest = rx r'"
    by (auto simp: decode_frame_def split: prod.splits sum.splits)
  obtain ft p where f: "f = (ft, p)" by (cases f)
  from ReadFrame_Inr(1,2) [OF r(1) [unfolded f]] f r(2)
  show "bs = encode_frame f @ rest \<and> frame_fits f" by simp
qed simp

text \<open>A peer that reads frames until the first error, and the error it stops with.\<close>

function ReadFrames :: "gostream \<Rightarrow> frame list \<times> goerr" where
  "ReadFrames r =
     (case ReadFrame r of
        (Inl e, r') \<Rightarrow> ([], e)
      | (Inr f, r') \<Rightarrow> (let (fs, e) = ReadFrames r' in (f # fs, e)))"
  by pat_completeness auto
termination
proof (relation "measure (\<lambda>r. length (rx r))", goal_cases)
  case (2 r a b f)
  then have "ReadFrame r = (Inr (fst f, snd f), b)" by simp
  from ReadFrame_Inr(1) [OF this] show ?case by simp
qed simp

declare ReadFrames.simps [simp del]

lemma ReadFrame_eq_decode:
  "(\<exists>r'. ReadFrame r = (Inr f, r')) \<longleftrightarrow> (\<exists>rest. decode_frame (rx r) = Some (f, rest))"
proof -
  obtain ft p where f: "f = (ft, p)" by (cases f)
  show ?thesis
  proof
    assume "\<exists>r'. ReadFrame r = (Inr f, r')"
    then obtain r' where "ReadFrame r = (Inr (ft, p), r')" using f by blast
    from ReadFrame_Inr [OF this] show "\<exists>rest. decode_frame (rx r) = Some (f, rest)"
      using wire.dec_enc f by metis
  next
    assume "\<exists>rest. decode_frame (rx r) = Some (f, rest)"
    then obtain rest where "rx r = encode_frame (ft, p) @ rest" "frame_fits (ft, p)"
      using wire.dec_sound f by blast
    then show "\<exists>r'. ReadFrame r = (Inr f, r')" using ReadFrame_encode f by metis
  qed
qed

lemma ReadFrames_concat:
  assumes "list_all frame_fits fs" "rx r = concat (map encode_frame fs) @ q"
    and "q = [] \<or> (\<exists>f. frame_fits f \<and> strict_prefix q (encode_frame f))"
  shows "fst (ReadFrames r) = fs"
  using assms(1,2)
proof (induction fs arbitrary: r)
  case Nil
  then have "decode_frame (rx r) = None"
    using assms(3) wire.dec_strict_prefix wire.dec_sound
    by (metis Nil_is_append_conv append_Nil concat.simps(1) encode_frame_ne list.simps(8) not_None_eq prod.exhaust)
  then have "\<nexists>f r'. ReadFrame r = (Inr f, r')" by (metis ReadFrame_eq_decode option.distinct(1))
  then obtain e r' where "ReadFrame r = (Inl e, r')" by (metis prod.exhaust sum.exhaust)
  then show ?case by (subst ReadFrames.simps) simp
next
  case (Cons f fs)
  then have "ReadFrame r = (Inr f, r\<lparr>rx := concat (map encode_frame fs) @ q\<rparr>)"
    by (cases f) (simp add: ReadFrame_encode)
  moreover have "fst (ReadFrames (r\<lparr>rx := concat (map encode_frame fs) @ q\<rparr>)) = fs"
    using Cons by simp
  ultimately show ?case by (subst ReadFrames.simps) (simp add: case_prod_beta)
qed

section \<open>Sequences of writes\<close>

text \<open>A payload whose length the 32-bit header can describe.\<close>

definition payload_below_4GiB :: "'v msgpack \<Rightarrow> 'v payload \<Rightarrow> bool" where
  "payload_below_4GiB M p =
     (case Marshal M p of Inl e \<Rightarrow> True | Inr enc \<Rightarrow> length enc < 2 ^ 32 - 1)"

lemma written_fits:
  assumes "payload_below_4GiB M p" "Marshal M p = Inr enc" "\<not> frameLen enc > MaxFrameSize"
  shows "frame_fits (ft, enc)"
  using assms frameLen_fits [of enc ft] by (simp add: payload_below_4GiB_def)

text \<open>A sender that writes one payload after the other until a write fails, and how many succeed.\<close>

fun WriteFrames ::
    "'v msgpack \<Rightarrow> gostream \<Rightarrow> (FrameType \<times> 'v payload) list \<Rightarrow> nat \<times> gostream" where
  "WriteFrames M w [] = (0, w)"
| "WriteFrames M w ((ft, p) # ps) =
     (case WriteFrame M w ft p of
        (Some e, w') \<Rightarrow> (0, w')
      | (None, w') \<Rightarrow> (case WriteFrames M w' ps of (n, w'') \<Rightarrow> (Suc n, w'')))"

definition payload_frame :: "'v msgpack \<Rightarrow> FrameType \<times> 'v payload \<Rightarrow> frame" where
  "payload_frame M q = (fst q, case Marshal M (snd q) of Inl e \<Rightarrow> [] | Inr enc \<Rightarrow> enc)"

text \<open>What a failed write leaves behind is nothing or the beginning of a frame that fits.\<close>

lemma WriteFrame_err_fits:
  assumes "payload_below_4GiB M p" "WriteFrame M w ft p = (Some e, w')"
  obtains q where "tx w' = tx w @ q" "q = [] \<or> (\<exists>f. frame_fits f \<and> strict_prefix q (encode_frame f))"
proof (cases "tx w' = tx w")
  case True
  with that show ?thesis by simp
next
  case False
  with WriteFrame_err [OF assms(2)] obtain enc q where q: "Marshal M p = Inr enc"
      "strict_prefix q (encode_frame (ft, enc))" "tx w' = tx w @ q"
    by blast
  have "\<not> frameLen enc > MaxFrameSize"
    using assms(2) False q(1) by (auto simp: WriteFrame_too_large)
  with q written_fits [OF assms(1)] that show ?thesis by blast
qed

lemma WriteFrames_wire:
  assumes "list_all (\<lambda>q. payload_below_4GiB M (snd q)) ps" "WriteFrames M w ps = (n, w')"
  shows "n \<le> length ps \<and> list_all frame_fits (map (payload_frame M) (take n ps)) \<and>
    (\<exists>q. tx w' = tx w @ concat (map encode_frame (map (payload_frame M) (take n ps))) @ q \<and>
      (q = [] \<or> (\<exists>f. frame_fits f \<and> strict_prefix q (encode_frame f))))"
  using assms
proof (induction ps arbitrary: w n)
  case Nil
  then show ?case by simp
next
  case (Cons x ps)
  obtain ft p where x: "x = (ft, p)" by (cases x)
  with Cons.prems have below: "payload_below_4GiB M p" "list_all (\<lambda>q. payload_below_4GiB M (snd q)) ps"
    by simp_all
  obtain r w1 where wf: "WriteFrame M w ft p = (r, w1)" by (cases "WriteFrame M w ft p")
  show ?case
  proof (cases r)
    case (Some e)
    with wf Cons.prems x have "n = 0" "w' = w1" by simp_all
    moreover obtain q where "tx w1 = tx w @ q"
        "q = [] \<or> (\<exists>f. frame_fits f \<and> strict_prefix q (encode_frame f))"
      using WriteFrame_err_fits [OF below(1) wf [unfolded Some]] by blast
    ultimately show ?thesis by simp
  next
    case None
    obtain m where m: "WriteFrames M w1 ps = (m, w')" "n = Suc m"
      using Cons.prems x wf None by (auto split: prod.splits)
    obtain enc where enc: "Marshal M p = Inr enc" "\<not> frameLen enc > MaxFrameSize"
        "tx w1 = tx w @ encode_frame (ft, enc)"
      using wf None by (auto elim: WriteFrame_ok)
    then have f: "payload_frame M x = (ft, enc)" by (simp add: payload_frame_def x)
    let ?fs = "map (payload_frame M) (take m ps)"
    from Cons.IH [OF below(2) m(1)] obtain q where IH: "m \<le> length ps" "list_all frame_fits ?fs"
        "tx w' = tx w1 @ concat (map encode_frame ?fs) @ q"
        "q = [] \<or> (\<exists>f. frame_fits f \<and> strict_prefix q (encode_frame f))"
      by blast
    have "tx w' = tx w @ concat (map encode_frame (map (payload_frame M) (take n (x # ps)))) @ q"
      using IH(3) enc(3) f m(2) by simp
    moreover have "list_all frame_fits (map (payload_frame M) (take n (x # ps)))"
      using IH(2) f m(2) written_fits [OF below(1) enc(1,2)] by simp
    moreover have "n \<le> length (x # ps)" using IH(1) m(2) by simp
    ultimately show ?thesis using IH(4) by blast
  qed
qed

section \<open>Properties of the codec\<close>

text \<open>A codec for examples: it keeps one field of each struct.\<close>

definition str_bytes :: "string \<Rightarrow> bytes" where
  "str_bytes s = map (\<lambda>c. word_of_nat (of_char c)) s"

definition bytes_str :: "bytes \<Rightarrow> string" where
  "bytes_str bs = map (\<lambda>b. char_of (unat b)) bs"

definition sample_msgpack :: "string msgpack" where
  "sample_msgpack =
     \<lparr>Marshal = (\<lambda>p. Inr (case p of
          PRequest r \<Rightarrow> str_bytes (req_Path r)
        | PResponse r \<Rightarrow> resp_Body r
        | PStreamChunk k \<Rightarrow> chunk_Data k
        | PErrorFrame e \<Rightarrow> str_bytes (ef_Message e)
        | PPing t \<Rightarrow> [0]
        | PValue v \<Rightarrow> str_bytes v)),
      Unmarshal_Request = (\<lambda>bs. Inr \<lparr>req_ID = ''r1'', req_Method = ''GET'',
        req_Path = bytes_str bs, req_Headers = None, req_Body = [], req_Stream = False\<rparr>),
      Unmarshal_Response = (\<lambda>bs. Inr \<lparr>resp_ID = ''r1'', resp_Status = 200, resp_Headers = None,
        resp_Body = bs, resp_Stream = False\<rparr>),
      Unmarshal_StreamChunk = (\<lambda>bs. Inr \<lparr>chunk_ID = ''r1'', chunk_Seq = 0, chunk_Data = bs,
        chunk_Final = False\<rparr>),
      Unmarshal_ErrorFrame = (\<lambda>bs. Inr \<lparr>ef_ID = ''r1'', ef_Code = 500,
        ef_Message = bytes_str bs, ef_Data = []\<rparr>),
      Unmarshal_value = (\<lambda>bs v. Inr (bytes_str bs))\<rparr>"

lemmas sample_simps = payload_below_4GiB_def fresh_stream_def sample_msgpack_def str_bytes_def
  bytes_str_def WriteFrame_def frameLen_def MaxFrameSize_def io_Write_def PutUint32_def

text \<open>
  C2: Frames round-trip. For a payload that does not encode to 4 GiB or more (for those WriteFrame's size check
  wraps around, see \<open>WriteFrame_length_wraps\<close>): when WriteFrame reports success, on whatever stream, a reader
  that receives the bytes it wrote, followed by anything, gets back exactly the frame type and the marshalled
  payload from ReadFrame, and what followed is left unread.
\<close>

theorem frame_roundtrip:
  assumes "payload_below_4GiB M p" "WriteFrame M w ft p = (None, w')"
    and "rx r = drop (length (tx w)) (tx w') @ rest"
  shows "\<exists>enc. Marshal M p = Inr enc \<and> ReadFrame r = (Inr (ft, enc), r\<lparr>rx := rest\<rparr>)"
proof -
  obtain enc where enc: "Marshal M p = Inr enc" "\<not> frameLen enc > MaxFrameSize"
      "tx w' = tx w @ encode_frame (ft, enc)"
    using assms(2) by (auto elim: WriteFrame_ok)
  have "rx r = encode_frame (ft, enc) @ rest" using assms(3) enc(3) by simp
  with enc show ?thesis using ReadFrame_encode [OF written_fits [OF assms(1) enc(1,2)]] by blast
qed

theorem frame_roundtrip_witness:
  "\<exists>enc. Marshal sample_msgpack
(PValue ''ab'') = Inr enc \<and>
     ReadFrame (fresh_stream\<lparr>rx := [0, 0, 0, 3, 1, 97, 98, 9]\<rparr>) =
       (Inr (FrameTypeRequest, enc), (fresh_stream\<lparr>rx := [0, 0, 0, 3, 1, 97, 98, 9]\<rparr>)\<lparr>rx := [9]\<rparr>)"
  by (rule frame_roundtrip [where w = fresh_stream
        and w' = "fresh_stream\<lparr>tx := [0, 0, 0, 3, 1, 97, 98]\<rparr>"])
    (simp_all add: sample_simps FrameTypeRequest_def)

text \<open>
  C9: What ReadFrame accepts. It returns a frame exactly when the unread bytes start with the
  encoding of that frame and the frame is within MaxFrameSize; it then consumes exactly those bytes
  and changes nothing else of the stream.
\<close>

theorem ReadFrame_iff:
  "ReadFrame r = (Inr (ft, p), r') \<longleftrightarrow>
     rx r = encode_frame (ft, p) @ rx r' \<and> 1 + length p \<le> unat MaxFrameSize \<and> r' = r\<lparr>rx := rx r'\<rparr>"
proof
  assume "ReadFrame r = (Inr (ft, p), r')"
  from ReadFrame_Inr [OF this]
  show "rx r = encode_frame (ft, p) @ rx r' \<and> 1 + length p \<le> unat MaxFrameSize \<and> r' = r\<lparr>rx := rx r'\<rparr>"
    by (simp add: frame_fits_def unat_MaxFrameSize)
next
  assume a: "rx r = encode_frame (ft, p) @ rx r' \<and> 1 + length p \<le> unat MaxFrameSize \<and> r' = r\<lparr>rx := rx r'\<rparr>"
  then have "frame_fits (ft, p)" by (simp add: frame_fits_def unat_MaxFrameSize)
  with a ReadFrame_encode [of ft p r "rx r'"] show "ReadFrame r = (Inr (ft, p), r')" by simp
qed

text \<open>
  C8: A sequence of frames over a stream that may fail. A sender writes payloads, none of which encodes to 4 GiB
  or more (the bound below which WriteFrame's size check does not wrap around), one after the other
  and stops at the first write error; a receiver of the bytes, which may end inside a frame, reads
  exactly the frames whose WriteFrame succeeded, in order, and nothing of the one that failed.
\<close>

theorem frames_delivered:
  assumes "list_all (\<lambda>q. payload_below_4GiB M (snd q)) ps" "WriteFrames M w ps = (n, w')"
    and "rx r = drop (length (tx w)) (tx w')"
  shows "fst (ReadFrames r) = map (payload_frame M) (take n ps)"
proof -
  from WriteFrames_wire [OF assms(1,2)] obtain q where
      q: "tx w' = tx w @ concat (map encode_frame (map (payload_frame M) (take n ps))) @ q"
        "q = [] \<or> (\<exists>f. frame_fits f \<and> strict_prefix q (encode_frame f))"
      and fits: "list_all frame_fits (map (payload_frame M) (take n ps))"
    by blast
  from q(1) assms(3) have "rx r = concat (map encode_frame (map (payload_frame M) (take n ps))) @ q"
    by simp
  with fits q(2) show ?thesis by (intro ReadFrames_concat) auto
qed

text \<open>The stream of the example breaks after nine bytes, in the second frame.\<close>

theorem frames_delivered_witness:
  "fst (ReadFrames (fresh_stream\<lparr>rx := [0, 0, 0, 2, 1, 97, 0, 0, 0]\<rparr>)) =
     map (payload_frame sample_msgpack)
       (take 1 [(FrameTypeRequest, PValue ''a''), (FrameTypeRequest, PValue ''b'')])"
  by (rule frames_delivered [where w = "fresh_stream\<lparr>wfail := Some (9, io_EOF)\<rparr>"
        and w' = "fresh_stream\<lparr>tx := [0, 0, 0, 2, 1, 97, 0, 0, 0], wfail := Some (0, io_EOF)\<rparr>"])
    (simp_all add: sample_simps FrameTypeRequest_def)

lemma frameLen_4GiB:
  assumes "length enc = 2 ^ 32"
  shows "frameLen enc = frameLen []" "\<not> frameLen enc > MaxFrameSize"
proof -
  have "unat (frameLen enc) = 1" using assms by (simp add: unat_frameLen_mod)
  then show "frameLen enc = frameLen []"
    by (simp add: word_unat_eq_iff unat_frameLen)
  then show "\<not> frameLen enc > MaxFrameSize" by (simp add: frameLen_def MaxFrameSize_def)
qed

text \<open>
  C37: The length check of WriteFrame looks at the truncated length. A payload of exactly 4 GiB
  passes it (the 32-bit length is 1) and is written in full, and the receiver takes an empty frame
  from it and reads the payload's own bytes as the next frame header.
\<close>

theorem WriteFrame_length_wraps:
  assumes "Marshal M p = Inr enc" "length enc = 2 ^ 32" "healthy w" "rx r = drop (length (tx w)) (tx w')"
    and "WriteFrame M w ft p = (e, w')"
  shows "e = None \<and> ReadFrame r = (Inr (ft, []), r\<lparr>rx := enc\<rparr>)"
proof -
  have w: "e = None" "w' = w\<lparr>tx := tx w @ encode_frame (ft, enc)\<rparr>"
    using WriteFrame_healthy [OF assms(3,1) frameLen_4GiB(2) [OF assms(2)], of ft] assms(5) by simp_all
  with assms(4) have "rx r = encode_frame (ft, []) @ enc"
    by (simp add: encode_frame_def frameLen_4GiB(1) [OF assms(2)])
  with w(1) show ?thesis by (simp add: ReadFrame_encode frame_fits_def)
qed

theorem WriteFrame_length_wraps_witness:
  "(None :: goerr option) = None \<and>
    ReadFrame (fresh_stream\<lparr>rx := encode_frame (7, replicate (2 ^ 32) 0)\<rparr>) =
      (Inr (7, []), (fresh_stream\<lparr>rx := encode_frame (7, replicate (2 ^ 32) 0)\<rparr>)\<lparr>rx := replicate (2 ^ 32) 0\<rparr>)"
proof (rule WriteFrame_length_wraps)
  let ?M = "sample_msgpack\<lparr>Marshal := \<lambda>p. Inr (replicate (2 ^ 32) 0)\<rparr>"
  show m: "Marshal ?M (PValue ''v'') = Inr (replicate (2 ^ 32) 0)"
    by (simp only: msgpack.select_convs msgpack.update_convs msgpack.surjective sample_msgpack_def)
  show len: "length (replicate (2 ^ 32) (0 :: byte)) = 2 ^ 32" by (rule length_replicate)
  show h: "healthy fresh_stream" by (simp add: fresh_stream_def healthy_def)
  show "WriteFrame ?M fresh_stream 7 (PValue ''v'') =
      (None, fresh_stream\<lparr>tx := tx fresh_stream @ encode_frame (7, replicate (2 ^ 32) 0)\<rparr>)"
    by (rule WriteFrame_healthy [OF h m frameLen_4GiB(2) [OF len]])
  show "rx (fresh_stream\<lparr>rx := encode_frame (7, replicate (2 ^ 32) 0)\<rparr>) =
      drop (length (tx fresh_stream)) (tx (fresh_stream\<lparr>tx := tx fresh_stream @ encode_frame (7, replicate (2 ^ 32) 0)\<rparr>))"
    by (simp only: gostream.select_convs gostream.update_convs fresh_stream_def list.size drop_0 append_Nil)
qed

end
