(* ===== verification/Context.thy ===== *)
theory Context
  imports Frames
begin

text \<open>
  framework/context.go: the per-request Context and the StreamWriter. A Context method that
  changes the Context returns the new one; \<open>goerr option\<close> is Go's \<^verbatim>\<open>error\<close> result. The field
  \<open>ctx_stream\<close> is the stream the Context, the StreamWriter and the dispatcher share, and
  \<open>ctx_writer\<close> is the StreamWriter object that a successful NewStream allocates: it lives as
  long as the request, whoever holds a reference to it.
\<close>

section \<open>Data\<close>

record cert =
  cert_CommonName :: string

datatype transport = Native | WebTransport

text \<open>
  What \<^verbatim>\<open>remoteAddrProvider\<close> gives: the two wrappers of app.go differ only in PeerCertificates.
  \<open>peer_addr\<close> is \<^verbatim>\<open>RemoteAddr().String()\<close>, \<open>None\<close> for a nil address.
\<close>

record peer =
  peer_transport :: transport
  peer_addr :: "string option"
  peer_tlsCerts :: "cert list"

definition PeerCertificates :: "peer \<Rightarrow> cert list" where
  "PeerCertificates p = (case peer_transport p of Native \<Rightarrow> peer_tlsCerts p | WebTransport \<Rightarrow> [])"

datatype gocontext = Background | ConnContext nat

text \<open>Values in the locals map: what the middleware package stores, or an application value.\<close>

datatype claims = MapClaims "string \<rightharpoonup> string" | CustomClaims nat

record jwt_token =
  tok_Alg :: string
  tok_HeaderAlg :: string
  tok_Claims :: claims
  tok_Valid :: bool

datatype 'v localval = LString string | LToken jwt_token | LValue 'v

record StreamWriter =
  sw_requestID :: string
  sw_seq :: "64 word"
  sw_closed :: bool

record 'v Context =
  ctx_Request :: Request
  ctx_conn :: peer
  ctx_stream :: gostream
  ctx_params :: gomap
  ctx_queryParams :: values_map
  ctx_locals :: "string \<rightharpoonup> 'v localval"
  ctx_sent :: bool
  ctx_resHeaders :: gomap
  ctx_ctx :: "gocontext option"
  ctx_writer :: "StreamWriter option"

definition newContext ::
    "gocontext option \<Rightarrow> Request \<Rightarrow> peer \<Rightarrow> gostream \<Rightarrow> 'v Context" where
  "newContext ctx req conn stream =
     \<lparr>ctx_Request = req, ctx_conn = conn, ctx_stream = stream, ctx_params = None,
      ctx_queryParams = Map.empty, ctx_locals = Map.empty, ctx_sent = False,
      ctx_resHeaders = None, ctx_ctx = ctx, ctx_writer = None\<rparr>"

section \<open>Request accessors\<close>

definition Ctx_Param :: "'v Context \<Rightarrow> string \<Rightarrow> string" where
  "Ctx_Param c key = gomap_get (ctx_params c) key"

definition Ctx_Query :: "'v Context \<Rightarrow> string \<Rightarrow> string" where
  "Ctx_Query c key = Values_Get (ctx_queryParams c) key"

definition Ctx_QueryParams :: "'v Context \<Rightarrow> values_map" where
  "Ctx_QueryParams c = ctx_queryParams c"

definition Ctx_GetHeader :: "'v Context \<Rightarrow> string \<Rightarrow> string" where
  "Ctx_GetHeader c key =
     (if req_Headers (ctx_Request c) = None then [] else gomap_get (req_Headers (ctx_Request c)) key)"

definition Ctx_Header :: "'v Context \<Rightarrow> string \<Rightarrow> string \<Rightarrow> 'v Context" where
  "Ctx_Header c key value =
     (let m = (case ctx_resHeaders c of None \<Rightarrow> Map.empty | Some m \<Rightarrow> m)
      in c\<lparr>ctx_resHeaders := Some (m(key \<mapsto> value))\<rparr>)"

definition Ctx_Cookie :: "golib \<Rightarrow> 'v Context \<Rightarrow> string \<Rightarrow> goerr + string" where
  "Ctx_Cookie L c name =
     (let header = Ctx_GetHeader c ''Cookie''
      in if header = [] then Inl (Err ''http: named cookie not present'')
         else (case cookieValue L header name of
                 None \<Rightarrow> Inl (Err ''http: named cookie not present'')
               | Some v \<Rightarrow> Inr v))"

text \<open>The argument is the result of \<^verbatim>\<open>cookie.String()\<close>, which is empty for an invalid cookie.\<close>

definition Ctx_SetCookie :: "'v Context \<Rightarrow> string \<Rightarrow> 'v Context" where
  "Ctx_SetCookie c v = (if v \<noteq> [] then Ctx_Header c ''Set-Cookie'' v else c)"

definition Ctx_Method :: "'v Context \<Rightarrow> string" where
  "Ctx_Method c = req_Method (ctx_Request c)"

definition Ctx_Path :: "'v Context \<Rightarrow> string" where
  "Ctx_Path c = req_Path (ctx_Request c)"

definition Ctx_RequestID :: "'v Context \<Rightarrow> string" where
  "Ctx_RequestID c = req_ID (ctx_Request c)"

definition Ctx_Body :: "'v Context \<Rightarrow> bytes" where
  "Ctx_Body c = req_Body (ctx_Request c)"

definition Ctx_Bind :: "'v msgpack \<Rightarrow> 'v Context \<Rightarrow> 'v \<Rightarrow> goerr + 'v" where
  "Ctx_Bind M c v =
     (if length (req_Body (ctx_Request c)) = 0 then Inr v
      else wrap_err ''quicframe: bind: '' (Unmarshal_value M (req_Body (ctx_Request c)) v))"

definition Ctx_RemoteAddr :: "'v Context \<Rightarrow> string option" where
  "Ctx_RemoteAddr c = peer_addr (ctx_conn c)"

definition Ctx_PeerCertificates :: "'v Context \<Rightarrow> cert list" where
  "Ctx_PeerCertificates c = PeerCertificates (ctx_conn c)"

definition Ctx_Context :: "'v Context \<Rightarrow> gocontext" where
  "Ctx_Context c = (case ctx_ctx c of None \<Rightarrow> Background | Some x \<Rightarrow> x)"

section \<open>Locals\<close>

definition Ctx_Set :: "'v Context \<Rightarrow> string \<Rightarrow> 'v localval \<Rightarrow> 'v Context" where
  "Ctx_Set c key v = c\<lparr>ctx_locals := (ctx_locals c)(key \<mapsto> v)\<rparr>"

definition Ctx_Get :: "'v Context \<Rightarrow> string \<Rightarrow> 'v localval option" where
  "Ctx_Get c key = ctx_locals c key"

definition Ctx_MustGet :: "golib \<Rightarrow> 'v Context \<Rightarrow> string \<Rightarrow> 'v localval outcome" where
  "Ctx_MustGet L c key =
     (case ctx_locals c key of
        None \<Rightarrow> Panic (''quicframe: MustGet: key '' @ Quote L key @ '' not found in locals'')
      | Some v \<Rightarrow> Ret v)"

section \<open>Response helpers\<close>

text \<open>WriteFrame on the Context's stream.\<close>

definition ctx_write ::
    "'v msgpack \<Rightarrow> 'v Context \<Rightarrow> FrameType \<Rightarrow> 'v payload \<Rightarrow> goerr option \<times> 'v Context" where
  "ctx_write M c ft p =
     (case WriteFrame M (ctx_stream c) ft p of (r, s) \<Rightarrow> (r, c\<lparr>ctx_stream := s\<rparr>))"

definition merge_headers :: "gomap \<Rightarrow> gomap \<Rightarrow> (string \<rightharpoonup> string)" where
  "merge_headers pending explicit = gomap_copy explicit (gomap_copy pending Map.empty)"

definition writeResponse ::
    "'v msgpack \<Rightarrow> 'v Context \<Rightarrow> int \<Rightarrow> gomap \<Rightarrow> bytes \<Rightarrow> bool \<Rightarrow> goerr option \<times> 'v Context" where
  "writeResponse M c status headers body stream =
     (if ctx_sent c then (Some (Err ''quicframe: response already sent''), c)
      else
        ctx_write M (c\<lparr>ctx_sent := True\<rparr>) FrameTypeResponse
          (PResponse \<lparr>resp_ID = req_ID (ctx_Request c), resp_Status = status,
             resp_Headers = Some (merge_headers (ctx_resHeaders c) headers),
             resp_Body = body, resp_Stream = stream\<rparr>))"

definition Ctx_Send :: "'v msgpack \<Rightarrow> 'v Context \<Rightarrow> int \<Rightarrow> bytes \<Rightarrow> goerr option \<times> 'v Context" where
  "Ctx_Send M c status body = writeResponse M c status None body False"

definition Ctx_MsgPack :: "'v msgpack \<Rightarrow> 'v Context \<Rightarrow> int \<Rightarrow> 'v \<Rightarrow> goerr option \<times> 'v Context" where
  "Ctx_MsgPack M c status v =
     (case Marshal M (PValue v) of
        Inl err \<Rightarrow> (Some (Wrap ''quicframe: MsgPack: '' err), c)
      | Inr data \<Rightarrow>
          writeResponse M c status (Some [''content-type'' \<mapsto> ''application/x-msgpack'']) data False)"

definition Ctx_NoContent :: "'v msgpack \<Rightarrow> 'v Context \<Rightarrow> goerr option \<times> 'v Context" where
  "Ctx_NoContent M c = writeResponse M c StatusNoContent None [] False"

text \<open>\<open>data\<close> is the variadic argument; an element \<open>None\<close> is a nil interface value.\<close>

definition Ctx_Error ::
    "'v msgpack \<Rightarrow> 'v Context \<Rightarrow> int \<Rightarrow> string \<Rightarrow> 'v option list \<Rightarrow> goerr option \<times> 'v Context" where
  "Ctx_Error M c code message data =
     (if ctx_sent c then (None, c)
      else
        (let c1 = c\<lparr>ctx_sent := True\<rparr>;
             send = (\<lambda>payload.
               (case WriteError M (ctx_stream c1) (req_ID (ctx_Request c1)) code message payload of
                  (r, s) \<Rightarrow> (r, c1\<lparr>ctx_stream := s\<rparr>)))
         in (case data of
               Some v # _ \<Rightarrow>
                 (case Marshal M (PValue v) of
                    Inl err \<Rightarrow> (Some (Wrap ''quicframe: Error: marshal data: '' err), c1)
                  | Inr payload \<Rightarrow> send payload)
             | _ \<Rightarrow> send [])))"

definition Ctx_NewStream ::
    "'v msgpack \<Rightarrow> 'v Context \<Rightarrow> int \<Rightarrow> gomap \<Rightarrow> goerr option \<times> 'v Context" where
  "Ctx_NewStream M c status headers =
     (if ctx_sent c then (Some (Err ''quicframe: response already sent''), c)
      else
        (case ctx_write M (c\<lparr>ctx_sent := True\<rparr>) FrameTypeResponse
                (PResponse \<lparr>resp_ID = req_ID (ctx_Request c), resp_Status = status,
                   resp_Headers = headers, resp_Body = [], resp_Stream = True\<rparr>) of
           (Some err, c1) \<Rightarrow> (Some err, c1)
         | (None, c1) \<Rightarrow>
             (None, c1\<lparr>ctx_writer := Some \<lparr>sw_requestID = req_ID (ctx_Request c), sw_seq = 0,
                                          sw_closed = False\<rparr>\<rparr>)))"

definition setParams :: "'v Context \<Rightarrow> gomap \<Rightarrow> 'v Context" where
  "setParams c params = c\<lparr>ctx_params := params\<rparr>"

definition setQueryParams :: "'v Context \<Rightarrow> values_map \<Rightarrow> 'v Context" where
  "setQueryParams c params = c\<lparr>ctx_queryParams := params\<rparr>"

section \<open>StreamWriter\<close>

text \<open>
  The mutex makes each call atomic, so calls from several goroutines are some sequence of these
  steps. The results are Go's: the byte count and the error.
\<close>

definition StreamWriter_Write ::
    "'v msgpack \<Rightarrow> StreamWriter \<Rightarrow> gostream \<Rightarrow> bytes \<Rightarrow>
       (nat \<times> goerr option) \<times> StreamWriter \<times> gostream" where
  "StreamWriter_Write M sw stream data =
     (if sw_closed sw then ((0, Some (Err ''quicframe: StreamWriter already closed'')), sw, stream)
      else
        (let chunk = \<lparr>chunk_ID = sw_requestID sw, chunk_Seq = sw_seq sw, chunk_Data = data,
                      chunk_Final = False\<rparr>;
             sw' = sw\<lparr>sw_seq := sw_seq sw + 1\<rparr>
         in (case WriteFrame M stream FrameTypeStreamData (PStreamChunk chunk) of
               (Some err, s) \<Rightarrow> ((0, Some err), sw', s)
             | (None, s) \<Rightarrow> ((length data, None), sw', s))))"

definition StreamWriter_Close ::
    "'v msgpack \<Rightarrow> StreamWriter \<Rightarrow> gostream \<Rightarrow> goerr option \<times> StreamWriter \<times> gostream" where
  "StreamWriter_Close M sw stream =
     (if sw_closed sw then (None, sw, stream)
      else
        (let sw' = sw\<lparr>sw_closed := True\<rparr>;
             chunk = \<lparr>chunk_ID = sw_requestID sw, chunk_Seq = sw_seq sw, chunk_Data = [],
                      chunk_Final = True\<rparr>
         in (case WriteFrame M stream FrameTypeStreamEnd (PStreamChunk chunk) of
               (r, s) \<Rightarrow> (r, sw', s))))"

end
