(* ===== verification/Reply.thy ===== *)
theory Reply
  imports Context
begin

text \<open>
  What a handler can do to a request's Context, as a state machine, and what its peer then sees.
  \<open>api_op\<close> names the exported calls that change a Context or its StreamWriter, \<open>api_exec\<close> runs
  one of them, \<open>api_reach\<close> is any finite sequence of them: the calls of all middleware,
  handlers and goroutines of the request, in the order in which they take effect. The
  specification is \<open>reply_shape\<close>: no reply, one response, one error, or a stream.
\<close>

section \<open>The calls\<close>

datatype 'v api_op =
    OpHeader string string
  | OpSetCookie string
  | OpSet string "'v localval"
  | OpSend int bytes
  | OpMsgPack int 'v
  | OpNoContent
  | OpError int string "'v option list"
  | OpNewStream int gomap
  | OpWrite bytes
  | OpClose

text \<open>StreamWriter calls on the writer of the request; without one there is nothing to call.\<close>

definition ctx_sw_Write :: "'v msgpack \<Rightarrow> 'v Context \<Rightarrow> bytes \<Rightarrow> (nat \<times> goerr option) \<times> 'v Context" where
  "ctx_sw_Write M c data =
     (case ctx_writer c of
        None \<Rightarrow> ((0, None), c)
      | Some sw \<Rightarrow>
          (case StreamWriter_Write M sw (ctx_stream c) data of
             (r, sw', s) \<Rightarrow> (r, c\<lparr>ctx_writer := Some sw', ctx_stream := s\<rparr>)))"

definition ctx_sw_Close :: "'v msgpack \<Rightarrow> 'v Context \<Rightarrow> goerr option \<times> 'v Context" where
  "ctx_sw_Close M c =
     (case ctx_writer c of
        None \<Rightarrow> (None, c)
      | Some sw \<Rightarrow>
          (case StreamWriter_Close M sw (ctx_stream c) of
             (r, sw', s) \<Rightarrow> (r, c\<lparr>ctx_writer := Some sw', ctx_stream := s\<rparr>)))"

fun api_exec :: "'v msgpack \<Rightarrow> 'v Context \<Rightarrow> 'v api_op \<Rightarrow> goerr option \<times> 'v Context" where
  "api_exec M c (OpHeader k v) = (None, Ctx_Header c k v)"
| "api_exec M c (OpSetCookie v) = (None, Ctx_SetCookie c v)"
| "api_exec M c (OpSet k v) = (None, Ctx_Set c k v)"
| "api_exec M c (OpSend status body) = Ctx_Send M c status body"
| "api_exec M c (OpMsgPack status v) = Ctx_MsgPack M c status v"
| "api_exec M c OpNoContent = Ctx_NoContent M c"
| "api_exec M c (OpError code msg data) = Ctx_Error M c code msg data"
| "api_exec M c (OpNewStream status headers) = Ctx_NewStream M c status headers"
| "api_exec M c (OpWrite data) = (case ctx_sw_Write M c data of ((n, r), c') \<Rightarrow> (r, c'))"
| "api_exec M c OpClose = ctx_sw_Close M c"

inductive api_reach :: "'v msgpack \<Rightarrow> 'v Context \<Rightarrow> 'v Context \<Rightarrow> bool" for M where
  start: "api_reach M c c"
| call: "api_reach M c c' \<Longrightarrow> api_exec M c' op = (r, c'') \<Longrightarrow> api_reach M c c''"

lemma api_reach_trans:
  assumes "api_reach M b c" "api_reach M a b"
  shows "api_reach M a c"
  using assms by (induction rule: api_reach.induct) (auto intro: api_reach.call)

lemma api_reach_call: "api_exec M c op = (r, c') \<Longrightarrow> api_reach M c c'"
  by (rule api_reach.call [OF api_reach.start])

fun api_run :: "'v msgpack \<Rightarrow> 'v Context \<Rightarrow> 'v api_op list \<Rightarrow> 'v Context" where
  "api_run M c [] = c"
| "api_run M c (op # ops) = api_run M (snd (api_exec M c op)) ops"

lemma api_run_reach: "api_reach M c (api_run M c ops)"
proof (induction ops arbitrary: c)
  case Nil
  show ?case by (simp add: api_reach.start)
next
  case (Cons op ops)
  have "api_reach M c (snd (api_exec M c op))"
    by (rule api_reach_call [where r = "fst (api_exec M c op)" and op = op]) simp
  with Cons show ?case by (auto intro: api_reach_trans)
qed

section \<open>What no call changes\<close>

definition ctx_kept :: "'v Context \<Rightarrow> 'v Context \<Rightarrow> bool" where
  "ctx_kept c c' \<longleftrightarrow>
     ctx_Request c' = ctx_Request c \<and> ctx_conn c' = ctx_conn c \<and> ctx_params c' = ctx_params c \<and>
     ctx_queryParams c' = ctx_queryParams c \<and> ctx_ctx c' = ctx_ctx c \<and>
     rx (ctx_stream c') = rx (ctx_stream c) \<and> rend (ctx_stream c') = rend (ctx_stream c) \<and>
     healthy (ctx_stream c') = healthy (ctx_stream c) \<and> (ctx_sent c \<longrightarrow> ctx_sent c') \<and>
     prefix (tx (ctx_stream c)) (tx (ctx_stream c'))"

lemma ctx_kept_refl [simp]: "ctx_kept c c"
  by (simp add: ctx_kept_def)

lemma ctx_kept_trans: "ctx_kept a b \<Longrightarrow> ctx_kept b c \<Longrightarrow> ctx_kept a c"
  by (auto simp: ctx_kept_def dest: prefix_order.trans)

lemma WriteFrame_prefix: "WriteFrame M w ft p = (r, w') \<Longrightarrow> prefix (tx w) (tx w')"
  by (cases r) (auto elim: WriteFrame_ok dest: WriteFrame_err)

lemma WriteFrame_kept:
  assumes "WriteFrame M (ctx_stream c) ft p = (r, s)"
  shows "ctx_kept c (c\<lparr>ctx_stream := s\<rparr>)" "ctx_kept c (c\<lparr>ctx_sent := True, ctx_stream := s\<rparr>)"
    "ctx_kept c (c\<lparr>ctx_sent := True, ctx_stream := s, ctx_writer := w\<rparr>)"
    "ctx_kept c (c\<lparr>ctx_stream := s, ctx_writer := w\<rparr>)"
  using assms by (auto simp: ctx_kept_def dest: WriteFrame_frame WriteFrame_prefix)

lemma writeResponse_kept: "writeResponse M c st h b str = (r, c') \<Longrightarrow> ctx_kept c c'"
  by (auto simp: writeResponse_def ctx_write_def intro: WriteFrame_kept
      split: if_splits prod.splits)

lemma Ctx_Error_kept: "Ctx_Error M c code msg data = (r, c') \<Longrightarrow> ctx_kept c c'"
  by (auto simp: Ctx_Error_def WriteError_def Let_def ctx_kept_def dest: WriteFrame_frame WriteFrame_prefix
      split: if_splits prod.splits list.splits option.splits sum.splits)

lemma Ctx_NewStream_kept: "Ctx_NewStream M c st h = (r, c') \<Longrightarrow> ctx_kept c c'"
  by (auto simp: Ctx_NewStream_def ctx_write_def intro: WriteFrame_kept
      split: if_splits prod.splits option.splits)

lemma ctx_sw_Write_kept: "ctx_sw_Write M c d = (r, c') \<Longrightarrow> ctx_kept c c'"
  by (auto simp: ctx_sw_Write_def StreamWriter_Write_def Let_def ctx_kept_def
      dest: WriteFrame_frame WriteFrame_prefix split: if_splits prod.splits option.splits)

lemma ctx_sw_Close_kept: "ctx_sw_Close M c = (r, c') \<Longrightarrow> ctx_kept c c'"
  by (auto simp: ctx_sw_Close_def StreamWriter_Close_def Let_def ctx_kept_def
      dest: WriteFrame_frame WriteFrame_prefix split: if_splits prod.splits option.splits)

lemma api_exec_kept: "api_exec M c op = (r, c') \<Longrightarrow> ctx_kept c c'"
proof (cases op)
  case (OpMsgPack st v)
  moreover assume "api_exec M c op = (r, c')"
  ultimately show ?thesis
    by (auto simp: Ctx_MsgPack_def intro: writeResponse_kept split: sum.splits)
qed (auto simp: Ctx_Header_def Ctx_SetCookie_def Ctx_Set_def Ctx_Send_def Ctx_NoContent_def
      intro: writeResponse_kept Ctx_Error_kept Ctx_NewStream_kept ctx_sw_Write_kept ctx_sw_Close_kept
      split: prod.splits if_splits, auto simp: ctx_kept_def)

lemma api_reach_kept: "api_reach M c c' \<Longrightarrow> ctx_kept c c'"
  by (induction rule: api_reach.induct) (auto intro: ctx_kept_trans api_exec_kept)

section \<open>Messages and replies\<close>

datatype msg = MResp Response | MErr ErrorFrame | MData StreamChunk | MEnd StreamChunk

fun msg_payload :: "msg \<Rightarrow> 'v payload" where
  "msg_payload (MResp r) = PResponse r"
| "msg_payload (MErr e) = PErrorFrame e"
| "msg_payload (MData k) = PStreamChunk k"
| "msg_payload (MEnd k) = PStreamChunk k"

fun msg_type :: "msg \<Rightarrow> FrameType" where
  "msg_type (MResp r) = FrameTypeResponse"
| "msg_type (MErr e) = FrameTypeError"
| "msg_type (MData k) = FrameTypeStreamData"
| "msg_type (MEnd k) = FrameTypeStreamEnd"

text \<open>A message that WriteFrame accepts, and the frame it writes for it.\<close>

definition sendable :: "'v msgpack \<Rightarrow> msg \<Rightarrow> bool" where
  "sendable M m =
     (case Marshal M (msg_payload m) of Inl e \<Rightarrow> False | Inr enc \<Rightarrow> \<not> frameLen enc > MaxFrameSize)"

definition msg_frame :: "'v msgpack \<Rightarrow> msg \<Rightarrow> frame" where
  "msg_frame M m =
     (msg_type m, case Marshal M (msg_payload m) of Inl e \<Rightarrow> [] | Inr enc \<Rightarrow> enc)"

definition wire_bytes :: "'v msgpack \<Rightarrow> msg list \<Rightarrow> bytes" where
  "wire_bytes M ms = concat (map (encode_frame \<circ> msg_frame M) ms)"

lemma wire_bytes_simps [simp]:
  "wire_bytes M [] = []"
  "wire_bytes M (m # ms) = encode_frame (msg_frame M m) @ wire_bytes M ms"
  "wire_bytes M (ms @ ns) = wire_bytes M ms @ wire_bytes M ns"
  by (simp_all add: wire_bytes_def)

lemma WriteFrame_msg:
  assumes "healthy w"
  shows "WriteFrame M w (msg_type m) (msg_payload m) =
    (if sendable M m then (None, w\<lparr>tx := tx w @ encode_frame (msg_frame M m)\<rparr>)
     else (fst (WriteFrame M w (msg_type m) (msg_payload m)), w))"
proof (cases "Marshal M (msg_payload m)")
  case (Inl e)
  then show ?thesis by (simp add: sendable_def WriteFrame_marshal_err)
next
  case (Inr enc)
  then show ?thesis
    using assms
    by (auto simp: sendable_def msg_frame_def WriteFrame_too_large intro: WriteFrame_healthy)
qed

lemma WriteFrame_not_sendable:
  assumes "healthy w" "\<not> sendable M m"
  shows "fst (WriteFrame M w (msg_type m) (msg_payload m)) \<noteq> None"
  using assms
  by (auto simp: sendable_def WriteFrame_marshal_err WriteFrame_too_large split: sum.splits)

definition data_msg :: "string \<Rightarrow> nat \<Rightarrow> bytes \<Rightarrow> msg" where
  "data_msg i n d =
     MData \<lparr>chunk_ID = i, chunk_Seq = word_of_nat n, chunk_Data = d, chunk_Final = False\<rparr>"

definition end_msg :: "string \<Rightarrow> nat \<Rightarrow> msg" where
  "end_msg i n =
     MEnd \<lparr>chunk_ID = i, chunk_Seq = word_of_nat n, chunk_Data = [], chunk_Final = True\<rparr>"

text \<open>
  The abstract reply to a request. A stream lists its chunks with the number of the Write call
  that sent each, and the number of Write calls before the Close, once the end was sent.
\<close>

datatype reply =
    NoReply
  | OneResponse Response
  | OneError ErrorFrame
  | Streamed Response "(nat \<times> bytes) list" "nat option"

fun reply_msgs :: "string \<Rightarrow> reply \<Rightarrow> msg list" where
  "reply_msgs i NoReply = []"
| "reply_msgs i (OneResponse r) = [MResp r]"
| "reply_msgs i (OneError e) = [MErr e]"
| "reply_msgs i (Streamed r ks n) =
     MResp r # map (\<lambda>(k, d). data_msg i k d) ks @ (case n of None \<Rightarrow> [] | Some n \<Rightarrow> [end_msg i n])"

fun reply_shape :: "string \<Rightarrow> reply \<Rightarrow> bool" where
  "reply_shape i NoReply = True"
| "reply_shape i (OneResponse r) = (resp_ID r = i \<and> \<not> resp_Stream r)"
| "reply_shape i (OneError e) = (ef_ID e = i)"
| "reply_shape i (Streamed r ks n) =
     (resp_ID r = i \<and> resp_Stream r \<and> sorted_wrt (<) (map fst ks) \<and>
      (case n of None \<Rightarrow> True | Some n \<Rightarrow> list_all (\<lambda>k. k < n) (map fst ks)))"

section \<open>The reply invariant\<close>

text \<open>How the Context's own state corresponds to the reply: the simulation relation.\<close>

fun reply_state :: "'v Context \<Rightarrow> reply \<Rightarrow> bool" where
  "reply_state c NoReply = (ctx_writer c = None)"
| "reply_state c (OneResponse r) = (ctx_sent c \<and> ctx_writer c = None)"
| "reply_state c (OneError e) = (ctx_sent c \<and> ctx_writer c = None)"
| "reply_state c (Streamed r ks e) =
     (ctx_sent c \<and>
      (\<exists>sw n. ctx_writer c = Some sw \<and> sw_requestID sw = req_ID (ctx_Request c) \<and>
         sw_seq sw = word_of_nat n \<and> list_all (\<lambda>k. k < n) (map fst ks) \<and>
         (case e of None \<Rightarrow> True | Some m \<Rightarrow> sw_closed sw \<and> m = n)))"

definition reply_inv :: "'v msgpack \<Rightarrow> bytes \<Rightarrow> 'v Context \<Rightarrow> reply \<Rightarrow> bool" where
  "reply_inv M t0 c rep \<longleftrightarrow>
     healthy (ctx_stream c) \<and>
     tx (ctx_stream c) = t0 @ wire_bytes M (reply_msgs (req_ID (ctx_Request c)) rep) \<and>
     list_all (sendable M) (reply_msgs (req_ID (ctx_Request c)) rep) \<and>
     reply_shape (req_ID (ctx_Request c)) rep \<and> reply_state c rep"

lemma reply_inv_start:
  "healthy (ctx_stream c) \<Longrightarrow> ctx_writer c = None \<Longrightarrow> reply_inv M (tx (ctx_stream c)) c NoReply"
  by (simp add: reply_inv_def)

lemma reply_inv_unsent: "reply_inv M t0 c rep \<Longrightarrow> \<not> ctx_sent c \<Longrightarrow> rep = NoReply"
  by (cases rep) (auto simp: reply_inv_def)

text \<open>Calls that leave stream, writer and the sent flag alone.\<close>

lemma reply_inv_cong:
  assumes "reply_inv M t0 c rep" "ctx_Request c' = ctx_Request c" "ctx_stream c' = ctx_stream c"
    "ctx_writer c' = ctx_writer c" "ctx_sent c \<longrightarrow> ctx_sent c'"
  shows "reply_inv M t0 c' rep"
  using assms by (cases rep) (auto simp: reply_inv_def)

lemma reply_inv_sent: "reply_inv M t0 c rep \<Longrightarrow> reply_inv M t0 (c\<lparr>ctx_sent := True\<rparr>) rep"
  by (rule reply_inv_cong) auto

text \<open>The first frame of a reply.\<close>

lemma reply_inv_first:
  assumes inv: "reply_inv M t0 c NoReply" and "WriteFrame M (ctx_stream c) (msg_type m) (msg_payload m) = (r, s)"
  shows "if sendable M m
         then r = None \<and> healthy s \<and> tx s = t0 @ wire_bytes M [m]
         else r \<noteq> None \<and> s = ctx_stream c"
proof -
  from inv have h: "healthy (ctx_stream c)" "tx (ctx_stream c) = t0"
    by (simp_all add: reply_inv_def)
  show ?thesis
  proof (cases "sendable M m")
    case True
    then have "WriteFrame M (ctx_stream c) (msg_type m) (msg_payload m) =
        (None, (ctx_stream c)\<lparr>tx := t0 @ encode_frame (msg_frame M m)\<rparr>)"
      by (subst WriteFrame_msg [OF h(1)]) (simp add: h)
    with assms(2) h(1) True show ?thesis by auto
  next
    case False
    then have "s = ctx_stream c" using assms(2) WriteFrame_msg [OF h(1), of M m] by simp
    with False WriteFrame_not_sendable [OF h(1) False] assms(2) show ?thesis by simp
  qed
qed

lemma reply_inv_writeResponse:
  assumes inv: "reply_inv M t0 c rep" and w: "writeResponse M c st h b False = (r, c')"
  shows "\<exists>rep'. reply_inv M t0 c' rep'"
proof (cases "ctx_sent c")
  case True
  with w inv show ?thesis by (auto simp: writeResponse_def)
next
  case False
  define resp where "resp = \<lparr>resp_ID = req_ID (ctx_Request c), resp_Status = st,
    resp_Headers = Some (merge_headers (ctx_resHeaders c) h), resp_Body = b, resp_Stream = False\<rparr>"
  from inv False have inv0: "reply_inv M t0 c NoReply" using reply_inv_unsent by blast
  obtain s where s: "WriteFrame M (ctx_stream c) FrameTypeResponse (PResponse resp) = (r, s)"
      "c' = c\<lparr>ctx_sent := True, ctx_stream := s\<rparr>"
    using w False by (auto simp: writeResponse_def ctx_write_def resp_def split: prod.splits)
  note first = reply_inv_first [OF inv0, of "MResp resp", simplified, OF s(1)]
  show ?thesis
  proof (cases "sendable M (MResp resp)")
    case True
    with first s inv0 have "reply_inv M t0 c' (OneResponse resp)"
      by (auto simp: reply_inv_def resp_def)
    then show ?thesis ..
  next
    case False
    with first s inv0 have "reply_inv M t0 c' NoReply" by (auto simp: reply_inv_def)
    then show ?thesis ..
  qed
qed

lemma reply_inv_Error:
  assumes inv: "reply_inv M t0 c rep" and e: "Ctx_Error M c code msg data = (r, c')"
  shows "\<exists>rep'. reply_inv M t0 c' rep'"
proof (cases "ctx_sent c")
  case True
  with e inv show ?thesis by (auto simp: Ctx_Error_def)
next
  case False
  from inv False have inv0: "reply_inv M t0 c NoReply" using reply_inv_unsent by blast
  from e False consider "c' = c\<lparr>ctx_sent := True\<rparr>"
    | s ef where "WriteFrame M (ctx_stream c) FrameTypeError (PErrorFrame ef) = (r, s)"
      "ef_ID ef = req_ID (ctx_Request c)" "c' = c\<lparr>ctx_sent := True, ctx_stream := s\<rparr>"
    by (force simp: Ctx_Error_def WriteError_def Let_def
        split: list.splits option.splits sum.splits prod.splits)
  then show ?thesis
  proof cases
    case 1
    with reply_inv_sent [OF inv0] show ?thesis by auto
  next
    case (2 s ef)
    note first = reply_inv_first [OF inv0, of "MErr ef", simplified, OF 2(1)]
    show ?thesis
    proof (cases "sendable M (MErr ef)")
      case True
      with first 2 inv0 have "reply_inv M t0 c' (OneError ef)" by (auto simp: reply_inv_def)
      then show ?thesis ..
    next
      case False
      with first 2 inv0 have "reply_inv M t0 c' NoReply" by (auto simp: reply_inv_def)
      then show ?thesis ..
    qed
  qed
qed

lemma reply_inv_NewStream:
  assumes inv: "reply_inv M t0 c rep" and e: "Ctx_NewStream M c st h = (r, c')"
  shows "\<exists>rep'. reply_inv M t0 c' rep'"
proof (cases "ctx_sent c")
  case True
  with e inv show ?thesis by (auto simp: Ctx_NewStream_def)
next
  case False
  define resp where "resp = \<lparr>resp_ID = req_ID (ctx_Request c), resp_Status = st,
    resp_Headers = h, resp_Body = [], resp_Stream = True\<rparr>"
  from inv False have inv0: "reply_inv M t0 c NoReply" using reply_inv_unsent by blast
  obtain r' s where s: "WriteFrame M (ctx_stream c) FrameTypeResponse (PResponse resp) = (r', s)"
    by (cases "WriteFrame M (ctx_stream c) FrameTypeResponse (PResponse resp)")
  note first = reply_inv_first [OF inv0, of "MResp resp", simplified, OF s]
  show ?thesis
  proof (cases "sendable M (MResp resp)")
    case True
    with first s e False have "c' = c\<lparr>ctx_sent := True, ctx_stream := s,
        ctx_writer := Some \<lparr>sw_requestID = req_ID (ctx_Request c), sw_seq = 0, sw_closed = False\<rparr>\<rparr>"
      by (auto simp: Ctx_NewStream_def ctx_write_def resp_def)
    with first True inv0 have "reply_inv M t0 c' (Streamed resp [] None)"
      by (auto simp: reply_inv_def resp_def intro: exI [where x = "0::nat"])
    then show ?thesis ..
  next
    case no: False
    with first s e False have "c' = c\<lparr>ctx_sent := True, ctx_stream := s\<rparr>"
      by (auto simp: Ctx_NewStream_def ctx_write_def resp_def)
    with first no inv0 have "reply_inv M t0 c' NoReply" by (auto simp: reply_inv_def)
    then show ?thesis ..
  qed
qed

text \<open>A later frame of a stream.\<close>

lemma reply_inv_next:
  assumes inv: "reply_inv M t0 c rep"
    and w: "WriteFrame M (ctx_stream c) (msg_type m) (msg_payload m) = (r, s)"
  shows "if sendable M m
         then r = None \<and> healthy s \<and>
           tx s = t0 @ wire_bytes M (reply_msgs (req_ID (ctx_Request c)) rep @ [m])
         else r \<noteq> None \<and> s = ctx_stream c"
proof -
  from inv have h: "healthy (ctx_stream c)" by (simp add: reply_inv_def)
  show ?thesis
  proof (cases "sendable M m")
    case True
    then have "WriteFrame M (ctx_stream c) (msg_type m) (msg_payload m) =
        (None, (ctx_stream c)\<lparr>tx := tx (ctx_stream c) @ encode_frame (msg_frame M m)\<rparr>)"
      by (subst WriteFrame_msg [OF h]) simp
    with w h True inv show ?thesis by (auto simp: reply_inv_def)
  next
    case False
    then have "s = ctx_stream c" using w WriteFrame_msg [OF h, of M m] by simp
    with False WriteFrame_not_sendable [OF h False] w show ?thesis by simp
  qed
qed

lemma list_all_less_mono: "list_all (\<lambda>k. k < n) ks \<Longrightarrow> list_all (\<lambda>k. k < Suc n) ks"
  by (auto simp: list_all_iff)

lemma sorted_wrt_snoc_less:
  "sorted_wrt (<) ks \<Longrightarrow> list_all (\<lambda>k. k < n) ks \<Longrightarrow> sorted_wrt (<) (ks @ [n :: nat])"
  by (auto simp: sorted_wrt_append list_all_iff)

lemma reply_inv_stream:
  assumes "reply_inv M t0 c rep" "ctx_writer c = Some sw"
  obtains r ks e n where "rep = Streamed r ks e" "ctx_sent c"
    "sw_requestID sw = req_ID (ctx_Request c)" "sw_seq sw = word_of_nat n"
    "list_all (\<lambda>k. k < n) (map fst ks)" "\<not> sw_closed sw \<Longrightarrow> e = None"
    "sorted_wrt (<) (map fst ks)" "resp_ID r = req_ID (ctx_Request c)" "resp_Stream r"
  using assms by (cases rep) (auto simp: reply_inv_def split: option.splits)

lemma reply_inv_Write:
  assumes inv: "reply_inv M t0 c rep" and e: "ctx_sw_Write M c d = (r, c')"
  shows "\<exists>rep'. reply_inv M t0 c' rep'"
proof (cases "ctx_writer c")
  case None
  with e inv show ?thesis by (auto simp: ctx_sw_Write_def)
next
  case (Some sw)
  show ?thesis
  proof (cases "sw_closed sw")
    case True
    with e inv Some have "c' = c\<lparr>ctx_writer := Some sw\<rparr>"
      by (auto simp: ctx_sw_Write_def StreamWriter_Write_def)
    with Some show ?thesis by (auto intro!: exI reply_inv_cong [OF inv])
  next
    case False
    let ?i = "req_ID (ctx_Request c)"
    from reply_inv_stream [OF inv Some] False obtain rs ks n where
      rep: "rep = Streamed rs ks None" "ctx_sent c" and sw: "sw_requestID sw = ?i"
        "sw_seq sw = word_of_nat n" and ks: "list_all (\<lambda>k. k < n) (map fst ks)"
        "sorted_wrt (<) (map fst ks)" and rs: "resp_ID rs = ?i" "resp_Stream rs"
      by metis
    let ?m = "data_msg ?i n d"
    obtain r' s where w: "WriteFrame M (ctx_stream c) (msg_type ?m) (msg_payload ?m) = (r', s)"
      by (cases "WriteFrame M (ctx_stream c) (msg_type ?m) (msg_payload ?m)")
    have c': "c' = c\<lparr>ctx_stream := s, ctx_writer := Some (sw\<lparr>sw_seq := sw_seq sw + 1\<rparr>)\<rparr>"
      using w e Some False sw
      by (auto simp: ctx_sw_Write_def StreamWriter_Write_def data_msg_def Let_def split: option.splits)
    note next_frame = reply_inv_next [OF inv w]
    have n1: "word_of_nat n + 1 = (word_of_nat (Suc n) :: 64 word)" by simp
    show ?thesis
    proof (cases "sendable M ?m")
      case True
      have "reply_inv M t0 c' (Streamed rs (ks @ [(n, d)]) None)"
        using next_frame True inv rep sw ks rs c' n1
        by (auto simp: reply_inv_def intro!: sorted_wrt_snoc_less list_all_less_mono exI [where x = "Suc n"])
      then show ?thesis ..
    next
      case no: False
      have "reply_inv M t0 c' (Streamed rs ks None)"
        using next_frame no inv rep sw ks rs c' n1
        by (auto simp: reply_inv_def intro!: list_all_less_mono exI [where x = "Suc n"])
      then show ?thesis ..
    qed
  qed
qed

lemma reply_inv_Close:
  assumes inv: "reply_inv M t0 c rep" and e: "ctx_sw_Close M c = (r, c')"
  shows "\<exists>rep'. reply_inv M t0 c' rep'"
proof (cases "ctx_writer c")
  case None
  with e inv show ?thesis by (auto simp: ctx_sw_Close_def)
next
  case (Some sw)
  show ?thesis
  proof (cases "sw_closed sw")
    case True
    with e inv Some have "c' = c\<lparr>ctx_writer := Some sw\<rparr>"
      by (auto simp: ctx_sw_Close_def StreamWriter_Close_def)
    with Some show ?thesis by (auto intro!: exI reply_inv_cong [OF inv])
  next
    case False
    let ?i = "req_ID (ctx_Request c)"
    from reply_inv_stream [OF inv Some] False obtain rs ks n where
      rep: "rep = Streamed rs ks None" "ctx_sent c" and sw: "sw_requestID sw = ?i"
        "sw_seq sw = word_of_nat n" and ks: "list_all (\<lambda>k. k < n) (map fst ks)"
        "sorted_wrt (<) (map fst ks)" and rs: "resp_ID rs = ?i" "resp_Stream rs"
      by metis
    let ?m = "end_msg ?i n"
    obtain r' s where w: "WriteFrame M (ctx_stream c) (msg_type ?m) (msg_payload ?m) = (r', s)"
      by (cases "WriteFrame M (ctx_stream c) (msg_type ?m) (msg_payload ?m)")
    have c': "c' = c\<lparr>ctx_stream := s, ctx_writer := Some (sw\<lparr>sw_closed := True\<rparr>)\<rparr>"
      using w e Some False sw
      by (auto simp: ctx_sw_Close_def StreamWriter_Close_def end_msg_def Let_def)
    note next_frame = reply_inv_next [OF inv w]
    show ?thesis
    proof (cases "sendable M ?m")
      case True
      have "reply_inv M t0 c' (Streamed rs ks (Some n))"
        using next_frame True inv rep sw ks rs c' by (auto simp: reply_inv_def)
      then show ?thesis ..
    next
      case no: False
      have "reply_inv M t0 c' (Streamed rs ks None)"
        using next_frame no inv rep sw ks rs c' by (auto simp: reply_inv_def)
      then show ?thesis ..
    qed
  qed
qed

lemma reply_inv_exec:
  assumes inv: "reply_inv M t0 c rep" and e: "api_exec M c op = (r, c')"
  shows "\<exists>rep'. reply_inv M t0 c' rep'"
proof (cases op)
  case (OpHeader k v)
  with e show ?thesis by (auto simp: Ctx_Header_def Let_def intro!: exI reply_inv_cong [OF inv])
next
  case (OpSetCookie v)
  with e show ?thesis
    by (auto simp: Ctx_SetCookie_def Ctx_Header_def Let_def intro!: exI reply_inv_cong [OF inv])
next
  case (OpSet k v)
  with e show ?thesis by (auto simp: Ctx_Set_def intro!: exI reply_inv_cong [OF inv])
next
  case (OpMsgPack st v)
  with e inv show ?thesis
    by (auto simp: Ctx_MsgPack_def intro: reply_inv_writeResponse split: sum.splits)
qed (use e in \<open>auto simp: Ctx_Send_def Ctx_NoContent_def split: prod.splits
      intro: reply_inv_writeResponse [OF inv] reply_inv_Error [OF inv]
        reply_inv_NewStream [OF inv] reply_inv_Write [OF inv] reply_inv_Close [OF inv]\<close>)

lemma reply_inv_reach:
  assumes "api_reach M c c'" "reply_inv M t0 c rep"
  shows "\<exists>rep'. reply_inv M t0 c' rep'"
  using assms by (induction rule: api_reach.induct) (auto dest: reply_inv_exec)

text \<open>What a peer reads.\<close>

definition msgs_below_4GiB :: "'v msgpack \<Rightarrow> msg list \<Rightarrow> bool" where
  "msgs_below_4GiB M ms = list_all (\<lambda>m. payload_below_4GiB M (msg_payload m)) ms"

lemma sendable_fits:
  "payload_below_4GiB M (msg_payload m) \<Longrightarrow> sendable M m \<Longrightarrow> frame_fits (msg_frame M m)"
  using written_fits by (auto simp: sendable_def msg_frame_def split: sum.splits)

lemma ReadFrames_wire_bytes:
  assumes "msgs_below_4GiB M ms" "list_all (sendable M) ms" "rx r = wire_bytes M ms"
  shows "fst (ReadFrames r) = map (msg_frame M) ms"
proof (rule ReadFrames_concat [where q = "[]"])
  show "list_all frame_fits (map (msg_frame M) ms)"
    using assms(1,2) by (auto simp: list_all_iff sendable_fits msgs_below_4GiB_def)
  show "rx r = concat (map encode_frame (map (msg_frame M) ms)) @ []"
    using assms(3) by (simp add: wire_bytes_def)
qed simp

section \<open>Runs of calls\<close>

lemma api_run_append [simp]: "api_run M c (xs @ ys) = api_run M (api_run M c xs) ys"
  by (induction xs arbitrary: c) auto

text \<open>Once something was sent and no StreamWriter exists, no call writes anything any more.\<close>

definition silenced :: "bytes \<Rightarrow> 'v Context \<Rightarrow> bool" where
  "silenced t c \<longleftrightarrow> ctx_sent c \<and> ctx_writer c = None \<and> tx (ctx_stream c) = t"

lemma silenced_exec: "silenced t c \<Longrightarrow> api_exec M c op = (r, c') \<Longrightarrow> silenced t c'"
  by (cases op)
    (auto simp: silenced_def Ctx_Header_def Ctx_SetCookie_def Ctx_Set_def Ctx_Send_def Ctx_MsgPack_def
      Ctx_NoContent_def writeResponse_def Ctx_Error_def Ctx_NewStream_def ctx_sw_Write_def ctx_sw_Close_def
      Let_def split: if_splits sum.splits)

lemma silenced_reach: "api_reach M c c' \<Longrightarrow> silenced t c \<Longrightarrow> silenced t c'"
  by (induction rule: api_reach.induct) (auto intro: silenced_exec)

text \<open>The response of Send, and a write of it.\<close>

definition send_resp :: "'v Context \<Rightarrow> int \<Rightarrow> gomap \<Rightarrow> bytes \<Rightarrow> Response" where
  "send_resp c st h b =
     \<lparr>resp_ID = req_ID (ctx_Request c), resp_Status = st,
      resp_Headers = Some (merge_headers (ctx_resHeaders c) h), resp_Body = b, resp_Stream = False\<rparr>"

lemma writeResponse_sendable:
  assumes "\<not> ctx_sent c" "healthy (ctx_stream c)" "sendable M (MResp (send_resp c st h b))"
  shows "writeResponse M c st h b False =
    (None, c\<lparr>ctx_sent := True, ctx_stream := (ctx_stream c)\<lparr>tx := tx (ctx_stream c) @
        wire_bytes M [MResp (send_resp c st h b)]\<rparr>\<rparr>)"
  using assms WriteFrame_msg [OF assms(2), of M "MResp (send_resp c st h b)"]
  by (simp add: writeResponse_def ctx_write_def send_resp_def)

lemma writeResponse_lost:
  assumes "\<not> ctx_sent c" "healthy (ctx_stream c)" "\<not> sendable M (MResp (send_resp c st h b))"
  obtains e where "writeResponse M c st h b False = (Some e, c\<lparr>ctx_sent := True\<rparr>)"
proof -
  let ?m = "MResp (send_resp c st h b)"
  obtain r s where w: "WriteFrame M (ctx_stream c) (msg_type ?m) (msg_payload ?m) = (r, s)"
    by (cases "WriteFrame M (ctx_stream c) (msg_type ?m) (msg_payload ?m)")
  with assms(3) WriteFrame_msg [OF assms(2), of M ?m] have "s = ctx_stream c" by simp
  with w WriteFrame_not_sendable [OF assms(2,3)] assms(1) that show ?thesis
    by (auto simp: writeResponse_def ctx_write_def send_resp_def)
qed

lemma run_Headers:
  "api_run M c (map (\<lambda>(k, v). OpHeader k v) kvs) =
     (if kvs = [] then c
      else c\<lparr>ctx_resHeaders :=
          Some ((case ctx_resHeaders c of None \<Rightarrow> Map.empty | Some m \<Rightarrow> m) ++ map_of (rev kvs))\<rparr>)"
proof (induction kvs arbitrary: c)
  case Nil
  show ?case by simp
next
  case (Cons kv kvs)
  obtain k v where "kv = (k, v)" by (cases kv)
  then show ?case
    by (auto simp: Cons Ctx_Header_def Let_def map_add_def fun_eq_iff split: option.splits)
qed

text \<open>The chunks of a stream whose writes all succeed, numbered from \<open>n\<close>.\<close>

fun chunk_msgs :: "string \<Rightarrow> nat \<Rightarrow> bytes list \<Rightarrow> msg list" where
  "chunk_msgs i n [] = []"
| "chunk_msgs i n (d # ds) = data_msg i n d # chunk_msgs i (Suc n) ds"

lemma exec_Write:
  assumes "healthy (ctx_stream c)" "ctx_writer c = Some sw" "\<not> sw_closed sw"
    and "sendable M (MData \<lparr>chunk_ID = sw_requestID sw, chunk_Seq = sw_seq sw, chunk_Data = d, chunk_Final = False\<rparr>)"
  shows "api_exec M c (OpWrite d) =
    (None, c\<lparr>ctx_writer := Some (sw\<lparr>sw_seq := sw_seq sw + 1\<rparr>),
       ctx_stream := (ctx_stream c)\<lparr>tx := tx (ctx_stream c) @ wire_bytes M
         [MData \<lparr>chunk_ID = sw_requestID sw, chunk_Seq = sw_seq sw, chunk_Data = d, chunk_Final = False\<rparr>]\<rparr>\<rparr>)"
  using assms WriteFrame_msg [OF assms(1), of M "MData \<lparr>chunk_ID = sw_requestID sw,
      chunk_Seq = sw_seq sw, chunk_Data = d, chunk_Final = False\<rparr>"]
  by (simp add: ctx_sw_Write_def StreamWriter_Write_def Let_def)

lemma exec_Write_lost:
  assumes "healthy (ctx_stream c)" "ctx_writer c = Some sw" "\<not> sw_closed sw"
    and "\<not> sendable M (MData \<lparr>chunk_ID = sw_requestID sw, chunk_Seq = sw_seq sw, chunk_Data = d, chunk_Final = False\<rparr>)"
  obtains e where
    "api_exec M c (OpWrite d) = (Some e, c\<lparr>ctx_writer := Some (sw\<lparr>sw_seq := sw_seq sw + 1\<rparr>)\<rparr>)"
proof -
  let ?m = "MData \<lparr>chunk_ID = sw_requestID sw, chunk_Seq = sw_seq sw, chunk_Data = d, chunk_Final = False\<rparr>"
  obtain r s where w: "WriteFrame M (ctx_stream c) (msg_type ?m) (msg_payload ?m) = (r, s)"
    by (cases "WriteFrame M (ctx_stream c) (msg_type ?m) (msg_payload ?m)")
  with assms(4) WriteFrame_msg [OF assms(1), of M ?m] have "s = ctx_stream c" by simp
  with w WriteFrame_not_sendable [OF assms(1,4)] assms(2,3) that show ?thesis
    by (auto simp: ctx_sw_Write_def StreamWriter_Write_def Let_def)
qed

lemma exec_Close:
  assumes "healthy (ctx_stream c)" "ctx_writer c = Some sw" "\<not> sw_closed sw" "sw_seq sw = word_of_nat n"
    and "sendable M (end_msg (sw_requestID sw) n)"
  shows "api_exec M c OpClose =
    (None, c\<lparr>ctx_writer := Some (sw\<lparr>sw_closed := True\<rparr>), ctx_stream := (ctx_stream c)\<lparr>tx :=
       tx (ctx_stream c) @ wire_bytes M [end_msg (sw_requestID sw) n]\<rparr>\<rparr>)"
  using assms WriteFrame_msg [OF assms(1), of M "end_msg (sw_requestID sw) n"]
  by (simp add: ctx_sw_Close_def StreamWriter_Close_def end_msg_def Let_def)

lemma run_Writes:
  assumes "healthy (ctx_stream c)" "ctx_writer c = Some sw" "\<not> sw_closed sw" "sw_seq sw = word_of_nat n"
    and "list_all (sendable M) (chunk_msgs (sw_requestID sw) n ds)"
  shows "api_run M c (map OpWrite ds) =
    c\<lparr>ctx_writer := Some (sw\<lparr>sw_seq := word_of_nat (n + length ds)\<rparr>),
      ctx_stream := (ctx_stream c)\<lparr>tx := tx (ctx_stream c) @
         wire_bytes M (chunk_msgs (sw_requestID sw) n ds)\<rparr>\<rparr>"
  using assms
proof (induction ds arbitrary: c sw n)
  case Nil
  then show ?case by simp
next
  case (Cons d ds)
  let ?sw = "sw\<lparr>sw_seq := sw_seq sw + 1\<rparr>"
  have e: "api_exec M c (OpWrite d) = (None, c\<lparr>ctx_writer := Some ?sw,
      ctx_stream := (ctx_stream c)\<lparr>tx := tx (ctx_stream c) @
        wire_bytes M [data_msg (sw_requestID sw) n d]\<rparr>\<rparr>)"
    using exec_Write [OF Cons.prems(1-3)] Cons.prems(4,5) by (simp add: data_msg_def)
  show ?case
    unfolding list.map api_run.simps e snd_conv
    by (subst Cons.IH [of _ ?sw "Suc n"]) (use Cons.prems in simp_all)
qed

lemma run_stream:
  assumes "\<not> ctx_sent c" "healthy (ctx_stream c)"
    and "list_all (sendable M)
      (MResp \<lparr>resp_ID = Ctx_RequestID c, resp_Status = st, resp_Headers = h, resp_Body = [], resp_Stream = True\<rparr>
       # chunk_msgs (Ctx_RequestID c) 0 ds @ [end_msg (Ctx_RequestID c) (length ds)])"
  shows "tx (ctx_stream (api_run M c (OpNewStream st h # map OpWrite ds @ [OpClose]))) =
    tx (ctx_stream c) @ wire_bytes M
      (MResp \<lparr>resp_ID = Ctx_RequestID c, resp_Status = st, resp_Headers = h, resp_Body = [], resp_Stream = True\<rparr>
       # chunk_msgs (Ctx_RequestID c) 0 ds @ [end_msg (Ctx_RequestID c) (length ds)])"
proof -
  let ?i = "Ctx_RequestID c"
  let ?r = "MResp \<lparr>resp_ID = ?i, resp_Status = st, resp_Headers = h, resp_Body = [], resp_Stream = True\<rparr>"
  let ?sw = "\<lparr>sw_requestID = ?i, sw_seq = 0, sw_closed = False\<rparr>"
  let ?c1 = "c\<lparr>ctx_sent := True, ctx_stream := (ctx_stream c)\<lparr>tx := tx (ctx_stream c) @ wire_bytes M [?r]\<rparr>,
      ctx_writer := Some ?sw\<rparr>"
  from assms(3) have s: "sendable M ?r" "list_all (sendable M) (chunk_msgs ?i 0 ds)"
      "sendable M (end_msg ?i (length ds))" by simp_all
  have c1: "snd (api_exec M c (OpNewStream st h)) = ?c1"
    using WriteFrame_msg [OF assms(2), of M ?r] s(1) assms(1)
    by (simp add: Ctx_NewStream_def ctx_write_def Ctx_RequestID_def)
  let ?sw2 = "?sw\<lparr>sw_seq := word_of_nat (length ds)\<rparr>"
  have c2: "api_run M ?c1 (map OpWrite ds) = ?c1\<lparr>ctx_writer := Some ?sw2,
      ctx_stream := (ctx_stream c)\<lparr>tx := tx (ctx_stream c) @ wire_bytes M (?r # chunk_msgs ?i 0 ds)\<rparr>\<rparr>"
    by (subst run_Writes [of _ ?sw 0]) (use s(2) assms(2) in simp_all)
  let ?c2 = "?c1\<lparr>ctx_writer := Some ?sw2,
      ctx_stream := (ctx_stream c)\<lparr>tx := tx (ctx_stream c) @ wire_bytes M (?r # chunk_msgs ?i 0 ds)\<rparr>\<rparr>"
  have c3: "api_exec M ?c2 OpClose = (None, ?c2\<lparr>ctx_writer := Some (?sw2\<lparr>sw_closed := True\<rparr>),
      ctx_stream := (ctx_stream ?c2)\<lparr>tx := tx (ctx_stream ?c2) @ wire_bytes M [end_msg ?i (length ds)]\<rparr>\<rparr>)"
    using exec_Close [of ?c2 ?sw2 "length ds" M] s(3) assms(2) by simp
  show ?thesis
    unfolding api_run.simps api_run_append c1 c2 c3 snd_conv by simp
qed

section \<open>Properties of Context and StreamWriter\<close>

text \<open>
  One reply per request. However a request's middleware and handlers call its Context and
  StreamWriter, in any order and number, the peer receives nothing, one response, one error frame,
  or one response announcing a stream followed by chunks with strictly increasing numbers and at most
  one final end chunk; every frame carries the request's ID. (The peer can decode them as long as
  each payload is below 4 GiB.)
\<close>

theorem one_reply:
  assumes "healthy s" "api_reach M (newContext ctx req conn s) c"
  shows "\<exists>rep. reply_shape (req_ID req) rep \<and>
    tx (ctx_stream c) = tx s @ wire_bytes M (reply_msgs (req_ID req) rep) \<and>
    (msgs_below_4GiB M (reply_msgs (req_ID req) rep) \<longrightarrow>
       fst (ReadFrames (s\<lparr>rx := drop (length (tx s)) (tx (ctx_stream c))\<rparr>)) =
         map (msg_frame M) (reply_msgs (req_ID req) rep))"
proof -
  let ?c = "newContext ctx req conn s"
  have "reply_inv M (tx s) ?c NoReply"
    using reply_inv_start [of ?c M] assms(1) by (simp add: newContext_def)
  then obtain rep where inv: "reply_inv M (tx s) c rep" using reply_inv_reach [OF assms(2)] by blast
  have "ctx_Request c = req"
    using api_reach_kept [OF assms(2)] by (simp add: ctx_kept_def newContext_def)
  with inv show ?thesis
    by (intro exI [where x = rep]) (auto simp: reply_inv_def intro: ReadFrames_wire_bytes)
qed

definition sample_req :: Request where
  "sample_req = \<lparr>req_ID = ''r1'', req_Method = ''GET'', req_Path = ''/a'', req_Headers = None,
     req_Body = [], req_Stream = False\<rparr>"

definition sample_peer :: peer where
  "sample_peer = \<lparr>peer_transport = Native, peer_addr = Some ''10.0.0.1:5000'', peer_tlsCerts = []\<rparr>"

definition sample_ctx :: "string Context" where
  "sample_ctx = newContext None sample_req sample_peer fresh_stream"

lemmas sample_ctx_simps = sample_ctx_def sample_req_def sample_peer_def newContext_def fresh_stream_def
  healthy_def

theorem one_reply_witness:
  "\<exists>rep. reply_shape (req_ID sample_req) rep \<and>
    tx (ctx_stream (api_run sample_msgpack sample_ctx [OpNoContent, OpSend 200 [1]])) =
      tx fresh_stream @ wire_bytes sample_msgpack (reply_msgs (req_ID sample_req) rep) \<and>
    (msgs_below_4GiB sample_msgpack (reply_msgs (req_ID sample_req) rep) \<longrightarrow>
       fst (ReadFrames (fresh_stream\<lparr>rx := drop (length (tx fresh_stream))
           (tx (ctx_stream (api_run sample_msgpack sample_ctx [OpNoContent, OpSend 200 [1]])))\<rparr>)) =
         map (msg_frame sample_msgpack) (reply_msgs (req_ID sample_req) rep))"
  by (rule one_reply [where ctx = None and conn = sample_peer])
    (simp_all add: healthy_def fresh_stream_def api_run_reach sample_ctx_def [symmetric, unfolded fresh_stream_def]
      del: api_run.simps)

text \<open>
  What no call changes. Whatever is called on a Context, the request, its connection, route and
  query parameters and context stay as they were, nothing is read from the stream, bytes are only
  appended to what was written, and a Context that has sent stays so.
\<close>

theorem context_frame:
  assumes "api_reach M c c'"
  shows "ctx_kept c c'"
  using assms by (rule api_reach_kept)

theorem context_frame_witness:
  "ctx_kept sample_ctx (api_run sample_msgpack sample_ctx [OpHeader ''a'' ''b'', OpSend 200 [1]])"
  by (rule context_frame [OF api_run_reach])

text \<open>
  A complete stream. NewStream, one Write per chunk and Close, when every frame can be sent, put
  on the wire the announcing response, the chunks in order with numbers 0, 1, 2, ... (64 bits) and the
  end chunk with the number of chunks.
\<close>

theorem stream_in_order:
  assumes "\<not> ctx_sent c" "healthy (ctx_stream c)"
    and "list_all (sendable M)
      (MResp \<lparr>resp_ID = Ctx_RequestID c, resp_Status = st, resp_Headers = h, resp_Body = [], resp_Stream = True\<rparr>
       # chunk_msgs (Ctx_RequestID c) 0 ds @ [end_msg (Ctx_RequestID c) (length ds)])"
  shows "tx (ctx_stream (api_run M c (OpNewStream st h # map OpWrite ds @ [OpClose]))) =
    tx (ctx_stream c) @ wire_bytes M
      (MResp \<lparr>resp_ID = Ctx_RequestID c, resp_Status = st, resp_Headers = h, resp_Body = [], resp_Stream = True\<rparr>
       # chunk_msgs (Ctx_RequestID c) 0 ds @ [end_msg (Ctx_RequestID c) (length ds)])"
  using assms by (rule run_stream)

theorem stream_in_order_witness:
  "tx (ctx_stream (api_run sample_msgpack sample_ctx (OpNewStream 200 None # map OpWrite [[1], [2, 3]] @ [OpClose]))) =
    tx (ctx_stream sample_ctx) @ wire_bytes sample_msgpack
      (MResp \<lparr>resp_ID = Ctx_RequestID sample_ctx, resp_Status = 200, resp_Headers = None, resp_Body = [], resp_Stream = True\<rparr>
       # chunk_msgs (Ctx_RequestID sample_ctx) 0 [[1], [2, 3]]
       @ [end_msg (Ctx_RequestID sample_ctx) (length [[1], [2, 3 :: byte]])])"
  by (rule stream_in_order)
    (simp_all add: sample_ctx_simps sendable_def sample_simps data_msg_def end_msg_def Ctx_RequestID_def)

text \<open>
  A failed Write uses up a number. When a chunk cannot be sent and the next one can, the peer
  receives the second chunk with the number after the missing one: the numbers on the wire have a gap.
\<close>

theorem failed_write_leaves_gap:
  assumes "healthy (ctx_stream c)" "ctx_writer c = Some sw" "\<not> sw_closed sw"
    and "\<not> sendable M (MData \<lparr>chunk_ID = sw_requestID sw, chunk_Seq = sw_seq sw, chunk_Data = d1, chunk_Final = False\<rparr>)"
    and "sendable M (MData \<lparr>chunk_ID = sw_requestID sw, chunk_Seq = sw_seq sw + 1, chunk_Data = d2, chunk_Final = False\<rparr>)"
  shows "tx (ctx_stream (api_run M c [OpWrite d1, OpWrite d2])) = tx (ctx_stream c) @ wire_bytes M
    [MData \<lparr>chunk_ID = sw_requestID sw, chunk_Seq = sw_seq sw + 1, chunk_Data = d2, chunk_Final = False\<rparr>]"
proof -
  let ?sw = "sw\<lparr>sw_seq := sw_seq sw + 1\<rparr>"
  let ?c1 = "c\<lparr>ctx_writer := Some ?sw\<rparr>"
  obtain e where c1: "api_exec M c (OpWrite d1) = (Some e, ?c1)"
    by (rule exec_Write_lost [OF assms(1-4)])
  have "snd (api_exec M ?c1 (OpWrite d2)) = ?c1\<lparr>ctx_writer := Some (?sw\<lparr>sw_seq := sw_seq sw + 1 + 1\<rparr>),
      ctx_stream := (ctx_stream c)\<lparr>tx := tx (ctx_stream c) @ wire_bytes M
        [MData \<lparr>chunk_ID = sw_requestID sw, chunk_Seq = sw_seq sw + 1, chunk_Data = d2, chunk_Final = False\<rparr>]\<rparr>\<rparr>"
    using exec_Write [of ?c1 ?sw M d2] assms(1,3,5) by simp
  then show ?thesis unfolding api_run.simps c1 snd_conv by simp
qed

definition picky_msgpack :: "string msgpack" where
  "picky_msgpack = sample_msgpack\<lparr>Marshal := \<lambda>p. (case p of
     PStreamChunk k \<Rightarrow> if chunk_Data k = [] then Inl io_EOF else Inr (chunk_Data k)
   | PResponse r \<Rightarrow> if resp_Body r = [] then Inl io_EOF else Inr (resp_Body r)
   | _ \<Rightarrow> Marshal sample_msgpack p)\<rparr>"

theorem failed_write_leaves_gap_witness:
  "tx (ctx_stream (api_run picky_msgpack (sample_ctx\<lparr>ctx_writer := Some \<lparr>sw_requestID = ''r1'', sw_seq = 0,
        sw_closed = False\<rparr>\<rparr>) [OpWrite [], OpWrite [5]])) =
    tx (ctx_stream (sample_ctx\<lparr>ctx_writer := Some \<lparr>sw_requestID = ''r1'', sw_seq = 0, sw_closed = False\<rparr>\<rparr>)) @
    wire_bytes picky_msgpack
      [MData \<lparr>chunk_ID = sw_requestID \<lparr>sw_requestID = ''r1'', sw_seq = 0, sw_closed = False\<rparr>,
         chunk_Seq = sw_seq \<lparr>sw_requestID = ''r1'', sw_seq = 0, sw_closed = False\<rparr> + 1,
         chunk_Data = [5], chunk_Final = False\<rparr>]"
  by (rule failed_write_leaves_gap)
    (simp_all add: sample_ctx_simps sendable_def sample_simps picky_msgpack_def)

text \<open>
  A response that cannot be sent silences the request. When the first Send of a request fails
  because its response does not marshal or is too large, it reports the error and writes nothing, and
  no call that follows, an error response included, writes anything either.
\<close>

theorem unsendable_response_is_final:
  assumes "\<not> ctx_sent c" "ctx_writer c = None" "healthy (ctx_stream c)"
    and "\<not> sendable M (MResp (send_resp c st None b))" "Ctx_Send M c st b = (r, c1)" "api_reach M c1 c2"
  shows "r \<noteq> None \<and> tx (ctx_stream c2) = tx (ctx_stream c)"
proof -
  obtain e where "writeResponse M c st None b False = (Some e, c\<lparr>ctx_sent := True\<rparr>)"
    using writeResponse_lost [OF assms(1,3,4)] .
  with assms(5) have "r = Some e" "c1 = c\<lparr>ctx_sent := True\<rparr>" by (simp_all add: Ctx_Send_def)
  moreover from this assms(2) have "silenced (tx (ctx_stream c)) c1" by (simp add: silenced_def)
  ultimately show ?thesis using silenced_reach [OF assms(6)] by (simp add: silenced_def)
qed

theorem unsendable_response_is_final_witness:
  "fst (Ctx_Send picky_msgpack sample_ctx 200 []) \<noteq> None \<and>
   tx (ctx_stream (api_run picky_msgpack (snd (Ctx_Send picky_msgpack sample_ctx 200 []))
       [OpError 500 ''failed'' []])) = tx (ctx_stream sample_ctx)"
  by (rule unsendable_response_is_final [where M = picky_msgpack and st = 200 and b = "[]"
        and ?c1.0 = "snd (Ctx_Send picky_msgpack sample_ctx 200 [])"])
    (simp_all add: sample_ctx_simps sendable_def sample_simps picky_msgpack_def send_resp_def
      api_run_reach del: api_run.simps)

text \<open>The headers a Context holds after the given Header calls, and a response with given headers.\<close>

definition pending_headers :: "'v Context \<Rightarrow> (string \<times> string) list \<Rightarrow> (string \<rightharpoonup> string)" where
  "pending_headers c kvs =
     (case ctx_resHeaders c of None \<Rightarrow> Map.empty | Some m \<Rightarrow> m) ++ map_of (rev kvs)"

definition resp_with :: "'v Context \<Rightarrow> int \<Rightarrow> (string \<rightharpoonup> string) \<Rightarrow> bytes \<Rightarrow> msg" where
  "resp_with c st hs b =
     MResp \<lparr>resp_ID = Ctx_RequestID c, resp_Status = st, resp_Headers = Some hs, resp_Body = b,
            resp_Stream = False\<rparr>"

lemma send_resp_pending:
  "MResp (send_resp (api_run M c (map (\<lambda>(k, v). OpHeader k v) kvs)) st h b) =
     resp_with c st (gomap_copy h (pending_headers c kvs)) b"
  by (auto simp: send_resp_def resp_with_def pending_headers_def run_Headers merge_headers_def
      gomap_copy_def Ctx_RequestID_def split: option.splits)

text \<open>
  Response headers. Headers set with Header before a response are on it, the last value of a name
  winning, together with those an earlier Header call left; MsgPack sets content-type over any of them.
\<close>

theorem headers_on_response:
  assumes "\<not> ctx_sent c" "healthy (ctx_stream c)" "sendable M (resp_with c st (pending_headers c kvs) b)"
    and "Marshal M (PValue v) = Inr vb"
    and "sendable M (resp_with c st ((pending_headers c kvs)(''content-type'' \<mapsto> ''application/x-msgpack'')) vb)"
  shows "tx (ctx_stream (api_run M c (map (\<lambda>(k, v). OpHeader k v) kvs @ [OpSend st b]))) =
      tx (ctx_stream c) @ wire_bytes M [resp_with c st (pending_headers c kvs) b] \<and>
    tx (ctx_stream (api_run M c (map (\<lambda>(k, v). OpHeader k v) kvs @ [OpMsgPack st v]))) =
      tx (ctx_stream c) @ wire_bytes M
        [resp_with c st ((pending_headers c kvs)(''content-type'' \<mapsto> ''application/x-msgpack'')) vb]"
proof
  let ?c = "api_run M c (map (\<lambda>(k, v). OpHeader k v) kvs)"
  let ?ct = "Some [''content-type'' \<mapsto> ''application/x-msgpack'']"
  have c: "\<not> ctx_sent ?c" "healthy (ctx_stream ?c)" "tx (ctx_stream ?c) = tx (ctx_stream c)"
    using assms(1,2) by (simp_all add: run_Headers)
  show "tx (ctx_stream (api_run M c (map (\<lambda>(k, v). OpHeader k v) kvs @ [OpSend st b]))) =
      tx (ctx_stream c) @ wire_bytes M [resp_with c st (pending_headers c kvs) b]"
    using writeResponse_sendable [OF c(1,2), of M st None b] assms(3) c(3)
    by (simp add: Ctx_Send_def send_resp_pending gomap_copy_def)
  show "tx (ctx_stream (api_run M c (map (\<lambda>(k, v). OpHeader k v) kvs @ [OpMsgPack st v]))) =
      tx (ctx_stream c) @ wire_bytes M
        [resp_with c st ((pending_headers c kvs)(''content-type'' \<mapsto> ''application/x-msgpack'')) vb]"
    using writeResponse_sendable [OF c(1,2), of M st ?ct vb] assms(4,5) c(3)
    by (simp add: Ctx_MsgPack_def send_resp_pending gomap_copy_def)
qed

theorem headers_on_response_witness:
  "tx (ctx_stream (api_run sample_msgpack sample_ctx
      (map (\<lambda>(k, v). OpHeader k v) [(''a'', ''1''), (''a'', ''2'')] @ [OpSend 200 [7]]))) =
    tx (ctx_stream sample_ctx) @ wire_bytes sample_msgpack
      [resp_with sample_ctx 200 (pending_headers sample_ctx [(''a'', ''1''), (''a'', ''2'')]) [7]] \<and>
   tx (ctx_stream (api_run sample_msgpack sample_ctx
      (map (\<lambda>(k, v). OpHeader k v) [(''a'', ''1''), (''a'', ''2'')] @ [OpMsgPack 200 ''x'']))) =
    tx (ctx_stream sample_ctx) @ wire_bytes sample_msgpack
      [resp_with sample_ctx 200 ((pending_headers sample_ctx [(''a'', ''1''), (''a'', ''2'')])
         (''content-type'' \<mapsto> ''application/x-msgpack'')) [120]]"
  by (rule headers_on_response)
    (simp_all add: sample_ctx_simps sendable_def sample_simps resp_with_def)

text \<open>
  NewStream leaves out the headers set with Header: what it writes does not depend on them.
\<close>

theorem NewStream_ignores_pending_headers:
  "tx (ctx_stream (api_run M c (map (\<lambda>(k, v). OpHeader k v) kvs @ [OpNewStream st h]))) =
   tx (ctx_stream (api_run M c [OpNewStream st h]))"
proof -
  have "tx (ctx_stream (snd (Ctx_NewStream M (c\<lparr>ctx_resHeaders := x\<rparr>) st h))) =
      tx (ctx_stream (snd (Ctx_NewStream M c st h)))" for x
    by (auto simp: Ctx_NewStream_def ctx_write_def split: prod.splits option.splits)
  then show ?thesis by (simp add: run_Headers)
qed

end
