(* ===== verification/Router.thy ===== *)
theory Router
  imports Reply
begin

text \<open>
  framework/router.go: patterns, matching, the routing table and middleware chaining.
  A HandlerFunc takes the Context and the rest of the program's state (the \<open>'w\<close> that middleware
  and handlers share: clock, logs, limiter tables, application data) and returns its error
  result, or panics, with the new states. Matching does not look at handlers, so the table is
  polymorphic in them. The field \<^verbatim>\<open>middleware\<close> of \<^verbatim>\<open>Router\<close> is never read or written and is left out.
\<close>

type_synonym ('v, 'w) HandlerFunc =
  "'v Context \<Rightarrow> 'w \<Rightarrow> goerr option outcome \<times> 'v Context \<times> 'w"

type_synonym ('v, 'w) MiddlewareFunc = "('v, 'w) HandlerFunc \<Rightarrow> ('v, 'w) HandlerFunc"

section \<open>Patterns\<close>

datatype segmentKind = segStatic | segParam | segWildcard

record segment =
  seg_kind :: segmentKind
  seg_value :: string

definition splitPath :: "string \<Rightarrow> string list" where
  "splitPath path =
     (let path = Trim1 (CHR ''/'') path
      in if path = [] then [] else Split1 (CHR ''/'') path)"

definition parseSegment :: "string \<Rightarrow> segment" where
  "parseSegment p =
     (if HasPrefix p '':'' then \<lparr>seg_kind = segParam, seg_value = tl p\<rparr>
      else if HasPrefix p ''*'' then
        (let name = tl p
         in \<lparr>seg_kind = segWildcard, seg_value = (if name = [] then ''wildcard'' else name)\<rparr>)
      else \<lparr>seg_kind = segStatic, seg_value = p\<rparr>)"

definition parsePattern :: "string \<Rightarrow> segment list" where
  "parsePattern pattern = map parseSegment (splitPath pattern)"

text \<open>
  The loop of matchSegments: the two indices advance together, so the state is what is left of
  the pattern, what is left of the path, and the parameters found so far.
\<close>

fun matchLoop ::
    "segment list \<Rightarrow> string list \<Rightarrow> (string \<rightharpoonup> string) \<Rightarrow> (string \<rightharpoonup> string) option" where
  "matchLoop (rs # rss) (a # as) params =
     (case seg_kind rs of
        segStatic \<Rightarrow> if seg_value rs \<noteq> a then None else matchLoop rss as params
      | segParam \<Rightarrow> matchLoop rss as (params(seg_value rs \<mapsto> a))
      | segWildcard \<Rightarrow> Some (params(seg_value rs \<mapsto> Join (a # as) ''/'')))"
| "matchLoop [] [] params = Some params"
| "matchLoop rss as params = None"

definition matchSegments :: "segment list \<Rightarrow> string list \<Rightarrow> (string \<rightharpoonup> string) option" where
  "matchSegments routeSegs actualSegs = matchLoop routeSegs actualSegs Map.empty"

section \<open>Middleware chaining\<close>

text \<open>The loop runs from the last middleware to the first.\<close>

definition applyMiddleware :: "'h \<Rightarrow> ('h \<Rightarrow> 'h) list \<Rightarrow> 'h" where
  "applyMiddleware handler mw = foldl (\<lambda>h m. m h) handler (rev mw)"

section \<open>The table\<close>

record 'h route =
  rt_method :: string
  rt_segments :: "segment list"
  rt_handler :: 'h

record 'h Router =
  r_routes :: "'h route list"
  r_NotFound :: 'h
  r_MethodNotAllowed :: 'h

text \<open>A handler that is one call of Context.Error without data.\<close>

definition error_handler ::
    "'v msgpack \<Rightarrow> int \<Rightarrow> ('v Context \<Rightarrow> string) \<Rightarrow> ('v, 'w) HandlerFunc" where
  "error_handler M code msg c w = (case Ctx_Error M c code (msg c) [] of (r, c') \<Rightarrow> (Ret r, c', w))"

definition newRouter :: "'v msgpack \<Rightarrow> ('v, 'w) HandlerFunc Router" where
  "newRouter M =
     \<lparr>r_routes = [],
      r_NotFound =
        error_handler M 404 (\<lambda>c. ''no route for '' @ Ctx_Method c @ '' '' @ Ctx_Path c),
      r_MethodNotAllowed =
        error_handler M 405 (\<lambda>c. ''method '' @ Ctx_Method c @ '' not allowed on '' @ Ctx_Path c)\<rparr>"

definition Router_add ::
    "golib \<Rightarrow> 'h Router \<Rightarrow> string \<Rightarrow> string \<Rightarrow> ('h \<Rightarrow> 'h) list \<Rightarrow> 'h \<Rightarrow> 'h Router" where
  "Router_add L r method pattern middleware handler =
     r\<lparr>r_routes := r_routes r @
         [\<lparr>rt_method = ToUpper L method, rt_segments = parsePattern pattern,
           rt_handler = applyMiddleware handler middleware\<rparr>]\<rparr>"

text \<open>The loop of \<^verbatim>\<open>Router.match\<close>; its flag is \<^verbatim>\<open>pathMatched\<close>.\<close>

fun matchRoutes ::
    "golib \<Rightarrow> 'h Router \<Rightarrow> string \<Rightarrow> string list \<Rightarrow> 'h route list \<Rightarrow> bool \<Rightarrow> 'h \<times> gomap" where
  "matchRoutes L r method pathSegs [] pathMatched =
     (if pathMatched then (r_MethodNotAllowed r, None) else (r_NotFound r, None))"
| "matchRoutes L r method pathSegs (rt # rts) pathMatched =
     (case matchSegments (rt_segments rt) pathSegs of
        None \<Rightarrow> matchRoutes L r method pathSegs rts pathMatched
      | Some params \<Rightarrow>
          if rt_method rt \<noteq> ToUpper L method then matchRoutes L r method pathSegs rts True
          else (rt_handler rt, Some params))"

definition Router_match :: "golib \<Rightarrow> 'h Router \<Rightarrow> string \<Rightarrow> string \<Rightarrow> 'h \<times> gomap" where
  "Router_match L r method path = matchRoutes L r method (splitPath path) (r_routes r) False"

end
