(* ===== verification/Routing.thy ===== *)
theory Routing
  imports Router
begin

text \<open>
  What matching and chaining guarantee: which paths a pattern matches and which parameters it
  binds, that the table is searched in registration order (locale \<open>route_table\<close>), and that
  middleware keeps whatever contract it keeps for one handler (locale \<open>handler_contract\<close>).
\<close>

section \<open>Middleware chains\<close>

lemma applyMiddleware_simps [simp]:
  "applyMiddleware h [] = h"
  "applyMiddleware h (m # ms) = m (applyMiddleware h ms)"
  "applyMiddleware h (ms @ ns) = applyMiddleware (applyMiddleware h ns) ms"
  by (simp_all add: applyMiddleware_def)

text \<open>A handler that only moves a Context along \<open>R\<close>, and middleware that keeps handlers so.\<close>

definition handler_within :: "('v Context \<Rightarrow> 'v Context \<Rightarrow> bool) \<Rightarrow> ('v, 'w) HandlerFunc \<Rightarrow> bool" where
  "handler_within R h \<longleftrightarrow> (\<forall>c w. R c (fst (snd (h c w))))"

definition middleware_within ::
    "('v Context \<Rightarrow> 'v Context \<Rightarrow> bool) \<Rightarrow> ('v, 'w) MiddlewareFunc \<Rightarrow> bool" where
  "middleware_within R m \<longleftrightarrow> (\<forall>h. handler_within R h \<longrightarrow> handler_within R (m h))"

lemma handler_withinD: "handler_within R h \<Longrightarrow> h c w = (r, c', w') \<Longrightarrow> R c c'"
  unfolding handler_within_def by (metis fst_conv snd_conv)

locale handler_contract =
  fixes R :: "'v Context \<Rightarrow> 'v Context \<Rightarrow> bool"
  assumes refl [simp]: "R c c"
    and trans: "R a b \<Longrightarrow> R b c \<Longrightarrow> R a c"
begin

lemma within_applyMiddleware:
  "list_all (middleware_within R) mw \<Longrightarrow> handler_within R h \<Longrightarrow>
   handler_within R (applyMiddleware h mw)"
  by (induction mw) (auto simp: middleware_within_def)

lemma within_return: "handler_within R (\<lambda>c w. (r c w, c, g c w))"
  by (simp add: handler_within_def)

text \<open>A step before the next handler, and a step after it.\<close>

lemma within_before:
  assumes "handler_within R h" "\<And>c w. R c (f c w)"
  shows "handler_within R (\<lambda>c w. h (f c w) (g c w))"
  using assms unfolding handler_within_def by (blast intro: trans)

lemma within_after:
  assumes "handler_within R h" "\<And>r c w. R c (fst (snd (k r c w)))"
  shows "handler_within R (\<lambda>c w. case h c w of (r, c', w') \<Rightarrow> k r c' w')"
  unfolding handler_within_def
proof (intro allI)
  fix c w
  obtain r c' w' where h: "h c w = (r, c', w')" by (cases "h c w")
  with assms(1) have "R c c'" by (rule handler_withinD)
  with assms(2) [of c' r w'] h show "R c (fst (snd (case h c w of (r, c', w') \<Rightarrow> k r c' w')))"
    by (auto intro: trans)
qed

lemma within_if:
  assumes "handler_within R h" "handler_within R k"
  shows "handler_within R (\<lambda>c w. if b c w then h c w else k c w)"
  using assms by (simp add: handler_within_def)

end

interpretation api: handler_contract "api_reach M" for M
  by unfold_locales (auto intro: api_reach.start api_reach_trans)

interpretation kept: handler_contract ctx_kept
  by unfold_locales (auto intro: ctx_kept_trans)

section \<open>Matching one pattern\<close>

definition seg_accepts :: "segment \<Rightarrow> string \<Rightarrow> bool" where
  "seg_accepts rs a \<longleftrightarrow> seg_kind rs = segStatic \<longrightarrow> seg_value rs = a"

text \<open>The pattern up to its first wildcard.\<close>

definition fixed_part :: "segment list \<Rightarrow> segment list" where
  "fixed_part rs = takeWhile (\<lambda>s. seg_kind s \<noteq> segWildcard) rs"

definition pattern_accepts :: "segment list \<Rightarrow> string list \<Rightarrow> bool" where
  "pattern_accepts rs as \<longleftrightarrow>
     (if fixed_part rs = rs then list_all2 seg_accepts rs as
      else length (fixed_part rs) < length as \<and>
           list_all2 seg_accepts (fixed_part rs) (take (length (fixed_part rs)) as))"

lemma fixed_part_Cons:
  "fixed_part (s # rs) = (if seg_kind s = segWildcard then [] else s # fixed_part rs)"
  by (simp add: fixed_part_def)

lemma pattern_accepts_simps:
  "pattern_accepts [] as \<longleftrightarrow> as = []"
  "\<not> pattern_accepts (s # rs) []"
  "pattern_accepts (s # rs) (a # as) \<longleftrightarrow>
     seg_kind s = segWildcard \<or> seg_accepts s a \<and> pattern_accepts rs as"
  by (auto simp: pattern_accepts_def fixed_part_Cons seg_accepts_def fixed_part_def [of "[]"])

lemma matchLoop_accepts: "matchLoop rs as params = None \<longleftrightarrow> \<not> pattern_accepts rs as"
proof (induction rs arbitrary: as params)
  case Nil
  show ?case by (cases as) (auto simp: pattern_accepts_simps)
next
  case (Cons s rs)
  then show ?case
    by (cases as) (auto simp: pattern_accepts_simps seg_accepts_def split: segmentKind.splits)
qed

lemma matchSegments_accepts: "matchSegments rs as = None \<longleftrightarrow> \<not> pattern_accepts rs as"
  unfolding matchSegments_def by (rule matchLoop_accepts)

subsection \<open>The parameters\<close>

text \<open>What a pattern becomes when its parameters are filled in: the segments of a path.\<close>

fun render :: "(string \<rightharpoonup> string) \<Rightarrow> segment list \<Rightarrow> string list" where
  "render ps [] = []"
| "render ps (s # rs) =
     (case seg_kind s of
        segStatic \<Rightarrow> seg_value s # render ps rs
      | segParam \<Rightarrow> gomap_get (Some ps) (seg_value s) # render ps rs
      | segWildcard \<Rightarrow> Split1 (CHR ''/'') (gomap_get (Some ps) (seg_value s)))"

definition param_names :: "segment list \<Rightarrow> string list" where
  "param_names rs = map seg_value (filter (\<lambda>s. seg_kind s \<noteq> segStatic) rs)"

lemma param_names_Cons:
  "param_names (s # rs) =
     (if seg_kind s = segStatic then param_names rs else seg_value s # param_names rs)"
  by (simp add: param_names_def)

lemma matchLoop_keeps:
  "matchLoop rs as params = Some ps \<Longrightarrow> k \<notin> set (param_names rs) \<Longrightarrow> ps k = params k"
  by (induction rs as params rule: matchLoop.induct)
    (auto simp: param_names_Cons split: segmentKind.splits if_splits)

lemma matchLoop_render:
  assumes "matchLoop rs as params = Some ps" "distinct (param_names rs)"
    and "\<forall>a \<in> set as. CHR ''/'' \<notin> set a"
  shows "render ps rs = as"
  using assms
proof (induction rs arbitrary: as params)
  case Nil
  then show ?case by (cases as) auto
next
  case (Cons s rs)
  then obtain a as' where as: "as = a # as'" by (cases as) auto
  show ?case
  proof (cases "seg_kind s")
    case segStatic
    with Cons as show ?thesis by (auto simp: param_names_Cons split: if_splits)
  next
    case segParam
    with Cons.prems as have m: "matchLoop rs as' (params(seg_value s \<mapsto> a)) = Some ps"
      and "seg_value s \<notin> set (param_names rs)"
      by (auto simp: param_names_Cons)
    then have "ps (seg_value s) = Some a" using matchLoop_keeps [OF m] by simp
    moreover have "render ps rs = as'"
      by (rule Cons.IH [OF m]) (use Cons.prems as segParam in \<open>auto simp: param_names_Cons\<close>)
    ultimately show ?thesis using segParam as by (simp add: gomap_get_Some)
  next
    case segWildcard
    with Cons.prems as have "ps (seg_value s) = Some (Join (a # as') ''/'')" by auto
    with segWildcard as Cons.prems(3) show ?thesis
      using Split1_Join [of "a # as'" "CHR ''/''"] by (simp add: gomap_get_Some del: Join.simps)
  qed
qed

lemma splitPath_no_slash: "a \<in> set (splitPath p) \<Longrightarrow> CHR ''/'' \<notin> set a"
  by (auto simp: splitPath_def Let_def split: if_splits dest: Split1_no_sep)

lemma splitPath_join: "Join (splitPath p) ''/'' = Trim1 (CHR ''/'') p"
  by (simp add: splitPath_def Let_def)

lemma splitPath_pad: "splitPath (replicate m (CHR ''/'') @ p @ replicate n (CHR ''/'')) = splitPath p"
  by (simp add: splitPath_def Trim1_pad)

section \<open>The table\<close>

definition route_hit :: "golib \<Rightarrow> 'h route \<Rightarrow> string \<times> string \<Rightarrow> bool" where
  "route_hit L rt q \<longleftrightarrow>
     pattern_accepts (rt_segments rt) (splitPath (snd q)) \<and> rt_method rt = ToUpper L (fst q)"

definition route_lookup :: "golib \<Rightarrow> 'h route list \<Rightarrow> string \<times> string \<Rightarrow> 'h route option" where
  "route_lookup L rts q = find (\<lambda>rt. route_hit L rt q) rts"

text \<open>A table searched in the order of registration.\<close>

locale route_table =
  fixes look :: "'t \<Rightarrow> 'q \<Rightarrow> 'r option"
    and add :: "'t \<Rightarrow> 'r \<Rightarrow> 't"
    and hit :: "'r \<Rightarrow> 'q \<Rightarrow> bool"
  assumes look_add:
    "look (add t r) q = (case look t q of None \<Rightarrow> if hit r q then Some r else None | Some x \<Rightarrow> Some x)"
begin

lemma look_adds:
  "look (foldl add t rs) q =
     (case look t q of None \<Rightarrow> find (\<lambda>r. hit r q) rs | Some x \<Rightarrow> Some x)"
  by (induction rs arbitrary: t) (auto simp: look_add split: option.splits)

lemma look_stable: "look t q = Some x \<Longrightarrow> look (foldl add t rs) q = Some x"
  by (simp add: look_adds)

lemma look_shadowed:
  assumes "look t q = None" "hit r q" "\<And>x. hit x q \<Longrightarrow> x \<in> set rs \<Longrightarrow> x \<noteq> r"
  shows "look (foldl add (add t r) rs) q = Some r"
  by (simp add: look_adds look_add assms)

end

interpretation table: route_table "route_lookup L" "\<lambda>rts rt. rts @ [rt]" "route_hit L" for L
proof unfold_locales
  have find_snoc: "find P (xs @ [y]) = (case find P xs of None \<Rightarrow> if P y then Some y else None | Some x \<Rightarrow> Some x)"
    for P :: "'h route \<Rightarrow> bool" and xs y
    by (induction xs) auto
  show "route_lookup L (t @ [r]) q =
      (case route_lookup L t q of None \<Rightarrow> if route_hit L r q then Some r else None | Some x \<Rightarrow> Some x)"
    for t and r :: "'h route" and q
    by (simp add: route_lookup_def find_snoc)
qed

lemma matchRoutes_lookup:
  "matchRoutes L r m (splitPath p) rts b =
     (case route_lookup L rts (m, p) of
        Some rt \<Rightarrow> (rt_handler rt, matchSegments (rt_segments rt) (splitPath p))
      | None \<Rightarrow>
          (if b \<or> (\<exists>rt \<in> set rts. pattern_accepts (rt_segments rt) (splitPath p))
           then r_MethodNotAllowed r else r_NotFound r, None))"
proof (induction rts arbitrary: b)
  case Nil
  show ?case by (simp add: route_lookup_def)
next
  case (Cons rt rts)
  show ?case
  proof (cases "matchSegments (rt_segments rt) (splitPath p)")
    case None
    then have "\<not> pattern_accepts (rt_segments rt) (splitPath p)"
      using matchSegments_accepts by blast
    with None Cons show ?thesis by (auto simp: route_lookup_def route_hit_def)
  next
    case (Some ps)
    then have "pattern_accepts (rt_segments rt) (splitPath p)"
      by (metis matchSegments_accepts option.distinct(1))
    with Some Cons show ?thesis by (auto simp: route_lookup_def route_hit_def)
  qed
qed

lemma Router_match_lookup:
  "Router_match L r m p =
     (case route_lookup L (r_routes r) (m, p) of
        Some rt \<Rightarrow> (rt_handler rt, matchSegments (rt_segments rt) (splitPath p))
      | None \<Rightarrow>
          (if \<exists>rt. rt \<in> set (r_routes r) \<and> pattern_accepts (rt_segments rt) (splitPath p)
           then r_MethodNotAllowed r else r_NotFound r, None))"
  by (auto simp: Router_match_def matchRoutes_lookup split: option.splits)

text \<open>A pattern whose wildcard, if it has one, comes last.\<close>

definition wild_last :: "segment list \<Rightarrow> bool" where
  "wild_last rs = list_all (\<lambda>s. seg_kind s \<noteq> segWildcard) (butlast rs)"

lemma wild_last_Cons: "wild_last (s # rs) \<Longrightarrow> wild_last rs \<and> (seg_kind s = segWildcard \<longrightarrow> rs = [])"
  by (cases rs) (auto simp: wild_last_def)

lemma matchLoop_rendered:
  assumes "distinct (param_names rs)" "set (param_names rs) \<subseteq> dom ps" "wild_last rs"
  shows "matchLoop rs (render ps rs) params = Some (params ++ ps |` set (param_names rs))"
  using assms
proof (induction rs arbitrary: params)
  case Nil
  then show ?case by (simp add: param_names_def)
next
  case (Cons s rs)
  note tail = wild_last_Cons [OF Cons.prems(3)]
  show ?case
  proof (cases "seg_kind s")
    case segStatic
    with Cons tail show ?thesis by (simp add: param_names_Cons)
  next
    case segParam
    with Cons.prems obtain v where v: "ps (seg_value s) = Some v" by (auto simp: param_names_Cons)
    have "(params(seg_value s \<mapsto> v)) ++ ps |` set (param_names rs) =
        params ++ ps |` insert (seg_value s) (set (param_names rs))"
      using v by (auto simp: fun_eq_iff map_add_def restrict_map_def split: option.splits)
    with segParam v Cons tail show ?thesis by (simp add: param_names_Cons gomap_get_Some)
  next
    case segWildcard
    with tail have rs: "rs = []" by simp
    from segWildcard Cons.prems obtain v where v: "ps (seg_value s) = Some v"
      by (auto simp: param_names_Cons)
    obtain a as where "Split1 (CHR ''/'') v = a # as" by (meson Split1_ne neq_Nil_conv)
    moreover have "params(seg_value s \<mapsto> v) = params ++ ps |` {seg_value s}"
      using v by (auto simp: fun_eq_iff map_add_def restrict_map_def)
    ultimately show ?thesis
      using segWildcard rs v Join_Split1 [of "CHR ''/''" v]
      by (simp add: param_names_def gomap_get_Some del: Join_Split1)
  qed
qed

section \<open>Properties of the router\<close>

text \<open>
  C4: Which handler a request gets. The router gives the handler and parameters of the first route,
  in registration order, whose pattern accepts the path and whose method is the request's (in upper
  case); if there is none, the method-not-allowed handler when some route accepts the path, and the
  not-found handler otherwise.
\<close>

theorem Router_match_spec:
  "Router_match L r m p =
     (case find (\<lambda>rt. pattern_accepts (rt_segments rt) (splitPath p) \<and> rt_method rt = ToUpper L m)
             (r_routes r) of
        Some rt \<Rightarrow> (rt_handler rt, matchSegments (rt_segments rt) (splitPath p))
      | None \<Rightarrow>
          (if list_ex (\<lambda>rt. pattern_accepts (rt_segments rt) (splitPath p)) (r_routes r)
           then r_MethodNotAllowed r else r_NotFound r, None))"
  unfolding Router_match_lookup route_lookup_def route_hit_def fst_conv snd_conv
  by (auto simp: list_ex_iff split: option.splits)

text \<open>
  C10: Parameters rebuild the path. If a pattern with distinct parameter names matches a path,
  filling the parameters it bound back into the pattern gives the path, up to leading and trailing
  slashes.
\<close>

theorem match_then_render:
  assumes "matchSegments (parsePattern pat) (splitPath p) = Some ps"
    and "distinct (param_names (parsePattern pat))"
  shows "Join (render ps (parsePattern pat)) ''/'' = Trim1 (CHR ''/'') p"
proof -
  have "render ps (parsePattern pat) = splitPath p"
    using assms splitPath_no_slash by (auto simp: matchSegments_def intro: matchLoop_render)
  then show ?thesis by (simp add: splitPath_join)
qed

theorem match_then_render_witness:
  "Join (render [''id'' \<mapsto> ''7'', ''rest'' \<mapsto> ''x/y''] (parsePattern ''/users/:id/*rest'')) ''/'' =
     Trim1 (CHR ''/'') ''/users/7/x/y/''"
proof (rule match_then_render)
  have "parsePattern ''/users/:id/*rest'' = [\<lparr>seg_kind = segStatic, seg_value = ''users''\<rparr>,
      \<lparr>seg_kind = segParam, seg_value = ''id''\<rparr>, \<lparr>seg_kind = segWildcard, seg_value = ''rest''\<rparr>]"
    by code_simp
  moreover have "splitPath ''/users/7/x/y/'' = [''users'', ''7'', ''x'', ''y'']" by code_simp
  ultimately show "matchSegments (parsePattern ''/users/:id/*rest'') (splitPath ''/users/7/x/y/'') =
      Some [''id'' \<mapsto> ''7'', ''rest'' \<mapsto> ''x/y'']"
    by (simp add: matchSegments_def)
  show "distinct (param_names (parsePattern ''/users/:id/*rest''))" by code_simp
qed

text \<open>
  C11: A rendered pattern matches. Filling values into a pattern with distinct parameter names (and
  its wildcard last) gives segments that the pattern matches, and matching binds exactly the
  parameters of the pattern, to those values.
\<close>

theorem render_then_match:
  assumes "distinct (param_names rs)" "set (param_names rs) \<subseteq> dom ps" "wild_last rs"
  shows "matchSegments rs (render ps rs) = Some (ps |` set (param_names rs))"
  unfolding matchSegments_def using matchLoop_rendered [OF assms, of Map.empty] by simp

theorem render_then_match_witness:
  "matchSegments (parsePattern ''/users/:id/*rest'')
     (render [''id'' \<mapsto> ''7'', ''rest'' \<mapsto> ''x/y'', ''other'' \<mapsto> ''z''] (parsePattern ''/users/:id/*rest'')) =
   Some ([''id'' \<mapsto> ''7'', ''rest'' \<mapsto> ''x/y'', ''other'' \<mapsto> ''z''] |` set (param_names (parsePattern ''/users/:id/*rest'')))"
proof (rule render_then_match)
  show "distinct (param_names (parsePattern ''/users/:id/*rest''))" by code_simp
  show "wild_last (parsePattern ''/users/:id/*rest'')" by code_simp
  have "param_names (parsePattern ''/users/:id/*rest'') = [''id'', ''rest'']" by code_simp
  then show "set (param_names (parsePattern ''/users/:id/*rest''))
      \<subseteq> dom [''id'' \<mapsto> ''7'', ''rest'' \<mapsto> ''x/y'', ''other'' \<mapsto> ''z'']"
    by auto
qed

text \<open>
  Slashes around a path do not matter: a request with any number of leading and trailing slashes
  is routed as the path without them.
\<close>

theorem outer_slashes_ignored:
  "Router_match L r m (replicate i (CHR ''/'') @ p @ replicate j (CHR ''/'')) = Router_match L r m p"
  by (simp add: Router_match_def splitPath_pad)

text \<open>
  Registration only extends a table. A request that some route answers gets the same handler and
  parameters after any further registrations, even of patterns that match it more closely.
\<close>

theorem registration_is_stable:
  assumes "route_lookup L (r_routes r) (m, p) = Some rt"
  shows "Router_match L (foldl (\<lambda>r (method, pattern, mw, h). Router_add L r method pattern mw h) r regs) m p =
     Router_match L r m p"
proof -
  let ?new = "map (\<lambda>(method, pattern, mw, h). \<lparr>rt_method = ToUpper L method,
    rt_segments = parsePattern pattern, rt_handler = applyMiddleware h mw\<rparr>) regs"
  have "r_routes (foldl (\<lambda>r (method, pattern, mw, h). Router_add L r method pattern mw h) r regs) =
      foldl (\<lambda>rts rt. rts @ [rt]) (r_routes r) ?new"
    by (induction regs arbitrary: r) (auto simp: Router_add_def)
  with table.look_stable [OF assms, of ?new] assms show ?thesis
    by (simp add: Router_match_lookup)
qed

definition sample_lib :: golib where
  "sample_lib = \<lparr>mapToUpper = id, mapToLower = id, authorityOK = (\<lambda>_. True), cookieValue = (\<lambda>_ _. None),
     Quote = id\<rparr>"

definition sample_router :: "nat Router" where
  "sample_router = \<lparr>r_routes = [\<lparr>rt_method = ''GET'', rt_segments = parsePattern ''/users/:id'', rt_handler = 1\<rparr>],
     r_NotFound = 404, r_MethodNotAllowed = 405\<rparr>"

theorem registration_is_stable_witness:
  "Router_match sample_lib
     (foldl (\<lambda>r (method, pattern, mw, h). Router_add sample_lib r method pattern mw h) sample_router
       [(''GET'', ''/users/me'', [], 2)]) ''get'' ''/users/me'' =
   Router_match sample_lib sample_router ''get'' ''/users/me''"
  by (rule registration_is_stable [where rt = "hd (r_routes sample_router)"]) code_simp

text \<open>
  A new route is reached. After a registration, a request that no earlier route answers, whose
  path the pattern accepts and whose method agrees with the registered one up to case, gets the new
  handler wrapped in the route's middleware.
\<close>

theorem registered_route_answers:
  assumes "route_lookup L (r_routes r) (m, p) = None"
    and "pattern_accepts (parsePattern pattern) (splitPath p)" "ToUpper L method = ToUpper L m"
  shows "Router_match L (Router_add L r method pattern mw h) m p =
     (applyMiddleware h mw, matchSegments (parsePattern pattern) (splitPath p))"
proof -
  let ?rt = "\<lparr>rt_method = ToUpper L method, rt_segments = parsePattern pattern,
    rt_handler = applyMiddleware h mw\<rparr>"
  have "route_hit L ?rt (m, p)" using assms(2,3) by (simp add: route_hit_def)
  with assms(1) table.look_add [of L "r_routes r" ?rt "(m, p)"]
  have "route_lookup L (r_routes (Router_add L r method pattern mw h)) (m, p) = Some ?rt"
    by (simp add: Router_add_def)
  then show ?thesis by (simp add: Router_match_lookup)
qed

theorem registered_route_answers_witness:
  "Router_match sample_lib (Router_add sample_lib sample_router ''post'' ''/users'' [(+) 10] 2) ''POST'' ''users/'' =
     (applyMiddleware 2 [(+) 10], matchSegments (parsePattern ''/users'') (splitPath ''users/''))"
  by (rule registered_route_answers) code_simp+

text \<open>Middleware that records when it is entered and left.\<close>

definition tracing :: "nat \<Rightarrow> ('v, (bool \<times> nat) list) MiddlewareFunc" where
  "tracing i next c w = (case next c (w @ [(True, i)]) of (r, c', w') \<Rightarrow> (r, c', w' @ [(False, i)]))"

text \<open>
  Order of middleware. Middleware given in a list is entered from the first to the last before
  the handler and left from the last to the first after it; here each one records when it is entered
  and left.
\<close>

theorem middleware_order:
  assumes "h c (w @ map (Pair True) is) = (r, c', w')"
  shows "applyMiddleware h (map tracing is) c w = (r, c', w' @ map (Pair False) (rev is))"
  using assms
proof (induction "is" arbitrary: w)
  case Nil
  then show ?case by simp
next
  case (Cons i "is")
  from Cons.IH [of "w @ [(True, i)]"] Cons.prems show ?case by (simp add: tracing_def)
qed

theorem middleware_order_witness:
  "applyMiddleware (\<lambda>c w. (Ret None, c, w)) (map tracing [1, 2]) sample_ctx [] =
     (Ret None, sample_ctx, ([] @ map (Pair True) [1, 2]) @ map (Pair False) (rev [1, 2]))"
  by (rule middleware_order) simp

end
