(* ===== verification/App.thy ===== *)
theory App
  imports Routing
begin

text \<open>
  framework/app.go: the App object, registration through App and Group, and dispatchStream, the
  path every request takes. The state shared by all requests is a record \<open>world\<close>, extended by
  whatever middleware and application add to it: the clock that \<^verbatim>\<open>time.Now\<close> reads (in nanoseconds)
  and the log records written so far. A logger is a number, 0 is \<^verbatim>\<open>slog.Default()\<close>.
\<close>

section \<open>Shared state\<close>

type_synonym logger = nat

datatype log_level = LevelDebug | LevelInfo | LevelWarn | LevelError

datatype logval = LvStr string | LvInt int | LvErr "goerr option" | LvAddr "string option"

datatype logrec = Log logger log_level string "(string \<times> logval) list"

record world =
  w_now :: int
  w_logs :: "logrec list"

definition log_to ::
    "logger \<Rightarrow> log_level \<Rightarrow> string \<Rightarrow> (string \<times> logval) list \<Rightarrow> 'x world_scheme \<Rightarrow> 'x world_scheme" where
  "log_to l lv m attrs w = w\<lparr>w_logs := w_logs w @ [Log l lv m attrs]\<rparr>"

section \<open>The App object\<close>

definition Second :: int where "Second = 1000000000"
definition Minute :: int where "Minute = 60 * Second"
definition Hour :: int where "Hour = 60 * Minute"

lemmas time_defs = Hour_def Minute_def Second_def

record quicConfig =
  qc_MaxIncomingStreams :: int
  qc_MaxIncomingUniStreams :: int
  qc_KeepAlivePeriod :: int
  qc_MaxIdleTimeout :: int
  qc_EnableDatagrams :: bool

record ('v, 'w) App =
  app_router :: "('v, 'w) HandlerFunc Router"
  app_middleware :: "('v, 'w) MiddlewareFunc list"
  app_afterMiddleware :: "('v, 'w) HandlerFunc list"
  app_logger :: logger
  app_quicCfg :: quicConfig

definition App_New :: "'v msgpack \<Rightarrow> ('v, 'w) App" where
  "App_New M =
     \<lparr>app_router = newRouter M, app_middleware = [], app_afterMiddleware = [], app_logger = 0,
      app_quicCfg =
        \<lparr>qc_MaxIncomingStreams = 4096, qc_MaxIncomingUniStreams = 256,
         qc_KeepAlivePeriod = 30 * Second, qc_MaxIdleTimeout = 5 * 60 * Second,
         qc_EnableDatagrams = True\<rparr>\<rparr>"

definition App_Use :: "('v, 'w) App \<Rightarrow> ('v, 'w) MiddlewareFunc list \<Rightarrow> ('v, 'w) App" where
  "App_Use a mw = a\<lparr>app_middleware := app_middleware a @ mw\<rparr>"

definition App_After :: "('v, 'w) App \<Rightarrow> ('v, 'w) HandlerFunc list \<Rightarrow> ('v, 'w) App" where
  "App_After a mw = a\<lparr>app_afterMiddleware := app_afterMiddleware a @ mw\<rparr>"

definition addRoute ::
    "golib \<Rightarrow> ('v, 'w) App \<Rightarrow> string \<Rightarrow> string \<Rightarrow> ('v, 'w) MiddlewareFunc list \<Rightarrow>
       ('v, 'w) HandlerFunc \<Rightarrow> ('v, 'w) App" where
  "addRoute L a method pattern groupMW h =
     a\<lparr>app_router := Router_add L (app_router a) method pattern groupMW h\<rparr>"

definition App_GET :: "golib \<Rightarrow> ('v, 'w) App \<Rightarrow> string \<Rightarrow> ('v, 'w) HandlerFunc \<Rightarrow> ('v, 'w) App" where
  "App_GET L a pattern h = addRoute L a ''GET'' pattern [] h"

definition App_POST :: "golib \<Rightarrow> ('v, 'w) App \<Rightarrow> string \<Rightarrow> ('v, 'w) HandlerFunc \<Rightarrow> ('v, 'w) App" where
  "App_POST L a pattern h = addRoute L a ''POST'' pattern [] h"

definition App_PUT :: "golib \<Rightarrow> ('v, 'w) App \<Rightarrow> string \<Rightarrow> ('v, 'w) HandlerFunc \<Rightarrow> ('v, 'w) App" where
  "App_PUT L a pattern h = addRoute L a ''PUT'' pattern [] h"

definition App_DELETE :: "golib \<Rightarrow> ('v, 'w) App \<Rightarrow> string \<Rightarrow> ('v, 'w) HandlerFunc \<Rightarrow> ('v, 'w) App" where
  "App_DELETE L a pattern h = addRoute L a ''DELETE'' pattern [] h"

definition App_PATCH :: "golib \<Rightarrow> ('v, 'w) App \<Rightarrow> string \<Rightarrow> ('v, 'w) HandlerFunc \<Rightarrow> ('v, 'w) App" where
  "App_PATCH L a pattern h = addRoute L a ''PATCH'' pattern [] h"

text \<open>A Group points to its App; the operations on it take the App and return it updated.\<close>

record ('v, 'w) Group =
  g_prefix :: string
  g_middleware :: "('v, 'w) MiddlewareFunc list"

definition App_Group :: "string \<Rightarrow> ('v, 'w) MiddlewareFunc list \<Rightarrow> ('v, 'w) Group" where
  "App_Group pfx mw = \<lparr>g_prefix = pfx, g_middleware = mw\<rparr>"

definition Group_Use :: "('v, 'w) Group \<Rightarrow> ('v, 'w) MiddlewareFunc list \<Rightarrow> ('v, 'w) Group" where
  "Group_Use g mw = g\<lparr>g_middleware := g_middleware g @ mw\<rparr>"

definition Group_handle ::
    "golib \<Rightarrow> ('v, 'w) App \<Rightarrow> ('v, 'w) Group \<Rightarrow> string \<Rightarrow> string \<Rightarrow> ('v, 'w) HandlerFunc \<Rightarrow>
       ('v, 'w) App" where
  "Group_handle L a g method path h = addRoute L a method (g_prefix g @ path) (g_middleware g) h"

definition Group_GET ::
    "golib \<Rightarrow> ('v, 'w) App \<Rightarrow> ('v, 'w) Group \<Rightarrow> string \<Rightarrow> ('v, 'w) HandlerFunc \<Rightarrow> ('v, 'w) App" where
  "Group_GET L a g path h = Group_handle L a g ''GET'' path h"

definition Group_POST ::
    "golib \<Rightarrow> ('v, 'w) App \<Rightarrow> ('v, 'w) Group \<Rightarrow> string \<Rightarrow> ('v, 'w) HandlerFunc \<Rightarrow> ('v, 'w) App" where
  "Group_POST L a g path h = Group_handle L a g ''POST'' path h"

definition Group_PUT ::
    "golib \<Rightarrow> ('v, 'w) App \<Rightarrow> ('v, 'w) Group \<Rightarrow> string \<Rightarrow> ('v, 'w) HandlerFunc \<Rightarrow> ('v, 'w) App" where
  "Group_PUT L a g path h = Group_handle L a g ''PUT'' path h"

definition Group_DELETE ::
    "golib \<Rightarrow> ('v, 'w) App \<Rightarrow> ('v, 'w) Group \<Rightarrow> string \<Rightarrow> ('v, 'w) HandlerFunc \<Rightarrow> ('v, 'w) App" where
  "Group_DELETE L a g path h = Group_handle L a g ''DELETE'' path h"

definition Group_PATCH ::
    "golib \<Rightarrow> ('v, 'w) App \<Rightarrow> ('v, 'w) Group \<Rightarrow> string \<Rightarrow> ('v, 'w) HandlerFunc \<Rightarrow> ('v, 'w) App" where
  "Group_PATCH L a g path h = Group_handle L a g ''PATCH'' path h"

definition App_Logger :: "('v, 'w) App \<Rightarrow> logger" where
  "App_Logger a = app_logger a"

definition App_SetLogger :: "('v, 'w) App \<Rightarrow> logger \<Rightarrow> ('v, 'w) App" where
  "App_SetLogger a l = a\<lparr>app_logger := l\<rparr>"

definition App_SetQUICConfig :: "('v, 'w) App \<Rightarrow> quicConfig \<Rightarrow> ('v, 'w) App" where
  "App_SetQUICConfig a cfg = a\<lparr>app_quicCfg := cfg\<rparr>"

text \<open>The body of \<^verbatim>\<open>ListenWithPKI\<close> is \<^verbatim>\<open>return nil\<close>.\<close>

definition App_ListenWithPKI ::
    "('v, 'w) App \<Rightarrow> string \<Rightarrow> string \<Rightarrow> string \<Rightarrow> string list \<Rightarrow> goerr option" where
  "App_ListenWithPKI a nativeAddr wtAddr nodeID hosts = None"

definition prepend :: "string \<Rightarrow> string list \<Rightarrow> string list" where
  "prepend elem xs = elem # filter (\<lambda>s. s \<noteq> elem) xs"

section \<open>The dispatcher\<close>

text \<open>The loop over the after-middleware: results are dropped, a panic is not caught.\<close>

fun runAfter ::
    "('v, 'w) HandlerFunc list \<Rightarrow> 'v Context \<Rightarrow> 'w \<Rightarrow> unit outcome \<times> 'v Context \<times> 'w" where
  "runAfter [] c w = (Ret (), c, w)"
| "runAfter (after # rest) c w =
     (case after c w of
        (Panic v, c', w') \<Rightarrow> (Panic v, c', w')
      | (Ret _, c', w') \<Rightarrow> runAfter rest c' w')"

text \<open>The Context and the handler for a decoded request.\<close>

definition request_url :: "golib \<Rightarrow> Request \<Rightarrow> url" where
  "request_url L req =
     (case url_Parse L (req_Path req) of
        None \<Rightarrow> \<lparr>url_Path = req_Path req, url_RawQuery = []\<rparr>
      | Some u \<Rightarrow> u)"

definition route_request ::
    "golib \<Rightarrow> ('v, 'w) App \<Rightarrow> gocontext option \<Rightarrow> peer \<Rightarrow> gostream \<Rightarrow> Request \<Rightarrow>
       ('v, 'w) HandlerFunc \<times> 'v Context" where
  "route_request L a ctx peer stream req =
     (let qfCtx = newContext ctx req peer stream;
          u = request_url L req;
          (handler, params) = Router_match L (app_router a) (req_Method req) (url_Path u);
          qfCtx = setQueryParams (setParams qfCtx params) (ParseQuery (url_RawQuery u))
      in (applyMiddleware handler (app_middleware a), qfCtx))"

text \<open>What follows the handler: an error frame if it failed without sending, and the log.\<close>

definition finish_request ::
    "'v msgpack \<Rightarrow> ('v, 'x world_scheme) App \<Rightarrow> Request \<Rightarrow> goerr option \<Rightarrow> 'v Context \<Rightarrow>
       'x world_scheme \<Rightarrow> 'v Context \<times> 'x world_scheme" where
  "finish_request M a req err c w =
     (case err of
        None \<Rightarrow> (c, w)
      | Some e \<Rightarrow>
          (let c' = (if \<not> ctx_sent c then
                       c\<lparr>ctx_stream := snd (WriteError M (ctx_stream c) (req_ID req)
                           StatusInternalServerError (err_text e) [])\<rparr>
                     else c)
           in (c', log_to (app_logger a) LevelError ''quicframe: handler returned error''
                     [(''method'', LvStr (req_Method req)), (''path'', LvStr (req_Path req)),
                      (''err'', LvErr (Some e))] w)))"

definition dispatchRequest ::
    "golib \<Rightarrow> 'v msgpack \<Rightarrow> ('v, 'x world_scheme) App \<Rightarrow> gocontext option \<Rightarrow> peer \<Rightarrow> gostream \<Rightarrow>
       Request \<Rightarrow> 'x world_scheme \<Rightarrow> unit outcome \<times> gostream \<times> 'x world_scheme" where
  "dispatchRequest L M a ctx peer stream req w =
     (let (h, qfCtx) = route_request L a ctx peer stream req
      in case h qfCtx w of
           (Panic v, c, w') \<Rightarrow> (Panic v, ctx_stream c, w')
         | (Ret err, c, w') \<Rightarrow>
             (let (c', w'') = finish_request M a req err c w'
              in case runAfter (app_afterMiddleware a) c' w'' of
                   (r, c'', w''') \<Rightarrow> (r, ctx_stream c'', w''')))"

definition dispatchStream ::
    "golib \<Rightarrow> 'v msgpack \<Rightarrow> ('v, 'x world_scheme) App \<Rightarrow> gocontext option \<Rightarrow> peer \<Rightarrow> gostream \<Rightarrow>
       'x world_scheme \<Rightarrow> unit outcome \<times> gostream \<times> 'x world_scheme" where
  "dispatchStream L M a ctx peer stream w =
     (case ReadFrame stream of
        (Inl err, s) \<Rightarrow>
          (Ret (), s, log_to (app_logger a) LevelDebug ''quicframe: read frame error''
             [(''err'', LvErr (Some err))] w)
      | (Inr (ft, data), s) \<Rightarrow>
          if ft = FrameTypePing then
            (Ret (), snd (WriteFrame M s FrameTypePong (PPing \<lparr>ping_Timestamp = 0\<rparr>)), w)
          else if ft \<noteq> FrameTypeRequest then
            (Ret (), s, log_to (app_logger a) LevelWarn ''quicframe: unexpected frame type from client''
               [(''type'', LvInt (uint ft))] w)
          else
            (case DecodeRequest M data of
               Inl err \<Rightarrow>
                 (Ret (), snd (WriteError M s [] StatusBadRequest ''malformed request frame'' []),
                  log_to (app_logger a) LevelError ''quicframe: decode request''
                    [(''err'', LvErr (Some err))] w)
             | Inr req \<Rightarrow> dispatchRequest L M a ctx peer s req w))"

end
