(* ===== verification/Dispatch.thy ===== *)
theory Dispatch
  imports App
begin

text \<open>
  What the dispatcher guarantees for every App whose handlers only use the Context's calls:
  the shape of the reply, the error frame after a failed handler, the answers to frames that
  are not requests, and how the request path is parsed before routing.
\<close>

section \<open>Handlers and tables within a contract\<close>

definition router_within ::
    "('v Context \<Rightarrow> 'v Context \<Rightarrow> bool) \<Rightarrow> ('v, 'w) HandlerFunc Router \<Rightarrow> bool" where
  "router_within R r \<longleftrightarrow>
     list_all (\<lambda>rt. handler_within R (rt_handler rt)) (r_routes r) \<and>
     handler_within R (r_NotFound r) \<and> handler_within R (r_MethodNotAllowed r)"

definition app_within :: "('v Context \<Rightarrow> 'v Context \<Rightarrow> bool) \<Rightarrow> ('v, 'w) App \<Rightarrow> bool" where
  "app_within R a \<longleftrightarrow>
     router_within R (app_router a) \<and> list_all (middleware_within R) (app_middleware a)"

lemma error_handler_within: "handler_within (api_reach M) (error_handler M code msg)"
  unfolding handler_within_def error_handler_def
  by (auto split: prod.splits intro: api_reach_call [where op = "OpError code m []" for m])

lemma newRouter_within: "router_within (api_reach M) (newRouter M)"
  by (simp add: router_within_def newRouter_def error_handler_within)

lemma Router_match_within:
  assumes "router_within R r"
  shows "handler_within R (fst (Router_match L r m p))"
proof -
  have "handler_within R (rt_handler rt)" if "route_lookup L (r_routes r) (m, p) = Some rt" for rt
    using that assms
    by (auto simp: route_lookup_def router_within_def find_Some_iff list_all_length)
  with assms show ?thesis
    by (auto simp: Router_match_def matchRoutes_lookup router_within_def split: option.splits)
qed

context handler_contract
begin

lemma add_within:
  assumes "router_within R r" "list_all (middleware_within R) mw" "handler_within R h"
  shows "router_within R (Router_add L r m p mw h)"
  using assms by (simp add: router_within_def Router_add_def within_applyMiddleware)

lemma addRoute_within:
  assumes "app_within R a" "list_all (middleware_within R) mw" "handler_within R h"
  shows "app_within R (addRoute L a m p mw h)"
  using assms by (simp add: app_within_def addRoute_def add_within)

lemma Use_within:
  "app_within R a \<Longrightarrow> list_all (middleware_within R) mw \<Longrightarrow> app_within R (App_Use a mw)"
  by (simp add: app_within_def App_Use_def)

lemma After_within: "app_within R a \<Longrightarrow> app_within R (App_After a mw)"
  by (simp add: app_within_def App_After_def)

lemma route_request_within:
  assumes "app_within R a"
  shows "handler_within R (fst (route_request L a ctx peer s req))"
  using assms Router_match_within [of R "app_router a" L]
  by (auto simp: route_request_def app_within_def Let_def split: prod.splits
      intro!: within_applyMiddleware) (metis fst_conv)

end

lemma App_New_within: "app_within (api_reach M) (App_New M)"
  by (simp add: app_within_def App_New_def newRouter_within)

lemma route_request_ctx:
  assumes "route_request L a ctx peer s req = (h, c)"
  shows "ctx_Request c = req" "ctx_stream c = s" "ctx_writer c = None" "\<not> ctx_sent c"
    "ctx_conn c = peer" "ctx_locals c = Map.empty" "ctx_resHeaders c = None"
    "ctx_params c = snd (Router_match L (app_router a) (req_Method req) (url_Path (request_url L req)))"
    "ctx_queryParams c = ParseQuery (url_RawQuery (request_url L req))"
    "h = applyMiddleware (fst (Router_match L (app_router a) (req_Method req)
           (url_Path (request_url L req)))) (app_middleware a)"
  using assms
  by (auto simp: route_request_def newContext_def setParams_def setQueryParams_def Let_def
      split: prod.splits)

section \<open>The shape of a reply\<close>

text \<open>After-middleware that writes nothing to the stream.\<close>

definition quiet :: "('v, 'w) HandlerFunc \<Rightarrow> bool" where
  "quiet h \<longleftrightarrow> handler_within (\<lambda>c c'. ctx_stream c' = ctx_stream c) h"

lemma runAfter_quiet:
  "list_all quiet hs \<Longrightarrow> runAfter hs c w = (r, c', w') \<Longrightarrow> ctx_stream c' = ctx_stream c"
proof (induction hs arbitrary: c w)
  case Nil
  then show ?case by simp
next
  case (Cons h hs)
  obtain r1 c1 w1 where h: "h c w = (r1, c1, w1)" by (cases "h c w")
  with Cons.prems have "ctx_stream c1 = ctx_stream c"
    by (auto simp: quiet_def dest: handler_withinD)
  with Cons h show ?case by (cases r1) auto
qed

lemma finish_request_inv:
  assumes inv: "reply_inv M t0 c rep" and "ctx_Request c = req"
    and f: "finish_request M a req err c w = (c', w')"
  shows "\<exists>rep'. reply_shape (req_ID req) rep' \<and> list_all (sendable M) (reply_msgs (req_ID req) rep') \<and>
    tx (ctx_stream c') = t0 @ wire_bytes M (reply_msgs (req_ID req) rep')"
proof (cases "err = None \<or> ctx_sent c")
  case True
  with f have "ctx_stream c' = ctx_stream c"
    by (auto simp: finish_request_def Let_def split: option.splits)
  with inv assms(2) show ?thesis by (auto simp: reply_inv_def)
next
  case False
  then obtain e where e: "err = Some e" "\<not> ctx_sent c" by auto
  with inv have inv0: "reply_inv M t0 c NoReply" using reply_inv_unsent by blast
  define ef where "ef = \<lparr>ef_ID = req_ID req, ef_Code = StatusInternalServerError,
    ef_Message = err_text e, ef_Data = []\<rparr>"
  obtain r s where s: "WriteFrame M (ctx_stream c) FrameTypeError (PErrorFrame ef) = (r, s)"
    by (cases "WriteFrame M (ctx_stream c) FrameTypeError (PErrorFrame ef)")
  have c': "ctx_stream c' = s"
    using f e s by (auto simp: finish_request_def WriteError_def ef_def Let_def)
  note first = reply_inv_first [OF inv0, of "MErr ef", simplified, OF s]
  show ?thesis
  proof (cases "sendable M (MErr ef)")
    case True
    with first c' show ?thesis by (intro exI [where x = "OneError ef"]) (simp add: ef_def)
  next
    case no: False
    with first c' inv0 show ?thesis by (intro exI [where x = NoReply]) (simp add: reply_inv_def)
  qed
qed

lemma dispatchRequest_reply:
  assumes app: "app_within (api_reach M) a" "list_all quiet (app_afterMiddleware a)"
    and h: "healthy s" and d: "dispatchRequest L M a ctx peer s req w = (r, s', w')"
  shows "\<exists>rep. reply_shape (req_ID req) rep \<and> list_all (sendable M) (reply_msgs (req_ID req) rep) \<and>
    tx s' = tx s @ wire_bytes M (reply_msgs (req_ID req) rep)"
proof -
  obtain hd c where rr: "route_request L a ctx peer s req = (hd, c)"
    by (cases "route_request L a ctx peer s req")
  note ctx = route_request_ctx [OF rr]
  have "handler_within (api_reach M) hd"
    using api.route_request_within [OF app(1)] rr by (metis fst_conv)
  obtain r1 c1 w1 where hc: "hd c w = (r1, c1, w1)" by (cases "hd c w")
  then have reach: "api_reach M c c1"
    using \<open>handler_within (api_reach M) hd\<close> by (blast dest: handler_withinD)
  have "reply_inv M (tx s) c NoReply" using reply_inv_start [of c M] ctx h by simp
  then obtain rep where inv: "reply_inv M (tx s) c1 rep"
    using reply_inv_reach [OF reach] by blast
  have req: "ctx_Request c1 = req"
    using api_reach_kept [OF reach] ctx(1) by (simp add: ctx_kept_def)
  show ?thesis
  proof (cases r1)
    case (Panic v)
    with d rr hc have "s' = ctx_stream c1" by (simp add: dispatchRequest_def)
    with inv req show ?thesis by (auto simp: reply_inv_def)
  next
    case (Ret err)
    obtain c2 w2 where f: "finish_request M a req err c1 w1 = (c2, w2)"
      by (cases "finish_request M a req err c1 w1")
    obtain r3 c3 w3 where ra: "runAfter (app_afterMiddleware a) c2 w2 = (r3, c3, w3)"
      by (cases "runAfter (app_afterMiddleware a) c2 w2")
    from d rr hc Ret f ra have "s' = ctx_stream c3" by (simp add: dispatchRequest_def)
    with runAfter_quiet [OF app(2) ra] have "s' = ctx_stream c2" by simp
    with finish_request_inv [OF inv req f] show ?thesis by auto
  qed
qed

lemma dispatchStream_request:
  assumes "ReadFrame s = (Inr (FrameTypeRequest, data), s1)" "DecodeRequest M data = Inr req"
  shows "dispatchStream L M a ctx peer s w = dispatchRequest L M a ctx peer s1 req w"
  using assms by (simp add: dispatchStream_def FrameType_defs)

lemma ReadFrame_stream:
  "ReadFrame s = (r, s1) \<Longrightarrow> tx s1 = tx s \<and> healthy s1 = healthy s"
  by (auto simp: ReadFrame_def healthy_def Let_def dest!: io_ReadFull_tx
      split: prod.splits sum.splits if_splits)

section \<open>Request paths\<close>

text \<open>An absolute path without an authority and without characters that url.Parse interprets.\<close>

definition plain_path :: "string \<Rightarrow> bool" where
  "plain_path p \<longleftrightarrow>
     HasPrefix p ''/'' \<and> \<not> HasPrefix p ''//'' \<and> \<not> list_ex is_ctl p \<and>
     list_all (\<lambda>c. c \<noteq> CHR ''%'' \<and> c \<noteq> CHR ''?'' \<and> c \<noteq> CHR ''#'') p"

definition plain_query :: "string \<Rightarrow> bool" where
  "plain_query q \<longleftrightarrow> \<not> list_ex is_ctl q \<and> CHR ''#'' \<notin> set q"

lemma unescape_plain: "CHR ''%'' \<notin> set s \<Longrightarrow> unescape False s = Some s"
  by (induction s) auto

lemma Cut1_absent: "c \<notin> set s \<Longrightarrow> Cut1 c s = (s, [])"
  unfolding Cut1_def by (induction s) auto

lemma Cut1_present: "c \<notin> set s \<Longrightarrow> Cut1 c (s @ c # t) = (s, t)"
  unfolding Cut1_def by (induction s) auto

lemma url_parse_plain:
  assumes p: "plain_path p" and raw: "raw = p \<and> q = [] \<or> raw = p @ CHR ''?'' # q \<and> \<not> list_ex is_ctl q"
  shows "url_parse L raw = Some \<lparr>url_Path = p, url_RawQuery = q\<rparr>"
proof -
  from p obtain p' where p': "p = CHR ''/'' # p'"
    by (auto simp: plain_path_def HasPrefix_def take_Suc split: list.splits) (cases p; auto)
  have sets: "CHR ''?'' \<notin> set p" "CHR ''%'' \<notin> set p"
    using p by (auto simp: plain_path_def list_all_iff)
  have ctl: "\<not> list_ex is_ctl raw" using p raw by (auto simp: plain_path_def is_ctl_def)
  have sch: "getScheme raw [] raw = Some ([], raw)"
    using raw p' by (auto simp: is_alpha_def is_digit_def)
  have cut: "Cut1 (CHR ''?'') raw = (p, q)"
    using raw sets(1) by (auto simp: Cut1_absent Cut1_present)
  have "raw \<noteq> ''*''" "HasPrefix p ''/''" "\<not> HasPrefix p ''//''"
    using raw p' p by (auto simp: plain_path_def)
  then show ?thesis
    using ctl sch cut sets(2)
    by (simp add: url_parse_def url_hier_def url_setPath_def unescape_plain)
qed

lemma url_Parse_plain:
  assumes "plain_path p"
  shows "url_Parse L p = Some \<lparr>url_Path = p, url_RawQuery = []\<rparr>"
    and "plain_query q \<Longrightarrow>
         url_Parse L (p @ CHR ''?'' # q) = Some \<lparr>url_Path = p, url_RawQuery = q\<rparr>"
proof -
  from assms have f: "CHR ''#'' \<notin> set p" by (auto simp: plain_path_def list_all_iff)
  then show "url_Parse L p = Some \<lparr>url_Path = p, url_RawQuery = []\<rparr>"
    using url_parse_plain [OF assms, of p "[]"] by (simp add: url_Parse_def Cut1_absent)
  assume q: "plain_query q"
  then have "CHR ''#'' \<notin> set (p @ CHR ''?'' # q)" using f by (auto simp: plain_query_def)
  then show "url_Parse L (p @ CHR ''?'' # q) = Some \<lparr>url_Path = p, url_RawQuery = q\<rparr>"
    using url_parse_plain [OF assms, of "p @ CHR ''?'' # q" q] q
    by (simp add: url_Parse_def Cut1_absent plain_query_def)
qed

section \<open>What a handler's outcome becomes\<close>

lemma dispatchRequest_Ret:
  assumes "route_request L a ctx peer s req = (h, c)" "h c w = (Ret err, c1, w1)"
    and "list_all quiet (app_afterMiddleware a)" "dispatchRequest L M a ctx peer s req w = (r, s', w')"
  shows "s' = ctx_stream (fst (finish_request M a req err c1 w1))"
proof -
  obtain c2 w2 where f: "finish_request M a req err c1 w1 = (c2, w2)"
    by (cases "finish_request M a req err c1 w1")
  obtain r3 c3 w3 where ra: "runAfter (app_afterMiddleware a) c2 w2 = (r3, c3, w3)"
    by (cases "runAfter (app_afterMiddleware a) c2 w2")
  from assms f ra have "s' = ctx_stream c3" by (simp add: dispatchRequest_def)
  with runAfter_quiet [OF assms(3) ra] f show ?thesis by simp
qed

lemma unsent_unwritten:
  assumes "app_within (api_reach M) a" "healthy s" "route_request L a ctx peer s req = (h, c)"
    and "h c w = (r, c1, w1)" "\<not> ctx_sent c1"
  shows "tx (ctx_stream c1) = tx s" "healthy (ctx_stream c1)"
proof -
  note ctx = route_request_ctx [OF assms(3)]
  have "handler_within (api_reach M) h"
    using api.route_request_within [OF assms(1)] assms(3) by (metis fst_conv)
  then have reach: "api_reach M c c1" using assms(4) by (blast dest: handler_withinD)
  have "reply_inv M (tx s) c NoReply" using reply_inv_start [of c M] ctx assms(2) by simp
  then obtain rep where inv: "reply_inv M (tx s) c1 rep" using reply_inv_reach [OF reach] by blast
  with reply_inv_unsent assms(5) have "rep = NoReply" by blast
  with inv show "tx (ctx_stream c1) = tx s" "healthy (ctx_stream c1)"
    by (simp_all add: reply_inv_def)
qed

lemma send_handler_within:
  "handler_within (api_reach M) (\<lambda>c w. case Ctx_Send M c st b of (r, c') \<Rightarrow> (Ret r, c', w))"
  unfolding handler_within_def
  by (auto split: prod.splits intro: api_reach_call [where op = "OpSend st b"])

lemma dispatchStream_reply:
  assumes "app_within (api_reach M) a" "list_all quiet (app_afterMiddleware a)" "healthy s"
    and "ReadFrame s = (Inr (FrameTypeRequest, data), s1)" "DecodeRequest M data = Inr req"
    and "dispatchStream L M a ctx peer s w = (r, s', w')"
  shows "\<exists>rep. reply_shape (req_ID req) rep \<and>
    tx s' = tx s @ wire_bytes M (reply_msgs (req_ID req) rep) \<and>
    (msgs_below_4GiB M (reply_msgs (req_ID req) rep) \<longrightarrow>
       fst (ReadFrames (s\<lparr>rx := drop (length (tx s)) (tx s')\<rparr>)) =
         map (msg_frame M) (reply_msgs (req_ID req) rep))"
proof -
  note s1 = ReadFrame_stream [OF assms(4)]
  have d: "dispatchRequest L M a ctx peer s1 req w = (r, s', w')"
    using assms(6) unfolding dispatchStream_request [OF assms(4,5)] .
  have "healthy s1" using s1 assms(3) by simp
  from dispatchRequest_reply [OF assms(1,2) this d] s1 obtain rep where
      "reply_shape (req_ID req) rep" "list_all (sendable M) (reply_msgs (req_ID req) rep)"
      "tx s' = tx s @ wire_bytes M (reply_msgs (req_ID req) rep)"
    by auto
  then show ?thesis by (intro exI [where x = rep]) (auto intro: ReadFrames_wire_bytes)
qed

section \<open>Properties of the dispatcher\<close>

definition sample_world :: world where
  "sample_world = \<lparr>w_now = 0, w_logs = []\<rparr>"

definition sample_app :: "(string, world) App" where
  "sample_app = App_GET sample_lib (App_New sample_msgpack) ''/a''
     (\<lambda>c w. case Ctx_Send sample_msgpack c 200 [1] of (r, c') \<Rightarrow> (Ret r, c', w))"

lemma sample_app_within: "app_within (api_reach sample_msgpack) sample_app"
  unfolding sample_app_def App_GET_def
  by (rule api.addRoute_within) (simp_all add: App_New_within send_handler_within)

lemma sample_app_after: "app_afterMiddleware sample_app = []"
  by (simp add: sample_app_def App_GET_def addRoute_def App_New_def)

lemma sample_decode: "DecodeRequest sample_msgpack (str_bytes ''/a'') = Inr sample_req"
  by (simp add: DecodeRequest_def wrap_err_def sample_msgpack_def sample_req_def str_bytes_def bytes_str_def
      char_of_def bit_iff_odd)

text \<open>A stream on which a client has sent the frame of type \<open>ft\<close> with the given payload.\<close>

definition framed :: "FrameType \<Rightarrow> string \<Rightarrow> gostream" where
  "framed ft p = fresh_stream\<lparr>rx := encode_frame (ft, str_bytes p)\<rparr>"

lemma ReadFrame_framed:
  "length p < 100 \<Longrightarrow> ReadFrame (framed ft p) = (Inr (ft, str_bytes p), (framed ft p)\<lparr>rx := []\<rparr>)"
  by (rule ReadFrame_encode) (simp_all add: framed_def frame_fits_def str_bytes_def)

lemma healthy_framed: "healthy (framed ft p)"
  by (simp add: framed_def fresh_stream_def healthy_def)

text \<open>
  C1: One reply per request, for the whole server. For every App whose handlers and middleware use
  only the Context's calls, and whose after-middleware writes nothing, dispatching a stream that takes every
  write and holds a well-formed request writes a reply of the specified shape: nothing, one response, one error, or one
  numbered stream, all with the request's ID. This includes the error frame the dispatcher itself
  adds after a failed handler, and handlers that panic.
\<close>

theorem dispatch_one_reply:
  assumes "app_within (api_reach M) a" "list_all quiet (app_afterMiddleware a)" "healthy s"
    and "ReadFrame s = (Inr (FrameTypeRequest, data), s1)" "DecodeRequest M data = Inr req"
    and "dispatchStream L M a ctx peer s w = (r, s', w')"
  shows "\<exists>rep. reply_shape (req_ID req) rep \<and>
    tx s' = tx s @ wire_bytes M (reply_msgs (req_ID req) rep) \<and>
    (msgs_below_4GiB M (reply_msgs (req_ID req) rep) \<longrightarrow>
       fst (ReadFrames (s\<lparr>rx := drop (length (tx s)) (tx s')\<rparr>)) =
         map (msg_frame M) (reply_msgs (req_ID req) rep))"
  using assms by (rule dispatchStream_reply)

definition dispatch_sample :: "FrameType \<Rightarrow> unit outcome \<times> gostream \<times> world" where
  "dispatch_sample ft =
     dispatchStream sample_lib sample_msgpack sample_app None sample_peer (framed ft ''/a'') sample_world"

theorem dispatch_one_reply_witness:
  "\<exists>rep. reply_shape (req_ID sample_req) rep \<and>
    tx (fst (snd (dispatch_sample FrameTypeRequest))) =
      tx (framed FrameTypeRequest ''/a'') @ wire_bytes sample_msgpack (reply_msgs (req_ID sample_req) rep) \<and>
    (msgs_below_4GiB sample_msgpack (reply_msgs (req_ID sample_req) rep) \<longrightarrow>
       fst (ReadFrames ((framed FrameTypeRequest ''/a'')\<lparr>rx := drop (length (tx (framed FrameTypeRequest ''/a'')))
           (tx (fst (snd (dispatch_sample FrameTypeRequest))))\<rparr>)) =
         map (msg_frame sample_msgpack) (reply_msgs (req_ID sample_req) rep))"
proof (rule dispatch_one_reply)
  show "app_within (api_reach sample_msgpack) sample_app" by (rule sample_app_within)
  show "list_all quiet (app_afterMiddleware sample_app)" by (simp add: sample_app_after)
  show "healthy (framed FrameTypeRequest ''/a'')" by (rule healthy_framed)
  show "ReadFrame (framed FrameTypeRequest ''/a'') =
      (Inr (FrameTypeRequest, str_bytes ''/a''), (framed FrameTypeRequest ''/a'')\<lparr>rx := []\<rparr>)"
    by (rule ReadFrame_framed) simp
  show "DecodeRequest sample_msgpack (str_bytes ''/a'') = Inr sample_req" by (rule sample_decode)
  show "dispatchStream sample_lib sample_msgpack sample_app None sample_peer
      (framed FrameTypeRequest ''/a'') sample_world =
      (fst (dispatch_sample FrameTypeRequest), fst (snd (dispatch_sample FrameTypeRequest)),
       snd (snd (dispatch_sample FrameTypeRequest)))"
    by (simp add: dispatch_sample_def)
qed

text \<open>
  Frames that are not requests run no handler. A ping is answered with one pong frame and
  nothing else happens; a frame of any other type is answered with nothing and logged as a warning;
  a request frame that does not decode is answered with one error frame of status 400 without an ID
  and logged as an error.
\<close>

theorem dispatch_non_requests:
  assumes "healthy s" "ReadFrame s = (Inr (ft, data), s1)" "dispatchStream L M a ctx peer s w = (r, s', w')"
    and "ft = FrameTypeRequest \<Longrightarrow> DecodeRequest M data = Inl err"
    and "Marshal M (PPing \<lparr>ping_Timestamp = 0\<rparr>) = Inr pong" "length pong < 1000"
    and "sendable M (MErr \<lparr>ef_ID = [], ef_Code = 400, ef_Message = ''malformed request frame'', ef_Data = []\<rparr>)"
  shows "r = Ret () \<and>
    (if ft = FrameTypePing then tx s' = tx s @ encode_frame (FrameTypePong, pong) \<and> w' = w
     else if ft = FrameTypeRequest then
       tx s' = tx s @ wire_bytes M [MErr \<lparr>ef_ID = [], ef_Code = 400, ef_Message = ''malformed request frame'',
                                          ef_Data = []\<rparr>] \<and>
       w' = log_to (app_logger a) LevelError ''quicframe: decode request'' [(''err'', LvErr (Some err))] w
     else tx s' = tx s \<and>
       w' = log_to (app_logger a) LevelWarn ''quicframe: unexpected frame type from client''
              [(''type'', LvInt (uint ft))] w)"
proof -
  note s1 = ReadFrame_stream [OF assms(2)]
  have h1: "healthy s1" using s1 assms(1) by simp
  let ?m = "MErr \<lparr>ef_ID = [], ef_Code = 400, ef_Message = ''malformed request frame'', ef_Data = []\<rparr>"
  have pong: "WriteFrame M s1 FrameTypePong (PPing \<lparr>ping_Timestamp = 0\<rparr>) =
      (None, s1\<lparr>tx := tx s1 @ encode_frame (FrameTypePong, pong)\<rparr>)"
    using frame_fits_frameLen(1) [of FrameTypePong pong] assms(6)
    by (intro WriteFrame_healthy [OF h1 assms(5)]) (simp add: frame_fits_def)
  consider "ft = FrameTypePing" | "ft = FrameTypeRequest" | "ft \<noteq> FrameTypePing" "ft \<noteq> FrameTypeRequest"
    by blast
  then show ?thesis
  proof cases
    case 1
    with assms(2,3) pong s1 show ?thesis by (auto simp: dispatchStream_def)
  next
    case 2
    with assms(2,3,4,7) s1 WriteFrame_msg [OF h1, of M ?m] show ?thesis
      by (auto simp: dispatchStream_def WriteError_def FrameType_defs StatusBadRequest_def)
  next
    case 3
    with assms(2,3) s1 show ?thesis by (auto simp: dispatchStream_def)
  qed
qed

theorem dispatch_non_requests_witness:
  "fst (dispatch_sample FrameTypePing) = Ret () \<and>
    (if FrameTypePing = FrameTypePing then
       tx (fst (snd (dispatch_sample FrameTypePing))) =
         tx (framed FrameTypePing ''/a'') @ encode_frame (FrameTypePong, [0]) \<and>
       snd (snd (dispatch_sample FrameTypePing)) = sample_world
     else if FrameTypePing = FrameTypeRequest then
       tx (fst (snd (dispatch_sample FrameTypePing))) = tx (framed FrameTypePing ''/a'') @
         wire_bytes sample_msgpack
           [MErr \<lparr>ef_ID = [], ef_Code = 400, ef_Message = ''malformed request frame'', ef_Data = []\<rparr>] \<and>
       snd (snd (dispatch_sample FrameTypePing)) = log_to (app_logger sample_app) LevelError
         ''quicframe: decode request'' [(''err'', LvErr (Some io_EOF))] sample_world
     else tx (fst (snd (dispatch_sample FrameTypePing))) = tx (framed FrameTypePing ''/a'') \<and>
       snd (snd (dispatch_sample FrameTypePing)) = log_to (app_logger sample_app) LevelWarn
         ''quicframe: unexpected frame type from client'' [(''type'', LvInt (uint FrameTypePing))] sample_world)"
  by (rule dispatch_non_requests [where data = "str_bytes ''/a''" and L = sample_lib and ctx = None
        and peer = sample_peer and ?s1.0 = "(framed FrameTypePing ''/a'')\<lparr>rx := []\<rparr>"])
    (simp_all add: ReadFrame_framed healthy_framed dispatch_sample_def FrameType_defs sendable_def
      sample_simps)

text \<open>
  A failed handler is reported. When the handler chain returns an error without having sent
  anything, the peer receives exactly one error frame, with the request's ID, status 500 and the
  text of the error.
\<close>

theorem handler_error_reported:
  assumes "app_within (api_reach M) a" "list_all quiet (app_afterMiddleware a)" "healthy s"
    and "route_request L a ctx peer s req = (h, c)" "h c w = (Ret (Some e), c1, w1)" "\<not> ctx_sent c1"
    and "dispatchRequest L M a ctx peer s req w = (r, s', w')"
    and "sendable M (MErr \<lparr>ef_ID = req_ID req, ef_Code = 500, ef_Message = err_text e, ef_Data = []\<rparr>)"
  shows "tx s' = tx s @ wire_bytes M
    [MErr \<lparr>ef_ID = req_ID req, ef_Code = 500, ef_Message = err_text e, ef_Data = []\<rparr>]"
proof -
  note c1 = unsent_unwritten [OF assms(1,3,4,5,6)]
  have "s' = ctx_stream (fst (finish_request M a req (Some e) c1 w1))"
    by (rule dispatchRequest_Ret [OF assms(4,5,2,7)])
  with assms(6,8) c1 WriteFrame_msg [OF c1(2), of M "MErr \<lparr>ef_ID = req_ID req, ef_Code = 500,
      ef_Message = err_text e, ef_Data = []\<rparr>"]
  show ?thesis
    by (simp add: finish_request_def WriteError_def StatusInternalServerError_def)
qed

definition failing_app :: "(string, world) App" where
  "failing_app = App_Use (App_New sample_msgpack) [\<lambda>next c w. (Ret (Some (Err ''no'')), c, w)]"

lemma failing_app_within: "app_within (api_reach sample_msgpack) failing_app"
  unfolding failing_app_def
  by (rule api.Use_within) (simp_all add: App_New_within middleware_within_def api.within_return)

theorem handler_error_reported_witness:
  "tx (fst (snd (dispatchRequest sample_lib sample_msgpack failing_app None sample_peer fresh_stream
       sample_req sample_world))) =
   tx fresh_stream @ wire_bytes sample_msgpack
     [MErr \<lparr>ef_ID = req_ID sample_req, ef_Code = 500, ef_Message = err_text (Err ''no''), ef_Data = []\<rparr>]"
proof (rule handler_error_reported [OF failing_app_within])
  show "route_request sample_lib failing_app None sample_peer fresh_stream sample_req =
      (fst (route_request sample_lib failing_app None sample_peer fresh_stream sample_req),
       snd (route_request sample_lib failing_app None sample_peer fresh_stream sample_req))"
    by simp
  let ?c = "snd (route_request sample_lib failing_app None sample_peer fresh_stream sample_req)"
  show "fst (route_request sample_lib failing_app None sample_peer fresh_stream sample_req) ?c sample_world =
      (Ret (Some (Err ''no'')), ?c, sample_world)"
    by (simp add: route_request_def failing_app_def App_Use_def App_New_def Let_def split: prod.splits)
  show "\<not> ctx_sent ?c" using route_request_ctx(4) by (metis prod.collapse)
  let ?d = "dispatchRequest sample_lib sample_msgpack failing_app None sample_peer fresh_stream
    sample_req sample_world"
  show "?d = (fst ?d, fst (snd ?d), snd (snd ?d))" by simp
qed (simp_all add: failing_app_def App_Use_def App_New_def healthy_def fresh_stream_def sendable_def sample_simps)

text \<open>
  C35: A response that cannot be sent leaves the client without an answer. When the routed handler is
  one call of Send whose response does not marshal or is too large, the handler returns the error but
  the dispatcher, seeing the Context marked as sent, writes no error frame: the stream ends empty.
\<close>

theorem unsendable_response_unanswered:
  assumes "list_all quiet (app_afterMiddleware a)" "healthy s"
    and "route_request L a ctx peer s req = (h, c)"
    and "h c w = (case Ctx_Send M c st b of (e, c') \<Rightarrow> (Ret e, c', w))"
    and "\<not> sendable M (MResp (send_resp c st None b))"
    and "dispatchRequest L M a ctx peer s req w = (r, s', w')"
  shows "fst (Ctx_Send M c st b) \<noteq> None \<and> tx s' = tx s"
proof -
  note ctx = route_request_ctx [OF assms(3)]
  have h: "healthy (ctx_stream c)" using ctx(2) assms(2) by simp
  obtain e where e: "Ctx_Send M c st b = (Some e, c\<lparr>ctx_sent := True\<rparr>)"
    using writeResponse_lost [OF ctx(4) h assms(5)] by (auto simp: Ctx_Send_def)
  then have "h c w = (Ret (Some e), c\<lparr>ctx_sent := True\<rparr>, w)" using assms(4) by simp
  from dispatchRequest_Ret [OF assms(3) this assms(1,6)] e ctx(2) show ?thesis
    by (simp add: finish_request_def)
qed

definition picky_app :: "(string, world) App" where
  "picky_app = App_Use (App_New picky_msgpack)
     [\<lambda>next c w. case Ctx_Send picky_msgpack c 200 [] of (e, c') \<Rightarrow> (Ret e, c', w)]"

theorem unsendable_response_unanswered_witness:
  "fst (Ctx_Send picky_msgpack (snd (route_request sample_lib picky_app None sample_peer fresh_stream sample_req))
       200 []) \<noteq> None \<and>
   tx (fst (snd (dispatchRequest sample_lib picky_msgpack picky_app None sample_peer fresh_stream
       sample_req sample_world))) = tx fresh_stream"
proof (rule unsendable_response_unanswered)
  let ?rr = "route_request sample_lib picky_app None sample_peer fresh_stream sample_req"
  show "?rr = (fst ?rr, snd ?rr)" by simp
  show "fst ?rr (snd ?rr) sample_world =
      (case Ctx_Send picky_msgpack (snd ?rr) 200 [] of (e, c') \<Rightarrow> (Ret e, c', sample_world))"
    by (simp add: route_request_def picky_app_def App_Use_def App_New_def Let_def split: prod.splits)
  let ?d = "dispatchRequest sample_lib picky_msgpack picky_app None sample_peer fresh_stream
    sample_req sample_world"
  show "?d = (fst ?d, fst (snd ?d), snd (snd ?d))" by simp
qed (simp_all add: picky_app_def App_Use_def App_New_def healthy_def fresh_stream_def sendable_def
    send_resp_def picky_msgpack_def sample_msgpack_def)

text \<open>
  After-middleware can answer a second time. The error frame the dispatcher writes for a failed
  handler does not mark the Context as sent, so an after-middleware that sends puts a second frame on
  the stream.
\<close>

theorem after_middleware_sends_again:
  assumes "app_within (api_reach M) a" "healthy s" "route_request L a ctx peer s req = (h, c)"
    and "h c w = (Ret (Some e), c1, w1)" "\<not> ctx_sent c1"
    and "app_afterMiddleware a = [\<lambda>c w. case Ctx_Send M c st b of (r, c') \<Rightarrow> (Ret r, c', w)]"
    and "sendable M (MErr \<lparr>ef_ID = req_ID req, ef_Code = 500, ef_Message = err_text e, ef_Data = []\<rparr>)"
    and "sendable M (MResp (send_resp c1 st None b))"
    and "dispatchRequest L M a ctx peer s req w = (r, s', w')"
  shows "tx s' = tx s @ wire_bytes M
    [MErr \<lparr>ef_ID = req_ID req, ef_Code = 500, ef_Message = err_text e, ef_Data = []\<rparr>,
     MResp (send_resp c1 st None b)]"
proof -
  note c1 = unsent_unwritten [OF assms(1,2,3,4,5)]
  let ?m = "MErr \<lparr>ef_ID = req_ID req, ef_Code = 500, ef_Message = err_text e, ef_Data = []\<rparr>"
  obtain c2 w2 where f: "finish_request M a req (Some e) c1 w1 = (c2, w2)"
    by (cases "finish_request M a req (Some e) c1 w1")
  then have c2: "c2 = c1\<lparr>ctx_stream := (ctx_stream c1)\<lparr>tx := tx s @ wire_bytes M [?m]\<rparr>\<rparr>"
    using assms(5,7) c1 WriteFrame_msg [OF c1(2), of M ?m]
    by (simp add: finish_request_def WriteError_def StatusInternalServerError_def Let_def)
  have "Ctx_Send M c2 st b = (None, c2\<lparr>ctx_sent := True, ctx_stream := (ctx_stream c2)\<lparr>tx :=
      tx (ctx_stream c2) @ wire_bytes M [MResp (send_resp c1 st None b)]\<rparr>\<rparr>)"
    using writeResponse_sendable [of c2 M st None b] assms(5,8) c1 c2
    by (simp add: Ctx_Send_def send_resp_def)
  with assms(3,4,6,9) f c2 show ?thesis by (auto simp: dispatchRequest_def)
qed

definition twice_app :: "(string, world) App" where
  "twice_app = App_After failing_app
     [\<lambda>c w. case Ctx_Send sample_msgpack c 200 [1] of (r, c') \<Rightarrow> (Ret r, c', w)]"

theorem after_middleware_sends_again_witness:
  "tx (fst (snd (dispatchRequest sample_lib sample_msgpack twice_app None sample_peer fresh_stream
       sample_req sample_world))) = tx fresh_stream @ wire_bytes sample_msgpack
    [MErr \<lparr>ef_ID = req_ID sample_req, ef_Code = 500, ef_Message = err_text (Err ''no''), ef_Data = []\<rparr>,
     MResp (send_resp (snd (route_request sample_lib twice_app None sample_peer fresh_stream sample_req))
       200 None [1])]"
proof (rule after_middleware_sends_again)
  let ?rr = "route_request sample_lib twice_app None sample_peer fresh_stream sample_req"
  show "?rr = (fst ?rr, snd ?rr)" by simp
  show "fst ?rr (snd ?rr) sample_world = (Ret (Some (Err ''no'')), snd ?rr, sample_world)"
    by (simp add: route_request_def twice_app_def failing_app_def App_After_def App_Use_def App_New_def
        Let_def split: prod.splits)
  show "\<not> ctx_sent (snd ?rr)" using route_request_ctx(4) by (metis prod.collapse)
  show "app_within (api_reach sample_msgpack) twice_app"
    unfolding twice_app_def by (rule api.After_within [OF failing_app_within])
  let ?d = "dispatchRequest sample_lib sample_msgpack twice_app None sample_peer fresh_stream
    sample_req sample_world"
  show "?d = (fst ?d, fst (snd ?d), snd (snd ?d))" by simp
qed (simp_all add: twice_app_def failing_app_def App_After_def App_Use_def App_New_def healthy_def
    fresh_stream_def sendable_def sample_simps send_resp_def)

text \<open>
  C31: Groups. A route registered through a group answers, on an App whose table has no earlier route
  for the request, under the group's prefix followed by the route's path, with the application's
  middleware around the group's around the handler, and the Context holds the parameters of the match
  and the query values of the request path.
\<close>

theorem group_route_dispatch:
  assumes "plain_path p" "plain_query q" "req_Path req = p @ CHR ''?'' # q"
    and "route_lookup L (r_routes (app_router a)) (req_Method req, p) = None"
    and "ToUpper L method = ToUpper L (req_Method req)"
    and "matchSegments (parsePattern (pfx @ path)) (splitPath p) = Some ps"
    and "route_request L (Group_handle L a (Group_Use (App_Group pfx mw) mw') method path hf) ctx peer s req = (h, c)"
  shows "h = applyMiddleware hf (app_middleware a @ mw @ mw') \<and> ctx_params c = Some ps \<and>
    ctx_queryParams c = ParseQuery q"
proof -
  let ?a = "Group_handle L a (Group_Use (App_Group pfx mw) mw') method path hf"
  have url: "request_url L req = \<lparr>url_Path = p, url_RawQuery = q\<rparr>"
    using url_Parse_plain(2) [OF assms(1,2)] assms(3) by (simp add: request_url_def)
  let ?rt = "\<lparr>rt_method = ToUpper L method, rt_segments = parsePattern (pfx @ path),
    rt_handler = applyMiddleware hf (mw @ mw')\<rparr>"
  have acc: "pattern_accepts (parsePattern (pfx @ path)) (splitPath p)"
    using assms(6) by (metis matchSegments_accepts option.distinct(1))
  have routes: "r_routes (app_router ?a) = r_routes (app_router a) @ [?rt]"
      "app_middleware ?a = app_middleware a"
    by (simp_all add: Group_handle_def addRoute_def Router_add_def Group_Use_def App_Group_def)
  have "route_lookup L (r_routes (app_router ?a)) (req_Method req, p) = Some ?rt"
    using table.look_add [of L "r_routes (app_router a)" ?rt] assms(4,5) acc
    by (simp add: routes route_hit_def)
  then have "Router_match L (app_router ?a) (req_Method req) p = (applyMiddleware hf (mw @ mw'), Some ps)"
    using assms(6) by (simp add: Router_match_lookup)
  with route_request_ctx(8-10) [OF assms(7)] url routes(2) show ?thesis by simp
qed

theorem group_route_dispatch_witness:
  "fst (route_request sample_lib (Group_handle sample_lib (App_New sample_msgpack)
       (Group_Use (App_Group ''/api'' []) [tracing 1]) ''GET'' ''/:id'' (\<lambda>c w. (Ret None, c, w)))
       None sample_peer fresh_stream (sample_req\<lparr>req_Path := ''/api/7'' @ CHR ''?'' # ''x=1''\<rparr>)) =
     applyMiddleware (\<lambda>c w. (Ret None, c, w))
       (app_middleware (App_New sample_msgpack :: (string, (bool \<times> nat) list) App) @ [] @ [tracing 1]) \<and>
   ctx_params (snd (route_request sample_lib (Group_handle sample_lib (App_New sample_msgpack)
       (Group_Use (App_Group ''/api'' []) [tracing 1]) ''GET'' ''/:id'' (\<lambda>c w. (Ret None, c, w)))
       None sample_peer fresh_stream (sample_req\<lparr>req_Path := ''/api/7'' @ CHR ''?'' # ''x=1''\<rparr>))) =
     Some [''id'' \<mapsto> ''7''] \<and>
   ctx_queryParams (snd (route_request sample_lib (Group_handle sample_lib (App_New sample_msgpack)
       (Group_Use (App_Group ''/api'' []) [tracing 1]) ''GET'' ''/:id'' (\<lambda>c w. (Ret None, c, w)))
       None sample_peer fresh_stream (sample_req\<lparr>req_Path := ''/api/7'' @ CHR ''?'' # ''x=1''\<rparr>))) =
     ParseQuery ''x=1''"
proof (rule group_route_dispatch)
  show "plain_path ''/api/7''" by code_simp
  show "plain_query ''x=1''" by code_simp
  have "parsePattern (''/api'' @ ''/:id'') = [\<lparr>seg_kind = segStatic, seg_value = ''api''\<rparr>,
      \<lparr>seg_kind = segParam, seg_value = ''id''\<rparr>]" by code_simp
  moreover have "splitPath ''/api/7'' = [''api'', ''7'']" by code_simp
  ultimately show "matchSegments (parsePattern (''/api'' @ ''/:id'')) (splitPath ''/api/7'') = Some [''id'' \<mapsto> ''7'']"
    by (simp add: matchSegments_def)
qed (simp_all add: route_lookup_def App_New_def newRouter_def sample_req_def)

end
