(* ===== verification/Wire_Types.thy ===== *)
theory Wire_Types
  imports Dispatch
begin

text \<open>
  The typing of what a server writes (protocol/types.go and framework/app.go): which struct each
  frame type announces, in which order frame types may follow each other on a stream, and that
  dispatchStream keeps to both on every input, well-formed or not.
\<close>

section \<open>Frame types and their payloads\<close>

text \<open>The body is the encoding of a value of the struct that belongs to the frame's type.\<close>

definition typed_frame :: "'v msgpack \<Rightarrow> frame \<Rightarrow> bool" where
  "typed_frame M f =
     (case f of (ft, enc) \<Rightarrow>
        \<not> frameLen enc > MaxFrameSize \<and>
        (ft = FrameTypeResponse \<and> (\<exists>r. Marshal M (PResponse r) = Inr enc) \<or>
         ft = FrameTypeError \<and> (\<exists>e. Marshal M (PErrorFrame e) = Inr enc) \<or>
         ft = FrameTypeStreamData \<and> (\<exists>k. \<not> chunk_Final k \<and> Marshal M (PStreamChunk k) = Inr enc) \<or>
         ft = FrameTypeStreamEnd \<and> (\<exists>k. chunk_Final k \<and> Marshal M (PStreamChunk k) = Inr enc) \<or>
         ft = FrameTypePong \<and> (\<exists>p. Marshal M (PPing p) = Inr enc)))"

text \<open>The sequences of frame types a server may write on one stream.\<close>

definition reply_types :: "FrameType list \<Rightarrow> bool" where
  "reply_types ts \<longleftrightarrow>
     ts \<in> {[], [FrameTypeError], [FrameTypePong]} \<or>
     (\<exists>n e. ts = FrameTypeResponse # replicate n FrameTypeStreamData @ e \<and> e \<in> {[], [FrameTypeStreamEnd]})"

definition writes_typed :: "'v msgpack \<Rightarrow> gostream \<Rightarrow> gostream \<Rightarrow> bool" where
  "writes_typed M s s' \<longleftrightarrow>
     (\<exists>fs. tx s' = tx s @ concat (map encode_frame fs) \<and> list_all (typed_frame M) fs \<and>
        reply_types (map fst fs))"

lemma writes_nothing: "tx s' = tx s \<Longrightarrow> writes_typed M s s'"
  unfolding writes_typed_def by (rule exI [where x = "[]"]) (simp add: reply_types_def)

lemma sendable_typed:
  assumes "sendable M m" "\<And>k. m = MData k \<Longrightarrow> \<not> chunk_Final k" "\<And>k. m = MEnd k \<Longrightarrow> chunk_Final k"
  shows "typed_frame M (msg_frame M m)"
  using assms by (cases m) (auto simp: sendable_def msg_frame_def typed_frame_def split: sum.splits)

lemma reply_msgs_typed:
  assumes "list_all (sendable M) (reply_msgs i rep)"
  shows "list_all (typed_frame M) (map (msg_frame M) (reply_msgs i rep))"
proof -
  have final: "\<not> chunk_Final k" if "MData k \<in> set (reply_msgs i rep)" for k
    using that by (cases rep) (auto simp: data_msg_def end_msg_def split: option.splits)
  have "chunk_Final k" if "MEnd k \<in> set (reply_msgs i rep)" for k
    using that by (cases rep) (auto simp: data_msg_def end_msg_def split: option.splits)
  with final assms show ?thesis by (auto simp: list_all_iff intro!: sendable_typed simp del: split_paired_All)
qed

lemma data_types: "map (\<lambda>x. fst (msg_frame M (case x of (k, d) \<Rightarrow> data_msg i k d))) ks =
    replicate (length ks) FrameTypeStreamData"
  by (induction ks) (auto simp: data_msg_def msg_frame_def)

lemma reply_msgs_types: "reply_types (map fst (map (msg_frame M) (reply_msgs i rep)))"
proof (cases rep)
  case (Streamed r ks n)
  have "map fst (map (msg_frame M) (reply_msgs i rep)) =
      FrameTypeResponse # replicate (length ks) FrameTypeStreamData @ (case n of None \<Rightarrow> [] | Some n \<Rightarrow> [FrameTypeStreamEnd])"
    using data_types [of M i ks]
    by (auto simp: Streamed msg_frame_def end_msg_def o_def split: option.split)
  then show ?thesis unfolding reply_types_def by (auto split: option.split)
next
  case (OneResponse r)
  then have "map fst (map (msg_frame M) (reply_msgs i rep)) = FrameTypeResponse # replicate 0 FrameTypeStreamData @ []"
    by (simp add: msg_frame_def)
  then show ?thesis unfolding reply_types_def by (metis insertI1)
qed (simp_all add: reply_types_def msg_frame_def)

lemma writes_reply:
  assumes "list_all (sendable M) (reply_msgs i rep)" "tx s' = tx s @ wire_bytes M (reply_msgs i rep)"
  shows "writes_typed M s s'"
  unfolding writes_typed_def
proof (intro exI conjI)
  show "tx s' = tx s @ concat (map encode_frame (map (msg_frame M) (reply_msgs i rep)))"
    using assms(2) by (simp add: wire_bytes_def)
qed (use reply_msgs_typed [OF assms(1)] reply_msgs_types in simp_all)

section \<open>The dispatcher writes typed frames\<close>

lemma pong_typed:
  assumes "healthy s"
  shows "writes_typed M s (snd (WriteFrame M s FrameTypePong (PPing p)))"
proof (cases "Marshal M (PPing p)")
  case (Inl e)
  then show ?thesis by (simp add: WriteFrame_marshal_err writes_nothing)
next
  case (Inr enc)
  show ?thesis
  proof (cases "frameLen enc > MaxFrameSize")
    case True
    with Inr show ?thesis by (simp add: WriteFrame_too_large writes_nothing)
  next
    case False
    with Inr have "typed_frame M (FrameTypePong, enc)" by (auto simp: typed_frame_def)
    with False Inr assms show ?thesis
      unfolding writes_typed_def
      by (intro exI [where x = "[(FrameTypePong, enc)]"]) (simp add: WriteFrame_healthy reply_types_def)
  qed
qed

lemma error_typed:
  assumes "healthy s"
  shows "writes_typed M s (snd (WriteError M s i code m d))"
proof -
  let ?m = "MErr \<lparr>ef_ID = i, ef_Code = code, ef_Message = m, ef_Data = d\<rparr>"
  let ?e = "OneError \<lparr>ef_ID = i, ef_Code = code, ef_Message = m, ef_Data = d\<rparr>"
  show ?thesis
  proof (cases "sendable M ?m")
    case True
    then show ?thesis
      using WriteFrame_msg [OF assms, of M ?m]
      by (intro writes_reply [where rep = ?e and i = i]) (simp_all add: WriteError_def)
  next
    case False
    then show ?thesis using WriteFrame_msg [OF assms, of M ?m]
      by (intro writes_nothing) (simp add: WriteError_def, metis snd_conv)
  qed
qed

text \<open>
  C7: The wire is well-typed. For every App whose handlers and middleware use only the Context's calls
  and whose after-middleware writes nothing, and for every sequence of bytes a client may send,
  what dispatchStream writes on a stream that takes every write is a sequence of frames; each body is the encoding of the struct its frame
  type announces, with the Final flag set exactly in the end frame; and the types follow the protocol:
  nothing, one error, one pong, or a response followed by any number of data frames and at most one end.
\<close>

theorem dispatch_well_typed:
  assumes "app_within (api_reach M) a" "list_all quiet (app_afterMiddleware a)" "healthy s"
    and "dispatchStream L M a ctx peer s w = (r, s', w')"
  shows "\<exists>fs. tx s' = tx s @ concat (map encode_frame fs) \<and> list_all (typed_frame M) fs \<and>
    reply_types (map fst fs)"
proof -
  obtain rd s1 where rd: "ReadFrame s = (rd, s1)" by (cases "ReadFrame s")
  note s1 = ReadFrame_stream [OF rd]
  have h1: "healthy s1" using s1 assms(3) by simp
  have "writes_typed M s1 s'"
  proof (cases rd)
    case (Inl e)
    with assms(4) rd show ?thesis by (auto simp: dispatchStream_def intro: writes_nothing)
  next
    case (Inr f)
    obtain ft data where f: "f = (ft, data)" by (cases f)
    show ?thesis
    proof (cases "ft = FrameTypeRequest \<and> (\<exists>req. DecodeRequest M data = Inr req)")
      case True
      then obtain req where dec: "ft = FrameTypeRequest" "DecodeRequest M data = Inr req" by blast
      with rd Inr f have rf: "ReadFrame s = (Inr (FrameTypeRequest, data), s1)" by simp
      have "dispatchRequest L M a ctx peer s1 req w = (r, s', w')"
        using assms(4) unfolding dispatchStream_request [OF rf dec(2)] .
      from dispatchRequest_reply [OF assms(1,2) h1 this] show ?thesis by (blast intro: writes_reply)
    next
      case False
      with assms(4) rd Inr f pong_typed [OF h1, of M] error_typed [OF h1, of M] show ?thesis
        by (auto simp: dispatchStream_def intro: writes_nothing split: if_splits sum.splits)
    qed
  qed
  then show ?thesis using s1 by (simp add: writes_typed_def)
qed

theorem dispatch_well_typed_witness:
  "\<exists>fs. tx (fst (snd (dispatch_sample FrameTypeRequest))) = tx (framed FrameTypeRequest ''/a'') @ concat (map encode_frame fs) \<and>
    list_all (typed_frame sample_msgpack) fs \<and> reply_types (map fst fs)"
  by (rule dispatch_well_typed [where r = "fst (dispatch_sample FrameTypeRequest)" and w' = "snd (snd (dispatch_sample FrameTypeRequest))"
        and L = sample_lib and ctx = None and peer = sample_peer and w = sample_world and a = sample_app])
    (simp_all add: sample_app_within sample_app_after healthy_framed dispatch_sample_def)

end
