(* ===== verification/Middleware.thy ===== *)
theory Middleware
  imports Dispatch
begin

text \<open>
  middleware/logger.go, middleware/recovery.go and middleware/validation.go. The variadic
  \<^verbatim>\<open>logger ...*slog.Logger\<close> is a list of optional loggers (\<open>None\<close> is a nil pointer).
\<close>

section \<open>logger.go and recovery.go\<close>

definition pick_logger :: "logger option list \<Rightarrow> logger" where
  "pick_logger ls = (case ls of Some l # _ \<Rightarrow> l | _ \<Rightarrow> 0)"

definition Logger :: "logger option list \<Rightarrow> ('v, 'x world_scheme) MiddlewareFunc" where
  "Logger ls next c w =
     (let start = w_now w
      in case next c w of
           (Panic v, c', w') \<Rightarrow> (Panic v, c', w')
         | (Ret err, c', w') \<Rightarrow>
             (Ret err, c',
              log_to (pick_logger ls) (if err \<noteq> None then LevelError else LevelInfo) ''request''
                [(''id'', LvStr (Ctx_RequestID c')), (''method'', LvStr (Ctx_Method c')),
                 (''path'', LvStr (Ctx_Path c')), (''remote'', LvAddr (Ctx_RemoteAddr c')),
                 (''latency'', LvInt (w_now w' - start)), (''err'', LvErr err)] w'))"

text \<open>
  The deferred function of Recovery. The stack trace in the log is the text of debug.Stack, which
  is not modelled.
\<close>

definition Recovery ::
    "'v msgpack \<Rightarrow> logger option list \<Rightarrow> ('v, 'x world_scheme) MiddlewareFunc" where
  "Recovery M ls next c w =
     (case next c w of
        (Ret err, c', w') \<Rightarrow> (Ret err, c', w')
      | (Panic v, c', w') \<Rightarrow>
          (case Ctx_Error M c' StatusInternalServerError (''internal server error: '' @ v) [] of
             (r, c'') \<Rightarrow>
               (Ret r, c'',
                log_to (pick_logger ls) LevelError ''quicframe: panic recovered''
                  [(''panic'', LvStr v), (''path'', LvStr (Ctx_Path c')),
                   (''id'', LvStr (Ctx_RequestID c'))] w')))"

section \<open>validation.go\<close>

type_synonym HeaderRule = "string \<Rightarrow> goerr option"

fun RequireHeaders :: "'v msgpack \<Rightarrow> string list \<Rightarrow> ('v, 'w) MiddlewareFunc" where
  "RequireHeaders M [] next c w = next c w"
| "RequireHeaders M (name # names) next c w =
     (if TrimSpace (Ctx_GetHeader c name) = [] then
        error_handler M StatusBadRequest (\<lambda>_. ''missing required header: '' @ name) c w
      else RequireHeaders M names next c w)"

text \<open>
  Go leaves the order of \<^verbatim>\<open>range rules\<close> open; the argument lists the map's entries in the order of
  this iteration.
\<close>

fun ValidateHeaders :: "'v msgpack \<Rightarrow> (string \<times> HeaderRule) list \<Rightarrow> ('v, 'w) MiddlewareFunc" where
  "ValidateHeaders M [] next c w = next c w"
| "ValidateHeaders M ((name, rule) # rules) next c w =
     (case rule (Ctx_GetHeader c name) of
        Some err \<Rightarrow> error_handler M StatusBadRequest (\<lambda>_. err_text err) c w
      | None \<Rightarrow> ValidateHeaders M rules next c w)"

section \<open>Facts\<close>

lemma Ctx_Error_reach: "Ctx_Error M c code msg data = (r, c') \<Longrightarrow> api_reach M c c'"
  by (rule api_reach_call [where op = "OpError code msg data"]) simp

lemma error_handler_reach: "error_handler M code msg c w = (r, c', w') \<Longrightarrow> api_reach M c c'"
  by (rule handler_withinD [OF error_handler_within])

lemma error_handler_sendable:
  assumes "\<not> ctx_sent c" "healthy (ctx_stream c)"
    and "sendable M (MErr \<lparr>ef_ID = req_ID (ctx_Request c), ef_Code = code, ef_Message = m, ef_Data = []\<rparr>)"
  shows "error_handler M code (\<lambda>_. m) c w =
    (Ret None, c\<lparr>ctx_sent := True, ctx_stream := (ctx_stream c)\<lparr>tx := tx (ctx_stream c) @ wire_bytes M
       [MErr \<lparr>ef_ID = req_ID (ctx_Request c), ef_Code = code, ef_Message = m, ef_Data = []\<rparr>]\<rparr>\<rparr>, w)"
  using assms WriteFrame_msg [OF assms(2), of M "MErr \<lparr>ef_ID = req_ID (ctx_Request c),
      ef_Code = code, ef_Message = m, ef_Data = []\<rparr>"]
  by (simp add: error_handler_def Ctx_Error_def WriteError_def)

lemma Ctx_GetHeader_request: "Ctx_GetHeader c key = gomap_get (req_Headers (ctx_Request c)) key"
  by (simp add: Ctx_GetHeader_def)

lemma Logger_within: "middleware_within R (Logger ls)"
  unfolding middleware_within_def handler_within_def Logger_def Let_def
  by (auto split: prod.splits outcome.splits) (metis fst_conv snd_conv)+

lemma Recovery_within: 
  "middleware_within (api_reach M) (Recovery M ls :: ('v, 'x world_scheme) MiddlewareFunc)"
  unfolding middleware_within_def
proof (intro allI impI)
  fix h :: "('v, 'x world_scheme) HandlerFunc"
  assume h: "handler_within (api_reach M) h"
  have "Recovery M ls h = (\<lambda>c w. case h c w of (r, c', w') \<Rightarrow> Recovery M ls (\<lambda>_ _. (r, c', w')) c' w')"
    by (auto simp: fun_eq_iff Recovery_def split: prod.splits)
  moreover have "handler_within (api_reach M) \<dots>"
    by (rule api.within_after [OF h])
      (auto simp: Recovery_def split: outcome.splits prod.splits intro: api_reach.start Ctx_Error_reach)
  ultimately show "handler_within (api_reach M) (Recovery M ls h)" by simp
qed

lemma RequireHeaders_within: 
  "middleware_within (api_reach M) (RequireHeaders M names :: ('v, 'w) MiddlewareFunc)"
  unfolding middleware_within_def
proof (intro allI impI)
  fix h :: "('v, 'w) HandlerFunc"
  assume h: "handler_within (api_reach M) h"
  show "handler_within (api_reach M) (RequireHeaders M names h)"
    using h by (induction names)
      (auto simp: handler_within_def intro: error_handler_within [unfolded handler_within_def, rule_format])
qed

lemma ValidateHeaders_within: 
  "middleware_within (api_reach M) (ValidateHeaders M rules :: ('v, 'w) MiddlewareFunc)"
  unfolding middleware_within_def
proof (intro allI impI)
  fix h :: "('v, 'w) HandlerFunc"
  assume h: "handler_within (api_reach M) h"
  show "handler_within (api_reach M) (ValidateHeaders M rules h)"
    using h by (induction rules)
      (auto simp: handler_within_def split: option.splits
        intro: error_handler_within [unfolded handler_within_def, rule_format])
qed

lemma RequireHeaders_eq:
  "RequireHeaders M names next c w =
     (case find (\<lambda>n. TrimSpace (Ctx_GetHeader c n) = []) names of
        None \<Rightarrow> next c w
      | Some n \<Rightarrow> error_handler M StatusBadRequest (\<lambda>_. ''missing required header: '' @ n) c w)"
  by (induction names) auto

lemma ValidateHeaders_eq:
  "ValidateHeaders M rules next c w =
     (case find (\<lambda>(n, rule). rule (Ctx_GetHeader c n) \<noteq> None) rules of
        None \<Rightarrow> next c w
      | Some (n, rule) \<Rightarrow>
          error_handler M StatusBadRequest (\<lambda>_. err_text (the (rule (Ctx_GetHeader c n)))) c w)"
  by (induction rules) (auto split: option.splits)

section \<open>Properties of logging, recovery and header checks\<close>

definition no_panic :: "('v, 'w) HandlerFunc \<Rightarrow> bool" where
  "no_panic h \<longleftrightarrow> (\<forall>c w. \<not> is_panic (fst (h c w)))"

lemma runAfter_no_panic: "list_all no_panic hs \<Longrightarrow> \<exists>c' w'. runAfter hs c w = (Ret (), c', w')"
proof (induction hs arbitrary: c w)
  case Nil
  show ?case by simp
next
  case (Cons h hs)
  obtain r c1 w1 where h: "h c w = (r, c1, w1)" by (cases "h c w")
  with Cons.prems have "\<not> is_panic r" by (simp add: no_panic_def) (metis fst_conv)
  then obtain e where "r = Ret e" by (cases r) auto
  with h Cons show ?case by simp
qed

lemma Recovery_no_panic: "no_panic (Recovery M ls h)"
  by (simp add: no_panic_def Recovery_def split: prod.splits outcome.splits)

lemma dispatchStream_recovered:
  assumes "app_middleware a = Recovery M ls # mw" "list_all no_panic (app_afterMiddleware a)"
  shows "\<exists>s' w'. dispatchStream L M a ctx peer s w = (Ret (), s', w')"
proof -
  have "\<exists>s' w'. dispatchRequest L M a ctx peer s req w = (Ret (), s', w')" for s req
  proof -
    obtain h c where rr: "route_request L a ctx peer s req = (h, c)"
      by (cases "route_request L a ctx peer s req")
    from route_request_ctx(10) [OF rr] assms(1) obtain h' where h: "h = Recovery M ls h'" by auto
    obtain r c1 w1 where hc: "h c w = (r, c1, w1)" by (cases "h c w")
    have "\<not> is_panic r" using Recovery_no_panic [of M ls h'] hc unfolding no_panic_def h by (metis fst_conv)
    then obtain e where "r = Ret e" by (cases r) auto
    moreover obtain c2 w2 where "finish_request M a req e c1 w1 = (c2, w2)"
      by (cases "finish_request M a req e c1 w1")
    moreover obtain c3 w3 where "runAfter (app_afterMiddleware a) c2 w2 = (Ret (), c3, w3)"
      using runAfter_no_panic [OF assms(2)] by blast
    ultimately show ?thesis using rr hc by (simp add: dispatchRequest_def)
  qed
  then show ?thesis
    by (auto simp: dispatchStream_def split: prod.splits sum.splits)
qed

text \<open>
  Recovery contains panics. When Recovery is the first middleware of an App and its
  after-middleware does not panic, dispatching a stream returns, whatever is read from the stream and
  whatever handlers and the other middleware do.
\<close>

theorem recovery_contains_panics:
  assumes "app_middleware a = Recovery M ls # mw" "list_all no_panic (app_afterMiddleware a)"
  shows "\<exists>s' w'. dispatchStream L M a ctx peer s w = (Ret (), s', w')"
  using assms by (rule dispatchStream_recovered)

definition panicking_app :: "(string, world) App" where
  "panicking_app = App_Use (App_New sample_msgpack)
     [Recovery sample_msgpack [], \<lambda>next c w. (Panic ''boom'', c, w)]"

theorem recovery_contains_panics_witness:
  "\<exists>s' w'. dispatchStream sample_lib sample_msgpack panicking_app None sample_peer
     (framed FrameTypeRequest ''/a'') sample_world = (Ret (), s', w')"
  by (rule recovery_contains_panics [where ls = "[]" and mw = "[\<lambda>next c w. (Panic ''boom'', c, w)]"])
    (simp_all add: panicking_app_def App_Use_def App_New_def)

text \<open>
  A recovered panic is answered. If the handler under Recovery panics before anything was sent,
  the peer receives one error frame with the request's ID, status 500 and the panic value; the panic
  is logged and Recovery reports no error, so the dispatcher adds nothing.
\<close>

theorem panic_answered:
  assumes "h c w = (Panic v, c1, w1)" "\<not> ctx_sent c1" "healthy (ctx_stream c1)"
    and "sendable M (MErr \<lparr>ef_ID = Ctx_RequestID c1, ef_Code = 500,
           ef_Message = ''internal server error: '' @ v, ef_Data = []\<rparr>)"
    and "Recovery M ls h c w = (r, c2, w2)"
  shows "r = Ret None \<and> ctx_sent c2 \<and>
    tx (ctx_stream c2) = tx (ctx_stream c1) @ wire_bytes M
      [MErr \<lparr>ef_ID = Ctx_RequestID c1, ef_Code = 500, ef_Message = ''internal server error: '' @ v, ef_Data = []\<rparr>] \<and>
    w_logs w2 = w_logs w1 @ [Log (pick_logger ls) LevelError ''quicframe: panic recovered''
      [(''panic'', LvStr v), (''path'', LvStr (Ctx_Path c1)), (''id'', LvStr (Ctx_RequestID c1))]]"
  using assms WriteFrame_msg [OF assms(3), of M "MErr \<lparr>ef_ID = Ctx_RequestID c1, ef_Code = 500,
      ef_Message = ''internal server error: '' @ v, ef_Data = []\<rparr>"]
  by (auto simp: Recovery_def Ctx_Error_def WriteError_def log_to_def Ctx_RequestID_def
      StatusInternalServerError_def Let_def)

theorem panic_answered_witness:
  "fst (Recovery sample_msgpack [] (\<lambda>c w. (Panic ''boom'', c, w)) sample_ctx sample_world) = Ret None \<and>
   ctx_sent (fst (snd (Recovery sample_msgpack [] (\<lambda>c w. (Panic ''boom'', c, w)) sample_ctx sample_world))) \<and>
   tx (ctx_stream (fst (snd (Recovery sample_msgpack [] (\<lambda>c w. (Panic ''boom'', c, w)) sample_ctx sample_world)))) =
     tx (ctx_stream sample_ctx) @ wire_bytes sample_msgpack
      [MErr \<lparr>ef_ID = Ctx_RequestID sample_ctx, ef_Code = 500,
         ef_Message = ''internal server error: '' @ ''boom'', ef_Data = []\<rparr>] \<and>
   w_logs (snd (snd (Recovery sample_msgpack [] (\<lambda>c w. (Panic ''boom'', c, w)) sample_ctx sample_world))) =
     w_logs sample_world @ [Log (pick_logger []) LevelError ''quicframe: panic recovered''
      [(''panic'', LvStr ''boom''), (''path'', LvStr (Ctx_Path sample_ctx)),
       (''id'', LvStr (Ctx_RequestID sample_ctx))]]"
  by (rule panic_answered [where h = "\<lambda>c w. (Panic ''boom'', c, w)" and c = sample_ctx and w = sample_world])
    (simp_all add: sample_ctx_simps sendable_def sample_simps)

text \<open>
  Required headers. RequireHeaders runs the next handler exactly when every named header has a
  value that is not blank; otherwise it answers 400 naming the first one that has not.
\<close>

theorem require_headers_gate:
  "RequireHeaders M names next c w =
     (case find (\<lambda>n. TrimSpace (Ctx_GetHeader c n) = []) names of
        None \<Rightarrow> next c w
      | Some n \<Rightarrow>
          (case Ctx_Error M c 400 (''missing required header: '' @ n) [] of (r, c') \<Rightarrow> (Ret r, c', w)))"
  unfolding RequireHeaders_eq by (auto simp: error_handler_def StatusBadRequest_def split: option.splits)

text \<open>
  Header rules do not depend on Go's map order, up to the message. For two orders of the same
  rules, either both run the next handler, and then every rule accepts its header, or both answer 400
  with the message of some rule that rejects its header.
\<close>

theorem validate_headers_any_order:
  assumes "set rules = set rules'"
  shows "(\<forall>n rule. (n, rule) \<in> set rules \<longrightarrow> rule (Ctx_GetHeader c n) = None) \<and>
      ValidateHeaders M rules next c w = next c w \<and> ValidateHeaders M rules' next c w = next c w \<or>
    (\<exists>n rule e n' rule' e'. (n, rule) \<in> set rules \<and> rule (Ctx_GetHeader c n) = Some e \<and>
       (n', rule') \<in> set rules \<and> rule' (Ctx_GetHeader c n') = Some e' \<and>
       ValidateHeaders M rules next c w = error_handler M 400 (\<lambda>_. err_text e) c w \<and>
       ValidateHeaders M rules' next c w = error_handler M 400 (\<lambda>_. err_text e') c w)"
proof (cases "\<forall>n rule. (n, rule) \<in> set rules \<longrightarrow> rule (Ctx_GetHeader c n) = None")
  case True
  with assms have "find (\<lambda>(n, rule). rule (Ctx_GetHeader c n) \<noteq> None) rules = None"
      "find (\<lambda>(n, rule). rule (Ctx_GetHeader c n) \<noteq> None) rules' = None"
    by (auto simp: find_None_iff)
  with True show ?thesis by (simp add: ValidateHeaders_eq)
next
  case False
  have ex: "\<exists>n rule e. (n, rule) \<in> set rs \<and> rule (Ctx_GetHeader c n) = Some e \<and>
      ValidateHeaders M rs next c w = error_handler M 400 (\<lambda>_. err_text e) c w"
    if "set rs = set rules" for rs
  proof -
    from False that obtain x where "find (\<lambda>(n, rule). rule (Ctx_GetHeader c n) \<noteq> None) rs = Some x"
      by (cases "find (\<lambda>(n, rule). rule (Ctx_GetHeader c n) \<noteq> None) rs") (auto simp: find_None_iff)
    note x = this find_SomeD [OF this]
    obtain n rule where nr: "x = (n, rule)" by (cases x)
    with x(2) have "(n, rule) \<in> set rs" "rule (Ctx_GetHeader c n) \<noteq> None" by simp_all
    moreover have "ValidateHeaders M rs next c w =
        error_handler M 400 (\<lambda>_. err_text (the (rule (Ctx_GetHeader c n)))) c w"
      unfolding ValidateHeaders_eq x(1) nr by (simp add: StatusBadRequest_def)
    ultimately show ?thesis by (metis option.collapse)
  qed
  from ex [OF refl] ex [OF assms [symmetric]] assms show ?thesis by blast
qed

theorem validate_headers_any_order_witness:
  "(\<forall>n rule. (n, rule) \<in> set [(''a'', \<lambda>v. None), (''b'', \<lambda>v. Some (Err ''bad''))] \<longrightarrow>
        rule (Ctx_GetHeader sample_ctx n) = None) \<and>
      ValidateHeaders sample_msgpack [(''a'', \<lambda>v. None), (''b'', \<lambda>v. Some (Err ''bad''))]
        (\<lambda>c w. (Ret None, c, w)) sample_ctx sample_world = (Ret None, sample_ctx, sample_world) \<and>
      ValidateHeaders sample_msgpack [(''b'', \<lambda>v. Some (Err ''bad'')), (''a'', \<lambda>v. None)]
        (\<lambda>c w. (Ret None, c, w)) sample_ctx sample_world = (Ret None, sample_ctx, sample_world) \<or>
    (\<exists>n rule e n' rule' e'. (n, rule) \<in> set [(''a'', \<lambda>v. None), (''b'', \<lambda>v. Some (Err ''bad''))] \<and>
       rule (Ctx_GetHeader sample_ctx n) = Some e \<and>
       (n', rule') \<in> set [(''a'', \<lambda>v. None), (''b'', \<lambda>v. Some (Err ''bad''))] \<and>
       rule' (Ctx_GetHeader sample_ctx n') = Some e' \<and>
       ValidateHeaders sample_msgpack [(''a'', \<lambda>v. None), (''b'', \<lambda>v. Some (Err ''bad''))]
        (\<lambda>c w. (Ret None, c, w)) sample_ctx sample_world =
          error_handler sample_msgpack 400 (\<lambda>_. err_text e) sample_ctx sample_world \<and>
       ValidateHeaders sample_msgpack [(''b'', \<lambda>v. Some (Err ''bad'')), (''a'', \<lambda>v. None)]
        (\<lambda>c w. (Ret None, c, w)) sample_ctx sample_world =
          error_handler sample_msgpack 400 (\<lambda>_. err_text e') sample_ctx sample_world)"
  by (rule validate_headers_any_order) auto

end
