(* ===== verification/Conn.thy ===== *)
theory Conn
  imports Middleware
begin

text \<open>
  The goroutines around the dispatcher (framework/app.go): the accept loop of ListenNative, one
  HandleNativeConn per connection, one session handler per WebTransport session, one goroutine per
  stream, and the WaitGroup that Shutdown waits on. A state lists the goroutines started so far with
  the point each has reached; an event is one step of one of them, and any order in which the
  events are enabled is a run. A whole dispatchStream is one step, the one with which its handler returns; what
  happens inside it, call by call, is the subject of the theories Reply and Dispatch. Nothing makes a
  step happen: a handler that never returns is a stream whose \<open>Dispatch\<close> is never taken, and an accept loop
  whose peer stays connected and silent has no step at all.
\<close>

section \<open>State\<close>

text \<open>
  CloseWithError of the two wrappers in framework/app.go. quic-go takes a 64-bit application error code,
  webtransport-go a 32-bit session error code, so the second conversion drops the upper half.
\<close>

datatype close_code = ApplicationErrorCode "64 word" | SessionErrorCode "32 word"

definition CloseWithError :: "peer \<Rightarrow> 64 word \<Rightarrow> string \<Rightarrow> close_code \<times> string" where
  "CloseWithError p code msg =
     (case peer_transport p of
        Native \<Rightarrow> (ApplicationErrorCode code, msg)
      | WebTransport \<Rightarrow> (SessionErrorCode (ucast code), msg))"

text \<open>
  A connection goroutine: started by the go statement, in its accept loop, or between wg.Add(1)
  and the go statement for an accepted stream, or ended, with what its deferred CloseWithError sent
  (HandleNativeConn has one, the session handler has none).
\<close>

datatype conn_phase = Spawned | Accepting | Counted gostream | ConnDone "(close_code \<times> string) option"

record connection =
  cn_peer :: peer
  cn_ctx :: "gocontext option"
  cn_phase :: conn_phase
  cn_lost :: bool \<comment> \<open>the connection is gone: closed by the peer, timed out, its context done\<close>

datatype stream_phase = Running | Dispatched | Closed

record stream_task =
  st_conn :: nat
  st_in :: gostream \<comment> \<open>the stream as it was accepted\<close>
  st_stream :: gostream
  st_phase :: stream_phase

datatype listener = Listening | Returned "goerr option"

record 'x server =
  sv_wg :: nat
  sv_conns :: "connection list"
  sv_streams :: "stream_task list"
  sv_listener :: listener
  sv_ctxErr :: bool \<comment> \<open>ctx.Err() != nil\<close>
  sv_lnClosed :: bool \<comment> \<open>listener.Close() has been called\<close>
  sv_shutdowns :: nat \<comment> \<open>calls of Shutdown that have returned\<close>
  sv_crash :: "string option" \<comment> \<open>a panic no goroutine recovered, which ends the process\<close>
  sv_world :: 'x

definition server_start :: "'x \<Rightarrow> 'x server" where
  "server_start w =
     \<lparr>sv_wg = 0, sv_conns = [], sv_streams = [], sv_listener = Listening, sv_ctxErr = False, sv_lnClosed = False,
      sv_shutdowns = 0, sv_crash = None, sv_world = w\<rparr>"

section \<open>Steps\<close>

datatype sv_event =
    Cancel \<comment> \<open>ctx is cancelled\<close>
  | CloseListener \<comment> \<open>the goroutine of ListenNative that waits for ctx.Done()\<close>
  | AcceptConn peer "gocontext option" \<comment> \<open>listener.Accept returns a connection\<close>
  | AcceptFail goerr \<comment> \<open>listener.Accept returns an error\<close>
  | Upgrade peer "gocontext option" \<comment> \<open>a WebTransport upgrade succeeds\<close>
  | ConnStart nat
  | AcceptStream nat gostream
  | SpawnStream nat
  | ConnLost nat \<comment> \<open>the peer, the network or the transport ends a connection\<close>
  | ConnEnd nat \<comment> \<open>AcceptStream returns an error\<close>
  | Dispatch nat \<comment> \<open>dispatchStream, up to its return\<close>
  | CloseStream nat
  | ShutdownReturn

text \<open>\<^verbatim>\<open>wg.Done()\<close>: the counter going below zero is a panic.\<close>

definition wg_Done :: "'x server \<Rightarrow> 'x server" where
  "wg_Done sv =
     (if sv_wg sv = 0 then sv\<lparr>sv_crash := Some ''sync: negative WaitGroup counter''\<rparr>
      else sv\<lparr>sv_wg := sv_wg sv - 1\<rparr>)"

definition set_phase :: "nat \<Rightarrow> conn_phase \<Rightarrow> 'x server \<Rightarrow> 'x server" where
  "set_phase i p sv = sv\<lparr>sv_conns := (sv_conns sv)[i := (sv_conns sv ! i)\<lparr>cn_phase := p\<rparr>]\<rparr>"

text \<open>
  The accept loop of ListenNative (from listener.Accept on) with its deferred Close, and the goroutine that
  closes the listener when the context is done. Accept may still return a connection after Close:
  those already in the accept queue.
\<close>

definition close_on_done :: "'x server \<Rightarrow> 'x server option" where
  "close_on_done sv = (if sv_ctxErr sv then Some (sv\<lparr>sv_lnClosed := True\<rparr>) else None)"

fun listen_step :: "sv_event \<Rightarrow> 'x server \<Rightarrow> 'x server option" where
  "listen_step (AcceptConn p ctx) sv =
     (if sv_listener sv = Listening then
        Some (sv\<lparr>sv_conns := sv_conns sv @ [\<lparr>cn_peer = p, cn_ctx = ctx, cn_phase = Spawned, cn_lost = False\<rparr>]\<rparr>)
      else None)"
| "listen_step (AcceptFail e) sv =
     (if sv_listener sv = Listening then
        Some (sv\<lparr>sv_listener := Returned
                 (if sv_ctxErr sv then None else Some (Wrap ''quicframe: accept: '' e)),
               sv_lnClosed := True\<rparr>)
      else None)"
| "listen_step _ sv = None"

text \<open>The loop of HandleNativeConn, and of handleWebTransportSession, for goroutine \<open>i\<close>.\<close>

definition HandleNativeConn_start :: "nat \<Rightarrow> 'x server \<Rightarrow> 'x server option" where
  "HandleNativeConn_start i sv =
     (if i < length (sv_conns sv) \<and> cn_phase (sv_conns sv ! i) = Spawned then
        Some (set_phase i Accepting (sv\<lparr>sv_wg := sv_wg sv + 1\<rparr>))
      else None)"

definition conn_accept :: "nat \<Rightarrow> gostream \<Rightarrow> 'x server \<Rightarrow> 'x server option" where
  "conn_accept i s sv =
     (if i < length (sv_conns sv) \<and> cn_phase (sv_conns sv ! i) = Accepting then
        Some (set_phase i (Counted s) (sv\<lparr>sv_wg := sv_wg sv + 1\<rparr>))
      else None)"

definition conn_spawn :: "nat \<Rightarrow> 'x server \<Rightarrow> 'x server option" where
  "conn_spawn i sv =
     (if i < length (sv_conns sv) then
        (case cn_phase (sv_conns sv ! i) of
           Counted s \<Rightarrow>
             Some (set_phase i Accepting
               (sv\<lparr>sv_streams := sv_streams sv @
                  [\<lparr>st_conn = i, st_in = s, st_stream = s, st_phase = Running\<rparr>]\<rparr>))
         | _ \<Rightarrow> None)
      else None)"

text \<open>
  AcceptStream blocks until there is a stream or the connection is gone; only then does the loop end.
\<close>

definition conn_lost :: "nat \<Rightarrow> 'x server \<Rightarrow> 'x server option" where
  "conn_lost i sv =
     (if i < length (sv_conns sv) then
        Some (sv\<lparr>sv_conns := (sv_conns sv)[i := (sv_conns sv ! i)\<lparr>cn_lost := True\<rparr>]\<rparr>)
      else None)"

definition conn_end :: "nat \<Rightarrow> 'x server \<Rightarrow> 'x server option" where
  "conn_end i sv =
     (if i < length (sv_conns sv) \<and> cn_phase (sv_conns sv ! i) = Accepting \<and> cn_lost (sv_conns sv ! i) then
        (let p = cn_peer (sv_conns sv ! i);
             close = (if peer_transport p = Native then Some (CloseWithError p 0 ''done'') else None)
         in Some (wg_Done (set_phase i (ConnDone close) sv)))
      else None)"

text \<open>
  The /wt handler after a successful upgrade: the session is counted before its goroutine starts,
  and the goroutine is the accept loop of handleWebTransportSession.
\<close>

definition wt_upgrade :: "peer \<Rightarrow> gocontext option \<Rightarrow> 'x server \<Rightarrow> 'x server" where
  "wt_upgrade p ctx sv =
     sv\<lparr>sv_wg := sv_wg sv + 1,
        sv_conns := sv_conns sv @ [\<lparr>cn_peer = p, cn_ctx = ctx, cn_phase = Accepting, cn_lost = False\<rparr>]\<rparr>"

definition Shutdown :: "'x server \<Rightarrow> 'x server option" where
  "Shutdown sv = (if sv_wg sv = 0 then Some (sv\<lparr>sv_shutdowns := sv_shutdowns sv + 1\<rparr>) else None)"

text \<open>The goroutine of one stream: dispatchStream, then the deferred Close and Done.\<close>

definition stream_dispatch ::
    "golib \<Rightarrow> 'v msgpack \<Rightarrow> ('v, 'x world_scheme) App \<Rightarrow> nat \<Rightarrow> 'x world_scheme server \<Rightarrow>
       'x world_scheme server option" where
  "stream_dispatch L M a j sv =
     (if j < length (sv_streams sv) \<and> st_phase (sv_streams sv ! j) = Running then
        (let t = sv_streams sv ! j; cn = sv_conns sv ! st_conn t
         in (case dispatchStream L M a (cn_ctx cn) (cn_peer cn) (st_stream t) (sv_world sv) of
               (r, s, w) \<Rightarrow>
                 Some (sv\<lparr>sv_streams := (sv_streams sv)[j := t\<lparr>st_stream := s, st_phase := Dispatched\<rparr>],
                          sv_world := w,
                          sv_crash := (case r of Ret _ \<Rightarrow> None | Panic v \<Rightarrow> Some v)\<rparr>)))
      else None)"

definition stream_close :: "nat \<Rightarrow> 'x server \<Rightarrow> 'x server option" where
  "stream_close j sv =
     (if j < length (sv_streams sv) \<and> st_phase (sv_streams sv ! j) = Dispatched then
        Some (wg_Done (sv\<lparr>sv_streams := (sv_streams sv)[j := (sv_streams sv ! j)\<lparr>st_phase := Closed\<rparr>]\<rparr>))
      else None)"

fun sv_step ::
    "golib \<Rightarrow> 'v msgpack \<Rightarrow> ('v, 'x world_scheme) App \<Rightarrow> sv_event \<Rightarrow> 'x world_scheme server \<Rightarrow>
       'x world_scheme server option" where
  "sv_step L M a Cancel sv = Some (sv\<lparr>sv_ctxErr := True\<rparr>)"
| "sv_step L M a CloseListener sv = close_on_done sv"
| "sv_step L M a (AcceptConn p ctx) sv = listen_step (AcceptConn p ctx) sv"
| "sv_step L M a (AcceptFail e) sv = listen_step (AcceptFail e) sv"
| "sv_step L M a (Upgrade p ctx) sv = Some (wt_upgrade p ctx sv)"
| "sv_step L M a (ConnStart i) sv = HandleNativeConn_start i sv"
| "sv_step L M a (AcceptStream i s) sv = conn_accept i s sv"
| "sv_step L M a (SpawnStream i) sv = conn_spawn i sv"
| "sv_step L M a (ConnLost i) sv = conn_lost i sv"
| "sv_step L M a (ConnEnd i) sv = conn_end i sv"
| "sv_step L M a (Dispatch j) sv = stream_dispatch L M a j sv"
| "sv_step L M a (CloseStream j) sv = stream_close j sv"
| "sv_step L M a ShutdownReturn sv = Shutdown sv"

text \<open>A crashed process takes no more steps.\<close>

inductive sv_reach ::
    "golib \<Rightarrow> 'v msgpack \<Rightarrow> ('v, 'x world_scheme) App \<Rightarrow> 'x world_scheme server \<Rightarrow>
       'x world_scheme server \<Rightarrow> bool" for L M a sv where
  start: "sv_reach L M a sv sv"
| step: "sv_reach L M a sv sv' \<Longrightarrow> sv_crash sv' = None \<Longrightarrow> sv_step L M a e sv' = Some sv'' \<Longrightarrow>
         sv_reach L M a sv sv''"

fun sv_run ::
    "golib \<Rightarrow> 'v msgpack \<Rightarrow> ('v, 'x world_scheme) App \<Rightarrow> sv_event list \<Rightarrow> 'x world_scheme server \<Rightarrow>
       'x world_scheme server option" where
  "sv_run L M a [] sv = Some sv"
| "sv_run L M a (e # es) sv =
     (if sv_crash sv = None then
        (case sv_step L M a e sv of None \<Rightarrow> None | Some sv' \<Rightarrow> sv_run L M a es sv')
      else None)"

fun_cases listen_stepE: "listen_step e sv = Some sv'"

lemma sv_reach_trans:
  assumes "sv_reach L M a sv' sv''" "sv_reach L M a sv sv'"
  shows "sv_reach L M a sv sv''"
  using assms by (induction rule: sv_reach.induct) (auto intro: sv_reach.step)

lemma sv_run_reach: "sv_run L M a es sv = Some sv' \<Longrightarrow> sv_reach L M a sv sv'"
proof (induction es arbitrary: sv)
  case Nil
  then show ?case by (simp add: sv_reach.start)
next
  case (Cons e es)
  then obtain sv1 where s: "sv_crash sv = None" "sv_step L M a e sv = Some sv1" "sv_run L M a es sv1 = Some sv'"
    by (auto split: if_splits option.splits)
  with Cons.IH have "sv_reach L M a sv1 sv'" by blast
  moreover have "sv_reach L M a sv sv1" by (rule sv_reach.step [OF sv_reach.start s(1,2)])
  ultimately show ?case by (rule sv_reach_trans)
qed

section \<open>Counting\<close>

text \<open>What each goroutine contributes to the counter.\<close>

fun conn_weight :: "conn_phase \<Rightarrow> nat" where
  "conn_weight Spawned = 0"
| "conn_weight Accepting = 1"
| "conn_weight (Counted s) = 2"
| "conn_weight (ConnDone x) = 0"

definition stream_weight :: "stream_phase \<Rightarrow> nat" where
  "stream_weight p = (if p = Closed then 0 else 1)"

definition in_flight :: "'x server \<Rightarrow> nat" where
  "in_flight sv =
     sum_list (map (conn_weight \<circ> cn_phase) (sv_conns sv)) +
     sum_list (map (stream_weight \<circ> st_phase) (sv_streams sv))"

definition wg_inv :: "'x server \<Rightarrow> bool" where
  "wg_inv sv \<longleftrightarrow> sv_wg sv = in_flight sv"

lemma weight_update:
  assumes "i < length xs"
  shows "sum_list (map f (xs[i := x])) + f (xs ! i) = sum_list (map f xs) + (f x :: nat)"
proof -
  have "f (xs ! i) \<le> sum_list (map f xs)"
    using assms member_le_sum_list [of "f (xs ! i)" "map f xs"] by simp
  then show ?thesis using assms by (simp add: map_update sum_list_update)
qed

lemma weight_le: "i < length xs \<Longrightarrow> f (xs ! i) \<le> sum_list (map f xs)" for f :: "_ \<Rightarrow> nat"
  by (rule member_le_sum_list) auto

lemma in_flight_phase:
  assumes "i < length (sv_conns sv)"
  shows "in_flight (set_phase i p sv) + conn_weight (cn_phase (sv_conns sv ! i)) =
    in_flight sv + conn_weight p"
  using weight_update [OF assms, of "conn_weight \<circ> cn_phase" "(sv_conns sv ! i)\<lparr>cn_phase := p\<rparr>"]
  by (simp add: in_flight_def set_phase_def)

lemma in_flight_stream:
  assumes "j < length (sv_streams sv)"
  shows "in_flight (sv\<lparr>sv_streams := (sv_streams sv)[j := t]\<rparr>) + stream_weight (st_phase (sv_streams sv ! j)) =
    in_flight sv + stream_weight (st_phase t)"
  using weight_update [OF assms, of "stream_weight \<circ> st_phase" t] by (simp add: in_flight_def)

lemma in_flight_cong:
  "sv_conns sv' = sv_conns sv \<Longrightarrow> sv_streams sv' = sv_streams sv \<Longrightarrow> in_flight sv' = in_flight sv"
  by (simp add: in_flight_def)

lemma in_flight_wg [simp]: "in_flight (sv\<lparr>sv_wg := n\<rparr>) = in_flight sv"
  by (simp add: in_flight_def)

lemma set_phase_simps [simp]:
  "sv_wg (set_phase i p sv) = sv_wg sv" "sv_crash (set_phase i p sv) = sv_crash sv"
  "sv_streams (set_phase i p sv) = sv_streams sv"
  by (simp_all add: set_phase_def)

lemma wg_Done_inv:
  "sv_wg sv = in_flight sv + 1 \<Longrightarrow> wg_inv (wg_Done sv) \<and> sv_crash (wg_Done sv) = sv_crash sv"
  by (simp add: wg_Done_def wg_inv_def in_flight_def)

lemma conn_end_inv:
  assumes "wg_inv sv" "conn_end i sv = Some sv'"
  shows "wg_inv sv' \<and> sv_crash sv' = sv_crash sv"
proof -
  from assms(2) obtain x where i: "i < length (sv_conns sv)" "cn_phase (sv_conns sv ! i) = Accepting"
    and sv': "sv' = wg_Done (set_phase i (ConnDone x) sv)"
    by (auto simp: conn_end_def Let_def split: if_splits)
  have "in_flight sv = in_flight (set_phase i (ConnDone x) sv) + 1"
    using in_flight_phase [OF i(1), of "ConnDone x"] i(2) by simp
  with assms(1) have "sv_wg (set_phase i (ConnDone x) sv) = in_flight (set_phase i (ConnDone x) sv) + 1"
    by (simp add: wg_inv_def)
  from wg_Done_inv [OF this] sv' show ?thesis by simp
qed

lemma conn_lost_inv:
  assumes "wg_inv sv" "conn_lost i sv = Some sv'"
  shows "wg_inv sv' \<and> sv_crash sv' = sv_crash sv"
proof -
  let ?c = "(sv_conns sv ! i)\<lparr>cn_lost := True\<rparr>"
  from assms(2) have i: "i < length (sv_conns sv)" and sv': "sv' = sv\<lparr>sv_conns := (sv_conns sv)[i := ?c]\<rparr>"
    by (auto simp: conn_lost_def split: if_splits)
  have "in_flight sv' = in_flight sv"
    using weight_update [OF i, of "conn_weight \<circ> cn_phase" ?c] by (simp add: sv' in_flight_def)
  with assms(1) sv' show ?thesis by (simp add: wg_inv_def)
qed

lemma stream_close_inv:
  assumes "wg_inv sv" "stream_close j sv = Some sv'"
  shows "wg_inv sv' \<and> sv_crash sv' = sv_crash sv"
proof -
  let ?t = "(sv_streams sv ! j)\<lparr>st_phase := Closed\<rparr>"
  let ?sv = "sv\<lparr>sv_streams := (sv_streams sv)[j := ?t]\<rparr>"
  from assms(2) have j: "j < length (sv_streams sv)" "st_phase (sv_streams sv ! j) = Dispatched"
    and sv': "sv' = wg_Done ?sv"
    by (auto simp: stream_close_def split: if_splits)
  have "in_flight sv = in_flight ?sv + 1"
    using in_flight_stream [OF j(1), of ?t] j(2) by (simp add: stream_weight_def)
  with assms(1) have "sv_wg ?sv = in_flight ?sv + 1" by (simp add: wg_inv_def)
  from wg_Done_inv [OF this] sv' show ?thesis by simp
qed

lemma HandleNativeConn_start_inv:
  assumes "wg_inv sv" "HandleNativeConn_start i sv = Some sv'"
  shows "wg_inv sv' \<and> sv_crash sv' = sv_crash sv"
proof -
  let ?sv = "sv\<lparr>sv_wg := sv_wg sv + 1\<rparr>"
  from assms(2) have i: "i < length (sv_conns ?sv)" "cn_phase (sv_conns ?sv ! i) = Spawned"
    and sv': "sv' = set_phase i Accepting ?sv"
    by (auto simp: HandleNativeConn_start_def split: if_splits)
  from in_flight_phase [OF i(1), of Accepting] i(2) assms(1) sv' show ?thesis
    by (simp add: wg_inv_def)
qed

lemma conn_accept_inv:
  assumes "wg_inv sv" "conn_accept i s sv = Some sv'"
  shows "wg_inv sv' \<and> sv_crash sv' = sv_crash sv"
proof -
  let ?sv = "sv\<lparr>sv_wg := sv_wg sv + 1\<rparr>"
  from assms(2) have i: "i < length (sv_conns ?sv)" "cn_phase (sv_conns ?sv ! i) = Accepting"
    and sv': "sv' = set_phase i (Counted s) ?sv"
    by (auto simp: conn_accept_def split: if_splits)
  from in_flight_phase [OF i(1), of "Counted s"] i(2) assms(1) sv' show ?thesis
    by (simp add: wg_inv_def)
qed

lemma conn_spawn_inv:
  assumes "wg_inv sv" "conn_spawn i sv = Some sv'"
  shows "wg_inv sv' \<and> sv_crash sv' = sv_crash sv"
proof -
  from assms(2) obtain s where i: "i < length (sv_conns sv)" "cn_phase (sv_conns sv ! i) = Counted s"
    and sv': "sv' = set_phase i Accepting (sv\<lparr>sv_streams := sv_streams sv @
                  [\<lparr>st_conn = i, st_in = s, st_stream = s, st_phase = Running\<rparr>]\<rparr>)" (is "_ = set_phase i _ ?sv")
    by (auto simp: conn_spawn_def split: if_splits conn_phase.splits)
  have "in_flight ?sv = in_flight sv + 1" by (simp add: in_flight_def stream_weight_def)
  with in_flight_phase [of i ?sv Accepting] i assms(1) sv' show ?thesis by (simp add: wg_inv_def)
qed

lemma stream_dispatch_inv:
  assumes "wg_inv sv" "stream_dispatch L M a j sv = Some sv'"
  shows "wg_inv sv'"
proof -
  let ?t = "sv_streams sv ! j"
  from assms(2) obtain s w c where j: "j < length (sv_streams sv)" "st_phase ?t = Running"
    and sv': "sv' = sv\<lparr>sv_streams := (sv_streams sv)[j := ?t\<lparr>st_stream := s, st_phase := Dispatched\<rparr>],
                       sv_world := w, sv_crash := c\<rparr>"
    by (auto simp: stream_dispatch_def Let_def split: if_splits prod.splits)
  have "in_flight sv' = in_flight (sv\<lparr>sv_streams := (sv_streams sv)[j := ?t\<lparr>st_stream := s, st_phase := Dispatched\<rparr>]\<rparr>)"
    by (rule in_flight_cong) (simp_all add: sv')
  with in_flight_stream [OF j(1), of "?t\<lparr>st_stream := s, st_phase := Dispatched\<rparr>"] j(2) assms(1) sv'
  show ?thesis by (simp add: wg_inv_def stream_weight_def)
qed

lemmas step_invs = conn_lost_inv conn_end_inv stream_close_inv HandleNativeConn_start_inv conn_accept_inv
  conn_spawn_inv

lemma sv_step_inv:
  assumes "wg_inv sv" "sv_step L M a e sv = Some sv'"
  shows "wg_inv sv'" and "(\<And>j. e \<noteq> Dispatch j) \<Longrightarrow> sv_crash sv' = sv_crash sv"
  using assms
  by (cases e;
      auto simp: wg_inv_def in_flight_def wt_upgrade_def Shutdown_def close_on_done_def dest: step_invs [unfolded wg_inv_def in_flight_def]
        stream_dispatch_inv [unfolded wg_inv_def in_flight_def] split: if_splits)+

lemma wg_inv_reach: "sv_reach L M a (server_start w) sv \<Longrightarrow> wg_inv sv"
  by (induction rule: sv_reach.induct)
    (auto simp: server_start_def wg_inv_def in_flight_def dest: sv_step_inv(1) [unfolded wg_inv_def in_flight_def])

section \<open>When ListenNative returns\<close>

lemma wg_Done_fields [simp]:
  "sv_listener (wg_Done sv) = sv_listener sv" "sv_ctxErr (wg_Done sv) = sv_ctxErr sv"
  by (simp_all add: wg_Done_def)

lemma set_phase_fields [simp]:
  "sv_listener (set_phase i p sv) = sv_listener sv" "sv_ctxErr (set_phase i p sv) = sv_ctxErr sv"
  by (simp_all add: set_phase_def)

lemma sv_step_listener:
  assumes "sv_step L M a e sv = Some sv'" "sv_listener sv = Returned None \<longrightarrow> sv_ctxErr sv"
  shows "sv_listener sv' = Returned None \<longrightarrow> sv_ctxErr sv'"
proof (cases "\<exists>p ctx err. e = AcceptConn p ctx \<or> e = AcceptFail err")
  case True
  then have "listen_step e sv = Some sv'" using assms(1) by auto
  then show ?thesis using assms(2) by (elim listen_stepE) (auto split: if_splits)
next
  case False
  with assms show ?thesis
    by (cases e)
      (auto simp: wt_upgrade_def Shutdown_def close_on_done_def HandleNativeConn_start_def conn_accept_def conn_spawn_def
        conn_lost_def conn_end_def stream_dispatch_def stream_close_def Let_def
        split: if_splits conn_phase.splits prod.splits)
qed

text \<open>ListenNative returns without an error only after its context was cancelled.\<close>

lemma listener_returns_nil:
  assumes "sv_reach L M a (server_start w) sv"
  shows "sv_listener sv = Returned None \<longrightarrow> sv_ctxErr sv"
  using assms
proof (induction rule: sv_reach.induct)
  case start
  show ?case by (simp add: server_start_def)
next
  case (step sv' e sv'')
  show ?case by (rule sv_step_listener [OF step.hyps(3) step.IH])
qed

text \<open>
  The listener is closed when ListenNative has returned, and before that only once the context is done; a
  connection goroutine that has ended closed its connection with code 0 exactly when it is a native one.
\<close>

definition ends_ok :: "'x server \<Rightarrow> bool" where
  "ends_ok sv \<longleftrightarrow>
     (sv_listener sv \<noteq> Listening \<longrightarrow> sv_lnClosed sv) \<and>
     (sv_lnClosed sv \<longrightarrow> sv_ctxErr sv \<or> sv_listener sv \<noteq> Listening) \<and>
     (\<forall>c \<in> set (sv_conns sv). \<forall>x. cn_phase c = ConnDone x \<longrightarrow>
        x = (case peer_transport (cn_peer c) of Native \<Rightarrow> Some (ApplicationErrorCode 0, ''done'') | WebTransport \<Rightarrow> None))"

lemma ends_ok_phase:
  assumes "ends_ok sv" "i < length (sv_conns sv)" "sv_listener sv' = sv_listener sv" "sv_lnClosed sv' = sv_lnClosed sv"
    and "sv_ctxErr sv' = sv_ctxErr sv" "sv_conns sv' = (sv_conns sv)[i := (sv_conns sv ! i)\<lparr>cn_phase := p\<rparr>]"
    and "\<And>x. p = ConnDone x \<Longrightarrow> x = (case peer_transport (cn_peer (sv_conns sv ! i)) of
           Native \<Rightarrow> Some (ApplicationErrorCode 0, ''done'') | WebTransport \<Rightarrow> None)"
  shows "ends_ok sv'"
  using assms by (auto simp: ends_ok_def dest!: set_update_subset_insert [THEN subsetD])

lemma sv_step_ends:
  assumes "ends_ok sv" "sv_step L M a e sv = Some sv'"
  shows "ends_ok sv'"
proof (cases e)
  case (ConnStart i)
  with assms(2) show ?thesis
    by (intro ends_ok_phase [OF assms(1), of i _ Accepting])
      (auto simp: HandleNativeConn_start_def set_phase_def split: if_splits)
next
  case (AcceptStream i s)
  with assms(2) show ?thesis
    by (intro ends_ok_phase [OF assms(1), of i _ "Counted s"]) (auto simp: conn_accept_def set_phase_def split: if_splits)
next
  case (SpawnStream i)
  with assms(2) show ?thesis
    by (intro ends_ok_phase [OF assms(1), of i _ Accepting])
      (auto simp: conn_spawn_def set_phase_def split: if_splits conn_phase.splits)
next
  case (ConnLost i)
  let ?c = "(sv_conns sv ! i)\<lparr>cn_lost := True\<rparr>"
  from ConnLost assms(2) have i: "i < length (sv_conns sv)" "sv' = sv\<lparr>sv_conns := (sv_conns sv)[i := ?c]\<rparr>"
    by (auto simp: conn_lost_def split: if_splits)
  moreover have "sv_conns sv ! i \<in> set (sv_conns sv)" using i(1) by simp
  ultimately show ?thesis using assms(1) by (auto simp: ends_ok_def dest!: set_update_subset_insert [THEN subsetD])
next
  case (ConnEnd i)
  let ?p = "cn_peer (sv_conns sv ! i)"
  let ?x = "if peer_transport ?p = Native then Some (CloseWithError ?p 0 ''done'') else None"
  from ConnEnd assms(2) show ?thesis
    by (intro ends_ok_phase [OF assms(1), of i _ "ConnDone ?x"])
      (auto simp: conn_end_def set_phase_def wg_Done_def CloseWithError_def Let_def split: if_splits transport.splits)
qed (use assms in \<open>auto simp: ends_ok_def wt_upgrade_def Shutdown_def close_on_done_def stream_close_def stream_dispatch_def
      wg_Done_def Let_def split: if_splits prod.splits elim!: listen_stepE\<close>)

lemma ends_ok_reach: "sv_reach L M a (server_start w) sv \<Longrightarrow> ends_ok sv"
proof (induction rule: sv_reach.induct)
  case start
  show ?case by (simp add: server_start_def ends_ok_def)
next
  case (step sv' e sv'')
  from sv_step_ends [OF step.IH step.hyps(3)] show ?case .
qed

section \<open>What a finished stream holds\<close>

text \<open>A stream is untouched until it is dispatched, and then it is what dispatchStream made of it.\<close>

definition task_ok :: "golib \<Rightarrow> 'v msgpack \<Rightarrow> ('v, 'x world_scheme) App \<Rightarrow> stream_task \<Rightarrow> bool" where
  "task_ok L M a t \<longleftrightarrow>
     (if st_phase t = Running then st_stream t = st_in t
      else \<exists>ctx peer w r w'. dispatchStream L M a ctx peer (st_in t) w = (r, st_stream t, w'))"

lemma list_all_update: "list_all P xs \<Longrightarrow> P x \<Longrightarrow> list_all P (xs[i := x])"
  by (auto simp: list_all_iff dest: set_update_subset_insert [THEN subsetD])

lemma wg_Done_streams [simp]: "sv_streams (wg_Done sv) = sv_streams sv"
  by (simp add: wg_Done_def)

lemma stream_dispatch_tasks:
  assumes "list_all (task_ok L M a) (sv_streams sv)" "stream_dispatch L M a j sv = Some sv'"
  shows "list_all (task_ok L M a) (sv_streams sv')"
proof -
  let ?t = "sv_streams sv ! j" and ?cn = "sv_conns sv ! st_conn (sv_streams sv ! j)"
  from assms(2) obtain r s w where j: "j < length (sv_streams sv)" "st_phase ?t = Running"
    and d: "dispatchStream L M a (cn_ctx ?cn) (cn_peer ?cn) (st_stream ?t) (sv_world sv) = (r, s, w)"
    and sv': "sv_streams sv' = (sv_streams sv)[j := ?t\<lparr>st_stream := s, st_phase := Dispatched\<rparr>]"
    by (auto simp: stream_dispatch_def Let_def split: if_splits prod.splits)
  from assms(1) j have "st_stream ?t = st_in ?t" by (auto simp: list_all_length task_ok_def)
  with d have "task_ok L M a (?t\<lparr>st_stream := s, st_phase := Dispatched\<rparr>)"
    by (simp add: task_ok_def) blast
  with assms(1) sv' show ?thesis by (simp add: list_all_update)
qed

lemma sv_step_tasks:
  assumes "list_all (task_ok L M a) (sv_streams sv)" "sv_step L M a e sv = Some sv'"
  shows "list_all (task_ok L M a) (sv_streams sv')"
proof (cases e)
  case (Dispatch j)
  with assms stream_dispatch_tasks show ?thesis by fastforce
next
  case (CloseStream j)
  with assms(2) have j: "j < length (sv_streams sv)" "st_phase (sv_streams sv ! j) = Dispatched"
      "sv_streams sv' = (sv_streams sv)[j := (sv_streams sv ! j)\<lparr>st_phase := Closed\<rparr>]"
    by (auto simp: stream_close_def split: if_splits)
  from assms(1) j(1,2) have "task_ok L M a ((sv_streams sv ! j)\<lparr>st_phase := Closed\<rparr>)"
    by (auto simp: list_all_length task_ok_def)
  with assms(1) j(3) show ?thesis by (simp add: list_all_update)
qed (use assms in \<open>auto simp: HandleNativeConn_start_def wt_upgrade_def Shutdown_def close_on_done_def conn_accept_def
      conn_spawn_def conn_lost_def conn_end_def task_ok_def Let_def split: if_splits conn_phase.splits\<close>)

lemma tasks_reach: "sv_reach L M a (server_start w) sv \<Longrightarrow> list_all (task_ok L M a) (sv_streams sv)"
  by (induction rule: sv_reach.induct) (auto simp: server_start_def dest: sv_step_tasks)

section \<open>Properties of the server\<close>

text \<open>
  C12: The WaitGroup counts what is in flight. In every reachable state of the server, its counter is
  the number of connection and session handlers inside their accept loop, plus the streams counted
  but not started, plus the stream goroutines that have not finished; so no Done ever finds the counter
  at zero, and only a handler's own panic can crash the process.
\<close>

theorem waitgroup_counts:
  assumes "sv_reach L M a (server_start w) sv" "sv_step L M a e sv = Some sv'" "sv_crash sv = None"
  shows "sv_wg sv = in_flight sv \<and> ((\<forall>j. e \<noteq> Dispatch j) \<longrightarrow> sv_crash sv' = None)"
  using wg_inv_reach [OF assms(1)] sv_step_inv [OF wg_inv_reach [OF assms(1)] assms(2)] assms(3)
  by (auto simp: wg_inv_def)

text \<open>The server of the examples: an App that answers, and a stream with a request for it.\<close>

definition sample_stream :: gostream where
  "sample_stream = framed FrameTypeRequest ''/a''"

definition sample_run :: "sv_event list \<Rightarrow> world server" where
  "sample_run es = the (sv_run sample_lib sample_msgpack sample_app es (server_start sample_world))"

lemma sample_run_reach:
  assumes "sv_run sample_lib sample_msgpack sample_app es (server_start sample_world) \<noteq> None"
  shows "sv_reach sample_lib sample_msgpack sample_app (server_start sample_world) (sample_run es)"
  using assms sv_run_reach by (fastforce simp: sample_run_def)

lemmas sv_simps = server_start_def HandleNativeConn_start_def conn_accept_def conn_spawn_def conn_lost_def conn_end_def
  set_phase_def wg_Done_def wt_upgrade_def Shutdown_def close_on_done_def

theorem waitgroup_counts_witness:
  "sv_wg (sample_run [AcceptConn sample_peer None, ConnStart 0, ConnLost 0]) =
     in_flight (sample_run [AcceptConn sample_peer None, ConnStart 0, ConnLost 0]) \<and>
   sv_crash (the (sv_step sample_lib sample_msgpack sample_app (ConnEnd 0)
     (sample_run [AcceptConn sample_peer None, ConnStart 0, ConnLost 0]))) = None"
proof -
  let ?sv = "sample_run [AcceptConn sample_peer None, ConnStart 0, ConnLost 0]"
  have "sv_reach sample_lib sample_msgpack sample_app (server_start sample_world) ?sv"
    by (rule sample_run_reach) (simp add: sv_simps)
  from waitgroup_counts [OF this, where e = "ConnEnd 0"] show ?thesis
    by (simp add: sample_run_def sv_simps)
qed

text \<open>
  C13: Shutdown waits. Shutdown can only return in a state in which every stream goroutine that was
  started has finished and no connection or session handler is in its accept loop.
\<close>

theorem shutdown_waits:
  assumes "sv_reach L M a (server_start w) sv" "sv_step L M a ShutdownReturn sv = Some sv'"
  shows "list_all (\<lambda>t. st_phase t = Closed) (sv_streams sv) \<and>
    list_all (\<lambda>c. cn_phase c = Spawned \<or> (\<exists>x. cn_phase c = ConnDone x)) (sv_conns sv)"
proof -
  from assms(2) have "sv_wg sv = 0" by (simp add: Shutdown_def split: if_splits)
  with wg_inv_reach [OF assms(1)] have z: "in_flight sv = 0" by (simp add: wg_inv_def)
  have "conn_weight p = 0 \<longleftrightarrow> p = Spawned \<or> (\<exists>x. p = ConnDone x)" for p by (cases p) auto
  with z show ?thesis
    by (auto simp: in_flight_def list_all_iff stream_weight_def split: if_splits)
qed

theorem shutdown_waits_witness:
  "list_all (\<lambda>t. st_phase t = Closed) (sv_streams (sample_run [AcceptConn sample_peer None])) \<and>
   list_all (\<lambda>c. cn_phase c = Spawned \<or> (\<exists>x. cn_phase c = ConnDone x)) (sv_conns (sample_run [AcceptConn sample_peer None]))"
  by (rule shutdown_waits [OF sample_run_reach, where sv' = "the (sv_step sample_lib sample_msgpack sample_app
        ShutdownReturn (sample_run [AcceptConn sample_peer None]))"])
    (simp_all add: sample_run_def sv_simps)

text \<open>
  C36: Shutdown can return too early. HandleNativeConn counts itself only once its goroutine runs, so this order
  of events is a run of every App, on a server whose accept loop has just accepted a native connection: the
  context is cancelled and the accept loop returns nil; Shutdown, called next, finds the counter at zero and
  returns; only then does the goroutine of the accepted connection start, take a stream and run a handler on
  it, which Shutdown has not waited for.
\<close>

theorem shutdown_race:
  "\<exists>before after. sv_run L M a [AcceptConn p ctx, Cancel, AcceptFail e] (server_start w) = Some before \<and>
     sv_listener before = Returned None \<and> sv_shutdowns before = 0 \<and>
     sv_conns before = [\<lparr>cn_peer = p, cn_ctx = ctx, cn_phase = Spawned, cn_lost = False\<rparr>] \<and>
     sv_run L M a [ShutdownReturn, ConnStart 0, AcceptStream 0 s, SpawnStream 0] before = Some after \<and>
     sv_shutdowns after = 1 \<and>
     sv_streams after = [\<lparr>st_conn = 0, st_in = s, st_stream = s, st_phase = Running\<rparr>] \<and>
     sv_step L M a (Dispatch 0) after \<noteq> None"
  by (simp add: sv_simps stream_dispatch_def Let_def split: prod.split)

text \<open>
  C3: Every stream gets its own reply. In every reachable state, a stream that takes every write and whose goroutine has run the
  dispatcher on a well-formed request carries a reply of the specified shape to that request, whatever
  the other connections and streams did in between, on an App whose handlers and middleware use only the
  Context's calls and whose after-middleware writes nothing.
\<close>

theorem server_replies:
  assumes "sv_reach L M a (server_start w) sv" "t \<in> set (sv_streams sv)" "st_phase t \<noteq> Running"
    and "app_within (api_reach M) a" "list_all quiet (app_afterMiddleware a)" "healthy (st_in t)"
    and "ReadFrame (st_in t) = (Inr (FrameTypeRequest, data), s1)" "DecodeRequest M data = Inr req"
  shows "\<exists>rep. reply_shape (req_ID req) rep \<and>
    tx (st_stream t) = tx (st_in t) @ wire_bytes M (reply_msgs (req_ID req) rep)"
proof -
  have "task_ok L M a t" using tasks_reach [OF assms(1)] assms(2) by (simp add: list_all_iff)
  with assms(3) obtain ctx peer w r w' where
    d: "dispatchStream L M a ctx peer (st_in t) w = (r, st_stream t, w')"
    by (auto simp: task_ok_def)
  from dispatchStream_reply [OF assms(4-8) d] show ?thesis by blast
qed

theorem server_replies_witness:
  "\<exists>rep. reply_shape (req_ID sample_req) rep \<and>
    tx (st_stream (hd (sv_streams (sample_run
        [AcceptConn sample_peer None, ConnStart 0, AcceptStream 0 sample_stream, SpawnStream 0, Dispatch 0])))) =
      tx (st_in (hd (sv_streams (sample_run
        [AcceptConn sample_peer None, ConnStart 0, AcceptStream 0 sample_stream, SpawnStream 0, Dispatch 0])))) @
      wire_bytes sample_msgpack (reply_msgs (req_ID sample_req) rep)"
proof -
  let ?es = "[AcceptConn sample_peer None, ConnStart 0, AcceptStream 0 sample_stream, SpawnStream 0, Dispatch 0]"
  obtain r s w where d: "dispatchStream sample_lib sample_msgpack sample_app None sample_peer sample_stream
      sample_world = (r, s, w)"
    by (cases "dispatchStream sample_lib sample_msgpack sample_app None sample_peer sample_stream sample_world")
  have run: "sv_run sample_lib sample_msgpack sample_app ?es (server_start sample_world) \<noteq> None"
    and t: "sv_streams (sample_run ?es) = [\<lparr>st_conn = 0, st_in = sample_stream, st_stream = s, st_phase = Dispatched\<rparr>]"
    using d by (simp_all add: sample_run_def sv_simps stream_dispatch_def Let_def)
  show ?thesis
  proof (rule server_replies [OF sample_run_reach [OF run]])
    show "hd (sv_streams (sample_run ?es)) \<in> set (sv_streams (sample_run ?es))"
      "st_phase (hd (sv_streams (sample_run ?es))) \<noteq> Running" by (simp_all add: t)
    show "app_within (api_reach sample_msgpack) sample_app" by (rule sample_app_within)
    show "list_all quiet (app_afterMiddleware sample_app)" by (simp add: sample_app_after)
    show "healthy (st_in (hd (sv_streams (sample_run ?es))))" unfolding t by (simp add: sample_stream_def healthy_framed)
    show "ReadFrame (st_in (hd (sv_streams (sample_run ?es)))) =
        (Inr (FrameTypeRequest, str_bytes ''/a''), sample_stream\<lparr>rx := []\<rparr>)"
      unfolding t by (simp add: sample_stream_def ReadFrame_framed)
    show "DecodeRequest sample_msgpack (str_bytes ''/a'') = Inr sample_req"
      by (rule sample_decode)
  qed
qed

lemma recovered_no_crash:
  assumes "app_middleware a = Recovery M ls # mw" "list_all no_panic (app_afterMiddleware a)"
    and "sv_reach L M a (server_start w) sv"
  shows "sv_crash sv = None"
  using assms(3)
proof (induction rule: sv_reach.induct)
  case start
  show ?case by (simp add: server_start_def)
next
  case (step sv' e sv'')
  show ?case
  proof (cases "\<exists>j. e = Dispatch j")
    case False
    with sv_step_inv(2) [OF wg_inv_reach [OF step.hyps(1)] step.hyps(3)] step.hyps(2) show ?thesis by simp
  next
    case True
    then obtain j where e: "e = Dispatch j" by blast
    show ?thesis
      using step.hyps(3) dispatchStream_recovered [OF assms(1,2), of L]
      by (auto simp: e stream_dispatch_def Let_def split: if_splits prod.splits) (metis Pair_inject outcome.simps(5))
  qed
qed

text \<open>
  C15: With Recovery as its first middleware, and after-middleware that does not panic, a server never
  crashes: no order of connections, streams and requests reaches a state with an unrecovered panic.
\<close>

theorem recovered_server_never_crashes:
  assumes "app_middleware a = Recovery M ls # mw" "list_all no_panic (app_afterMiddleware a)"
    and "sv_reach L M a (server_start w) sv"
  shows "sv_crash sv = None"
  using assms by (rule recovered_no_crash)

theorem recovered_server_never_crashes_witness:
  "sv_crash (the (sv_run sample_lib sample_msgpack panicking_app [Upgrade sample_peer None,
     AcceptStream 0 sample_stream, SpawnStream 0] (server_start sample_world))) = None"
proof (rule recovered_server_never_crashes)
  show "app_middleware panicking_app = Recovery sample_msgpack [] # [\<lambda>next c w. (Panic ''boom'', c, w)]"
    "list_all no_panic (app_afterMiddleware panicking_app)"
    by (simp_all add: panicking_app_def App_Use_def App_New_def)
  let ?r = "sv_run sample_lib sample_msgpack panicking_app [Upgrade sample_peer None,
     AcceptStream 0 sample_stream, SpawnStream 0] (server_start sample_world)"
  have "?r = Some (the ?r)" by (simp add: sv_simps)
  then show "sv_reach sample_lib sample_msgpack panicking_app (server_start sample_world) (the ?r)"
    by (rule sv_run_reach)
qed

end
