(* ===== verification/Transport.thy ===== *)
theory Transport
  imports Conn
begin

text \<open>
  Dialling and listening: transport/transport.go, Dial of framework/client.go and the set-up of
  ListenNative and ListenAddr (framework/app.go). quic-go is a parameter: \<open>dial\<close> is quic.DialAddr and
  \<open>listen\<close> quic.ListenAddr, as functions of the address and the configurations they are given. What
  the sources decide themselves are the application protocols (ALPN) of the TLS configuration.
\<close>

record tls_config =
  tc_Certificates :: "bytes list list" \<comment> \<open>each a chain of DER certificates\<close>
  tc_MinVersion :: nat
  tc_NextProtos :: "string list"

type_synonym 'c quic_open = "string \<Rightarrow> tls_config \<Rightarrow> quicConfig option \<Rightarrow> goerr + 'c"

text \<open>The calls below clone the TLS configuration; a nil one panics at the assignment that follows.\<close>

definition nil_deref :: string where
  "nil_deref = ''runtime error: invalid memory address or nil pointer dereference''"

definition control_protos :: "tls_config \<Rightarrow> tls_config" where
  "control_protos cfg =
     (if length (tc_NextProtos cfg) = 0 then cfg\<lparr>tc_NextProtos := [''control/v1'', ''qf/1'']\<rparr> else cfg)"

definition DialControl ::
    "'c quic_open \<Rightarrow> string \<Rightarrow> tls_config option \<Rightarrow> quicConfig option \<Rightarrow> (goerr + 'c) outcome" where
  "DialControl dial addr tlsCfg quicCfg =
     (case tlsCfg of
        None \<Rightarrow> Panic nil_deref
      | Some cfg \<Rightarrow> Ret (wrap_err ''transport: DialControl: '' (dial addr (control_protos cfg) quicCfg)))"

definition ListenControl ::
    "'c quic_open \<Rightarrow> string \<Rightarrow> tls_config option \<Rightarrow> quicConfig option \<Rightarrow> (goerr + 'c) outcome" where
  "ListenControl listen addr tlsCfg quicCfg =
     (case tlsCfg of
        None \<Rightarrow> Panic nil_deref
      | Some cfg \<Rightarrow> Ret (wrap_err ''transport: ListenControl: '' (listen addr (control_protos cfg) quicCfg)))"

text \<open>The struct of framework/client.go; its mutex guards \<open>cl_hashes\<close>.\<close>

record 'c Client =
  cl_conn :: 'c
  cl_quicCfg :: "quicConfig option"
  cl_hashes :: "string list"

definition Dial ::
    "'c quic_open \<Rightarrow> string \<Rightarrow> tls_config option \<Rightarrow> quicConfig option \<Rightarrow> (goerr + 'c Client) outcome" where
  "Dial dial addr tlsCfg quicCfg =
     (let qc = (case quicCfg of
                  None \<Rightarrow> \<lparr>qc_MaxIncomingStreams = 0, qc_MaxIncomingUniStreams = 0,
                          qc_KeepAlivePeriod = 30 * Second, qc_MaxIdleTimeout = 5 * 60 * Second,
                          qc_EnableDatagrams = True\<rparr>
                | Some qc \<Rightarrow> qc)
      in case tlsCfg of
           None \<Rightarrow> Panic nil_deref
         | Some cfg \<Rightarrow>
             (case dial addr (cfg\<lparr>tc_NextProtos := [''qf/1'']\<rparr>) (Some qc) of
                Inl err \<Rightarrow> Ret (Inl (Wrap ''quicframe: dial: '' err))
              | Inr conn \<Rightarrow> Ret (Inr \<lparr>cl_conn = conn, cl_quicCfg = Some qc, cl_hashes = []\<rparr>)))"

definition NewClientFromConn :: "'c \<Rightarrow> 'c Client" where
  "NewClientFromConn conn = \<lparr>cl_conn = conn, cl_quicCfg = None, cl_hashes = []\<rparr>"

definition Client_Conn :: "'c Client \<Rightarrow> 'c" where
  "Client_Conn c = cl_conn c"

text \<open>Close, over the connection's CloseWithError.\<close>

definition Client_Close :: "('c \<Rightarrow> 64 word \<Rightarrow> string \<Rightarrow> goerr option) \<Rightarrow> 'c Client \<Rightarrow> goerr option" where
  "Client_Close closeWithError c = closeWithError (cl_conn c) 0 ''client closed''"

text \<open>A client over the connection of a request: the type test on quicConnWrapper.\<close>

definition Ctx_Client :: "'v Context \<Rightarrow> peer Client option" where
  "Ctx_Client c =
     (if peer_transport (ctx_conn c) = Native then Some (NewClientFromConn (ctx_conn c)) else None)"

definition native_protos :: "tls_config \<Rightarrow> tls_config" where
  "native_protos cfg = cfg\<lparr>tc_NextProtos := prepend ''qf/1'' (tc_NextProtos cfg)\<rparr>"

text \<open>ListenNative up to its accept loop, which is \<open>listen_step\<close> on the state it starts.\<close>

definition ListenNative ::
    "'c quic_open \<Rightarrow> ('v, 'x world_scheme) App \<Rightarrow> string \<Rightarrow> tls_config option \<Rightarrow> 'x world_scheme \<Rightarrow>
       (goerr + 'x world_scheme server) outcome" where
  "ListenNative listen a addr tlsCfg w =
     (case tlsCfg of
        None \<Rightarrow> Panic nil_deref
      | Some cfg \<Rightarrow>
          (case listen addr (native_protos cfg) (Some (app_quicCfg a)) of
             Inl err \<Rightarrow> Ret (Inl (Wrap ''quicframe: ListenNative: '' err))
           | Inr ln \<Rightarrow>
               Ret (Inr (server_start
                 (log_to (app_logger a) LevelInfo ''quicframe native transport listening''
                   [(''addr'', LvStr addr), (''alpn'', LvStr ''qf/1'')] w)))))"

text \<open>
  ListenWebTransport: what it hands to the HTTP/3 and WebTransport libraries. \<open>configureTLS\<close> is
  http3.ConfigureTLSConfig, \<open>configureH3\<close> is webtransport.ConfigureHTTP3Server and \<open>serve\<close> is ListenAndServe
  of the WebTransport server, which returns only with an error.
\<close>

record http3_server =
  h3_Addr :: string
  h3_TLSConfig :: tls_config
  h3_QUICConfig :: quicConfig
  h3_Handler :: "string list" \<comment> \<open>the paths of the mux\<close>

record wt_server =
  wt_H3 :: http3_server
  wt_ApplicationProtocols :: "string list"
  wt_CheckOrigin :: "string \<Rightarrow> bool"

definition ListenWebTransport ::
    "(tls_config option \<Rightarrow> tls_config outcome) \<Rightarrow> (http3_server \<Rightarrow> http3_server) \<Rightarrow>
       (wt_server \<Rightarrow> goerr option) \<Rightarrow> ('v, 'x world_scheme) App \<Rightarrow> string \<Rightarrow> tls_config option \<Rightarrow>
       'x world_scheme \<Rightarrow> goerr option outcome \<times> 'x world_scheme" where
  "ListenWebTransport configureTLS configureH3 serve a addr tlsCfg w =
     (case configureTLS tlsCfg of
        Panic v \<Rightarrow> (Panic v, w)
      | Ret cfg \<Rightarrow>
          (let h3srv = configureH3 \<lparr>h3_Addr = addr, h3_TLSConfig = cfg, h3_QUICConfig = app_quicCfg a, h3_Handler = []\<rparr>;
               wtSrv = \<lparr>wt_H3 = h3srv\<lparr>h3_Handler := [''/wt'']\<rparr>, wt_ApplicationProtocols = [''quicframe''],
                        wt_CheckOrigin = \<lambda>origin. True\<rparr>;
               w' = log_to (app_logger a) LevelInfo ''quicframe WebTransport listening''
                      [(''addr'', LvStr addr), (''endpoint'', LvStr ''/wt'')] w
           in (Ret (serve wtSrv), w')))"

text \<open>The /wt handler: a failed upgrade is logged and starts nothing.\<close>

definition wt_endpoint ::
    "('v, 'x world_scheme) App \<Rightarrow> goerr + peer \<times> gocontext option \<Rightarrow> 'x world_scheme server \<Rightarrow>
       'x world_scheme server" where
  "wt_endpoint a upgraded sv =
     (case upgraded of
        Inl err \<Rightarrow> sv\<lparr>sv_world := log_to (app_logger a) LevelError ''webtransport upgrade failed''
                               [(''err'', LvErr (Some err))] (sv_world sv)\<rparr>
      | Inr (p, ctx) \<Rightarrow> wt_upgrade p ctx sv)"

text \<open>
  ListenAddr: the listeners send their results on one channel and the first to arrive is returned.
  \<open>arrivals\<close> are the results in the order in which they are sent, \<open>True\<close> for WebTransport; \<open>None\<close> when
  no listener has returned, and ListenAddr blocks.
\<close>

definition ListenAddr :: "string \<Rightarrow> (bool \<times> goerr option) list \<Rightarrow> goerr option option" where
  "ListenAddr wtAddr arrivals =
     (case filter (\<lambda>r. \<not> fst r \<or> wtAddr \<noteq> []) arrivals of
        [] \<Rightarrow> None
      | r # _ \<Rightarrow> Some (snd r))"

section \<open>Closing a connection\<close>

text \<open>The number a peer sees as the reason of the close.\<close>

fun close_number :: "close_code \<Rightarrow> nat" where
  "close_number (ApplicationErrorCode c) = unat c"
| "close_number (SessionErrorCode c) = unat c"

lemma CloseWithError_number:
  "close_number (fst (CloseWithError p code msg)) =
    (case peer_transport p of Native \<Rightarrow> unat code | WebTransport \<Rightarrow> unat code mod 2 ^ 32)"
  by (simp add: CloseWithError_def unsigned_ucast_eq unsigned_take_bit_eq take_bit_eq_mod split: transport.split)

text \<open>Both transports report a code the caller gives exactly when it fits 32 bits.\<close>

lemma CloseWithError_same:
  "close_number (fst (CloseWithError (p\<lparr>peer_transport := Native\<rparr>) code msg)) =
     close_number (fst (CloseWithError (p\<lparr>peer_transport := WebTransport\<rparr>) code msg)) \<longleftrightarrow> unat code < 2 ^ 32"
proof -
  have "unat code = unat code mod 2 ^ 32 \<longleftrightarrow> unat code < 2 ^ 32"
    by (metis mod_less mod_less_divisor zero_less_numeral zero_less_power)
  then show ?thesis by (simp add: CloseWithError_number)
qed

section \<open>Protocol negotiation\<close>

text \<open>
  crypto/tls: the server's first protocol that the client offers; no negotiation when one side names
  none.
\<close>

definition negotiateALPN :: "string list \<Rightarrow> string list \<Rightarrow> string option" where
  "negotiateALPN server client = find (\<lambda>p. p \<in> set client) server"

lemma prepend_hd: "\<exists>rest. prepend e xs = e # rest \<and> e \<notin> set rest"
  by (simp add: prepend_def)

text \<open>A dialled server that offers the given protocols: the connection is known by what was negotiated.\<close>

definition tls_dial :: "string list \<Rightarrow> string quic_open" where
  "tls_dial server addr cfg qc =
     (case negotiateALPN server (tc_NextProtos cfg) of
        None \<Rightarrow> Inl (Err ''tls: no application protocol'')
      | Some p \<Rightarrow> Inr p)"

text \<open>
  Clients and servers agree on a protocol. Whatever application protocols the TLS configurations
  name, Dial to a listener of ListenNative negotiates qf/1, and so do Dial to a listener of
  ListenControl and DialControl to a listener of ListenNative when the control side is left at its
  default protocols; with both at their defaults DialControl and ListenControl negotiate control/v1.
\<close>

theorem alpn_agreement:
  "(\<exists>qc. Dial (tls_dial (tc_NextProtos (native_protos scfg))) addr (Some ccfg) q =
     Ret (Inr \<lparr>cl_conn = ''qf/1'', cl_quicCfg = Some qc, cl_hashes = []\<rparr>)) \<and>
   (\<exists>qc. Dial (tls_dial (tc_NextProtos (control_protos (scfg\<lparr>tc_NextProtos := []\<rparr>)))) addr (Some ccfg) q =
     Ret (Inr \<lparr>cl_conn = ''qf/1'', cl_quicCfg = Some qc, cl_hashes = []\<rparr>)) \<and>
   DialControl (tls_dial (tc_NextProtos (native_protos scfg))) addr (Some (ccfg\<lparr>tc_NextProtos := []\<rparr>)) q =
     Ret (Inr ''qf/1'') \<and>
   DialControl (tls_dial (tc_NextProtos (control_protos (scfg\<lparr>tc_NextProtos := []\<rparr>)))) addr
     (Some (ccfg\<lparr>tc_NextProtos := []\<rparr>)) q = Ret (Inr ''control/v1'')"
proof -
  obtain rest where "prepend ''qf/1'' (tc_NextProtos scfg) = ''qf/1'' # rest" using prepend_hd by blast
  then show ?thesis
    by (simp add: Dial_def DialControl_def tls_dial_def negotiateALPN_def native_protos_def
        control_protos_def wrap_err_def Let_def)
qed

end
