(* ===== verification/Files.thy ===== *)
theory Files
  imports Errors
begin

text \<open>
  What the sources use of packages os and path/filepath. A file system holds files and directories;
  \<open>fs_statErr\<close>, \<open>fs_readErr\<close>, \<open>fs_mkdirErr\<close> and \<open>fs_writeErr\<close> say on which paths the calls fail for
  another reason than a missing file (permissions, a full disk), the last with what a failed write
  leaves in the file.
\<close>

section \<open>Package path/filepath\<close>

definition clean_step :: "bool \<Rightarrow> string list \<Rightarrow> string \<Rightarrow> string list" where
  "clean_step rooted out e =
     (if e = [] \<or> e = ''.'' then out
      else if e = ''..'' then
        (if out \<noteq> [] \<and> last out \<noteq> ''..'' then butlast out
         else if rooted then out else out @ [e])
      else out @ [e])"

definition Clean :: "string \<Rightarrow> string" where
  "Clean path =
     (let rooted = HasPrefix path ''/'';
          out = foldl (clean_step rooted) [] (Split1 (CHR ''/'') path)
      in if rooted then CHR ''/'' # Join out ''/''
         else if out = [] then ''.'' else Join out ''/'')"

definition path_Join :: "string list \<Rightarrow> string" where
  "path_Join elems =
     (case dropWhile (\<lambda>e. e = []) elems of [] \<Rightarrow> [] | es \<Rightarrow> Clean (Join es ''/''))"

definition Base :: "string \<Rightarrow> string" where
  "Base path =
     (if path = [] then ''.''
      else (let p = rev (dropWhile (\<lambda>c. c = CHR ''/'') (rev path));
                b = rev (takeWhile (\<lambda>c. c \<noteq> CHR ''/'') (rev p))
            in if b = [] then ''/'' else b))"

definition Dir :: "string \<Rightarrow> string" where
  "Dir path = Clean (rev (dropWhile (\<lambda>c. c \<noteq> CHR ''/'') (rev path)))"

section \<open>Package os\<close>

record gofs =
  fs_files :: "string \<rightharpoonup> bytes"
  fs_dirs :: "string set"
  fs_statErr :: "string \<Rightarrow> goerr option"
  fs_readErr :: "string \<Rightarrow> goerr option"
  fs_mkdirErr :: "string \<Rightarrow> goerr option"
  fs_writeErr :: "string \<Rightarrow> (goerr \<times> bytes option) option"

datatype stat_result = StatOK | StatNotExist | StatErr goerr

definition os_Stat :: "gofs \<Rightarrow> string \<Rightarrow> stat_result" where
  "os_Stat fs p =
     (case fs_statErr fs p of
        Some e \<Rightarrow> StatErr e
      | None \<Rightarrow> if fs_files fs p \<noteq> None \<or> p \<in> fs_dirs fs then StatOK else StatNotExist)"

definition os_ReadFile :: "gofs \<Rightarrow> string \<Rightarrow> goerr + bytes" where
  "os_ReadFile fs p =
     (case fs_readErr fs p of
        Some e \<Rightarrow> Inl e
      | None \<Rightarrow>
          (case fs_files fs p of
             None \<Rightarrow> Inl (Err (''open '' @ p @ '': no such file or directory''))
           | Some b \<Rightarrow> Inr b))"

text \<open>The directory and all its parents.\<close>

definition parents :: "string \<Rightarrow> string list" where
  "parents p = map (\<lambda>n. take n p) (filter (\<lambda>n. p ! n = CHR ''/'') [1..<length p])"

definition os_MkdirAll :: "gofs \<Rightarrow> string \<Rightarrow> goerr option \<times> gofs" where
  "os_MkdirAll fs p =
     (case fs_mkdirErr fs p of
        Some e \<Rightarrow> (Some e, fs)
      | None \<Rightarrow>
          if list_ex (\<lambda>q. fs_files fs q \<noteq> None) (p # parents p)
          then (Some (Err (''mkdir '' @ p @ '': not a directory'')), fs)
          else (None, fs\<lparr>fs_dirs := fs_dirs fs \<union> set (p # parents p)\<rparr>))"

definition os_WriteFile :: "gofs \<Rightarrow> string \<Rightarrow> bytes \<Rightarrow> goerr option \<times> gofs" where
  "os_WriteFile fs p data =
     (case fs_writeErr fs p of
        Some (e, None) \<Rightarrow> (Some e, fs)
      | Some (e, Some b) \<Rightarrow> (Some e, fs\<lparr>fs_files := (fs_files fs)(p \<mapsto> b)\<rparr>)
      | None \<Rightarrow>
          if p \<in> fs_dirs fs then (Some (Err (''open '' @ p @ '': is a directory'')), fs)
          else (None, fs\<lparr>fs_files := (fs_files fs)(p \<mapsto> data)\<rparr>))"

text \<open>A path on which no call fails by accident.\<close>

definition path_ok :: "gofs \<Rightarrow> string \<Rightarrow> bool" where
  "path_ok fs p \<longleftrightarrow>
     fs_statErr fs p = None \<and> fs_readErr fs p = None \<and> fs_mkdirErr fs p = None \<and> fs_writeErr fs p = None"

lemma os_MkdirAll_files: "os_MkdirAll fs p = (r, fs') \<Longrightarrow> fs_files fs' = fs_files fs"
  by (auto simp: os_MkdirAll_def split: option.splits if_splits)

lemma os_WriteFile_files:
  "os_WriteFile fs p d = (r, fs') \<Longrightarrow> q \<noteq> p \<Longrightarrow> fs_files fs' q = fs_files fs q"
  by (auto simp: os_WriteFile_def split: option.splits if_splits)

lemma os_WriteFile_ok: "os_WriteFile fs p d = (None, fs') \<Longrightarrow> fs' = fs\<lparr>fs_files := (fs_files fs)(p \<mapsto> d)\<rparr>"
  by (auto simp: os_WriteFile_def split: option.splits if_splits)

lemma os_faults:
  "os_MkdirAll fs p = (r, fs') \<Longrightarrow> path_ok fs' q = path_ok fs q"
  "os_WriteFile fs p d = (r', fs') \<Longrightarrow> path_ok fs' q = path_ok fs q"
  by (auto simp: os_MkdirAll_def os_WriteFile_def path_ok_def split: option.splits if_splits)

lemma os_ReadFile_ok: "path_ok fs p \<Longrightarrow> fs_files fs p = Some b \<Longrightarrow> os_ReadFile fs p = Inr b"
  by (simp add: os_ReadFile_def path_ok_def)

lemma os_Stat_ok: "path_ok fs p \<Longrightarrow> fs_files fs p = Some b \<Longrightarrow> os_Stat fs p = StatOK"
  by (simp add: os_Stat_def path_ok_def)

section \<open>Get or create\<close>

text \<open>
  The contract that certificate stores share: what was just made is what is loaded, if the store
  works (\<open>ok\<close>); \<open>get i s\<close> returns the content of a store that is still good at \<open>i\<close> and remakes it
  otherwise.
\<close>

locale cert_store =
  fixes load :: "'s \<Rightarrow> 'c option"
    and good :: "'c \<Rightarrow> 'i \<Rightarrow> bool"
    and make :: "'i \<Rightarrow> 's \<Rightarrow> (goerr + 'c) \<times> 's"
    and fresh :: "'i \<Rightarrow> 'c"
    and ok :: "'i \<Rightarrow> 's \<Rightarrow> bool"
    and get :: "'i \<Rightarrow> 's \<Rightarrow> (goerr + 'c) \<times> 's"
  assumes load_make: "ok i s \<Longrightarrow> load (snd (make i s)) = Some (fresh i)"
    and get_eq: "get i s =
      (case load s of None \<Rightarrow> make i s | Some c \<Rightarrow> if good c i then (Inr c, s) else make i s)"
begin

lemma get_kept: "ok i s \<Longrightarrow> good (fresh i) j \<Longrightarrow> get j (snd (make i s)) = (Inr (fresh i), snd (make i s))"
  by (simp add: get_eq load_make)

lemma get_remade: "ok i s \<Longrightarrow> \<not> good (fresh i) j \<Longrightarrow> get j (snd (make i s)) = make j (snd (make i s))"
  by (simp add: get_eq load_make)

end

end
