(* ===== verification/Cert_Util.thy ===== *)
theory Cert_Util
  imports Transport Files
begin

text \<open>
  tlsutil/certs.go: self-signed certificates on disk, files, ACME and fingerprints. The
  cryptographic packages (crypto/ecdsa, crypto/x509, encoding/pem, crypto/tls) are the parameter
  \<open>x509_lib\<close>; their randomness is a number \<open>rnd\<close>, different for different calls. Times are
  nanoseconds; every \<^verbatim>\<open>time.Now()\<close> of the source is an argument of its own.
\<close>

section \<open>The cryptographic libraries\<close>

record cert_template =
  ct_SerialNumber :: int
  ct_Organization :: "string list"
  ct_CommonName :: string
  ct_NotBefore :: int
  ct_NotAfter :: int
  ct_KeyUsage :: "string list" \<comment> \<open>the flags that are set\<close>
  ct_ExtKeyUsage :: "string list"
  ct_BasicConstraintsValid :: bool
  ct_DNSNames :: "string list"
  ct_IPAddresses :: "string list"

record cert_info =
  ci_NotBefore :: int
  ci_NotAfter :: int
  ci_CommonName :: string

record 'k x509_lib =
  GenerateKey :: "nat \<Rightarrow> goerr + 'k"
  RandSerial :: "nat \<Rightarrow> goerr + int" \<comment> \<open>rand.Int below 2^128\<close>
  CreateCertificate :: "cert_template \<Rightarrow> 'k \<Rightarrow> goerr + bytes" \<comment> \<open>self-signed\<close>
  MarshalECPrivateKey :: "'k \<Rightarrow> goerr + bytes"
  ParseECPrivateKey :: "bytes \<Rightarrow> goerr + 'k"
  ParseCertificate :: "bytes \<Rightarrow> goerr + cert_info"
  pem_Encode :: "string \<Rightarrow> bytes \<Rightarrow> bytes"
  pem_Decode :: "bytes \<Rightarrow> bytes option"
  X509KeyPair :: "bytes \<Rightarrow> bytes \<Rightarrow> goerr + bytes list"
  ParseIP :: "string \<Rightarrow> string option"
  Sum256 :: "bytes \<Rightarrow> bytes"

section \<open>Generating a certificate\<close>

definition webTransportDevCertValidity :: int where
  "webTransportDevCertValidity = 13 * 24 * Hour"

text \<open>The loop over the hosts: addresses and names are collected in order.\<close>

definition add_host :: "'k x509_lib \<Rightarrow> cert_template \<Rightarrow> string \<Rightarrow> cert_template" where
  "add_host lib t h =
     (case ParseIP lib h of
        Some ip \<Rightarrow> t\<lparr>ct_IPAddresses := ct_IPAddresses t @ [ip]\<rparr>
      | None \<Rightarrow> t\<lparr>ct_DNSNames := ct_DNSNames t @ [h]\<rparr>)"

definition dev_template :: "'k x509_lib \<Rightarrow> string list \<Rightarrow> int \<Rightarrow> int \<Rightarrow> int \<Rightarrow> cert_template" where
  "dev_template lib hosts serial now1 now2 =
     foldl (add_host lib)
       \<lparr>ct_SerialNumber = serial, ct_Organization = [''QuicFrame Dev''], ct_CommonName = [],
        ct_NotBefore = now1 - Minute, ct_NotAfter = now2 + webTransportDevCertValidity,
        ct_KeyUsage = [''KeyEncipherment'', ''DigitalSignature''],
        ct_ExtKeyUsage = [''ServerAuth''], ct_BasicConstraintsValid = False,
        ct_DNSNames = [], ct_IPAddresses = []\<rparr> hosts"

definition generateSelfSignedPEM ::
    "'k x509_lib \<Rightarrow> string list \<Rightarrow> int \<Rightarrow> int \<Rightarrow> nat \<Rightarrow> goerr + bytes \<times> bytes" where
  "generateSelfSignedPEM lib hosts now1 now2 rnd =
     (case GenerateKey lib rnd of
        Inl err \<Rightarrow> Inl (Wrap ''tlsutil: generate key: '' err)
      | Inr priv \<Rightarrow>
          (case RandSerial lib rnd of
             Inl err \<Rightarrow> Inl (Wrap ''tlsutil: generate serial: '' err)
           | Inr serial \<Rightarrow>
               (case CreateCertificate lib (dev_template lib hosts serial now1 now2) priv of
                  Inl err \<Rightarrow> Inl (Wrap ''tlsutil: create certificate: '' err)
                | Inr certDER \<Rightarrow>
                    (case MarshalECPrivateKey lib priv of
                       Inl err \<Rightarrow> Inl (Wrap ''tlsutil: marshal key: '' err)
                     | Inr keyDER \<Rightarrow>
                         Inr (pem_Encode lib ''CERTIFICATE'' certDER,
                              pem_Encode lib ''EC PRIVATE KEY'' keyDER)))))"

definition VersionTLS13 :: nat where "VersionTLS13 = 0x0304"

definition tls13_config :: "bytes list \<Rightarrow> tls_config" where
  "tls13_config chain =
     \<lparr>tc_Certificates = [chain], tc_MinVersion = VersionTLS13, tc_NextProtos = []\<rparr>"

definition SelfSigned ::
    "'k x509_lib \<Rightarrow> string list \<Rightarrow> int \<Rightarrow> int \<Rightarrow> nat \<Rightarrow> goerr + tls_config" where
  "SelfSigned lib hosts now1 now2 rnd =
     (case generateSelfSignedPEM lib hosts now1 now2 rnd of
        Inl err \<Rightarrow> Inl err
      | Inr (certPEM, keyPEM) \<Rightarrow>
          (case X509KeyPair lib certPEM keyPEM of
             Inl err \<Rightarrow> Inl (Wrap ''tlsutil: X509KeyPair: '' err)
           | Inr chain \<Rightarrow> Inr (tls13_config chain)))"

section \<open>ACME\<close>

record AutocertConfig =
  ac_Domains :: "string list"
  ac_CacheDir :: string
  ac_Email :: string
  ac_Staging :: bool

record autocert_manager =
  am_Cache :: string
  am_HostWhitelist :: "string list"
  am_Email :: string
  am_DirectoryURL :: "string option"

text \<open>\<open>manager_tls\<close> is the method TLSConfig of autocert.Manager.\<close>

definition Autocert ::
    "(autocert_manager \<Rightarrow> tls_config) \<Rightarrow> AutocertConfig \<Rightarrow> goerr + tls_config \<times> autocert_manager" where
  "Autocert manager_tls cfg =
     (if ac_Domains cfg = [] then Inl (Err ''tlsutil: at least one domain is required'')
      else
        (let dir = (if ac_CacheDir cfg = [] then ''/var/cache/quicframe/autocert'' else ac_CacheDir cfg);
             m = \<lparr>am_Cache = dir, am_HostWhitelist = ac_Domains cfg, am_Email = ac_Email cfg,
                  am_DirectoryURL =
                    (if ac_Staging cfg then Some ''https://acme-staging-v02.api.letsencrypt.org/directory''
                     else None)\<rparr>
         in Inr ((manager_tls m)\<lparr>tc_MinVersion := VersionTLS13\<rparr>, m)))"

section \<open>Certificates on disk\<close>

definition LoadX509KeyPair :: "'k x509_lib \<Rightarrow> gofs \<Rightarrow> string \<Rightarrow> string \<Rightarrow> goerr + bytes list" where
  "LoadX509KeyPair lib fs certFile keyFile =
     (case os_ReadFile fs certFile of
        Inl err \<Rightarrow> Inl err
      | Inr certPEM \<Rightarrow>
          (case os_ReadFile fs keyFile of
             Inl err \<Rightarrow> Inl err
           | Inr keyPEM \<Rightarrow> X509KeyPair lib certPEM keyPEM))"

definition FromFiles :: "'k x509_lib \<Rightarrow> gofs \<Rightarrow> string \<Rightarrow> string \<Rightarrow> goerr + tls_config" where
  "FromFiles lib fs certFile keyFile =
     (case LoadX509KeyPair lib fs certFile keyFile of
        Inl err \<Rightarrow> Inl (Wrap ''tlsutil: load key pair: '' err)
      | Inr chain \<Rightarrow> Inr (tls13_config chain))"

definition leaf_of :: "tls_config option \<Rightarrow> goerr + bytes" where
  "leaf_of cfg =
     (case cfg of
        None \<Rightarrow> Inl (Err ''tlsutil: no certificates configured'')
      | Some c \<Rightarrow>
          (case tc_Certificates c of
             [] \<Rightarrow> Inl (Err ''tlsutil: no certificates configured'')
           | [] # _ \<Rightarrow> Inl (Err ''tlsutil: certificate chain is empty'')
           | (der # _) # _ \<Rightarrow> Inr der))"

definition webTransportCompatibleLeaf :: "'k x509_lib \<Rightarrow> tls_config option \<Rightarrow> int \<Rightarrow> goerr + bool" where
  "webTransportCompatibleLeaf lib cfg now =
     (case leaf_of cfg of
        Inl err \<Rightarrow> Inl err
      | Inr der \<Rightarrow>
          (case ParseCertificate lib der of
             Inl err \<Rightarrow> Inl (Wrap ''tlsutil: parse leaf certificate: '' err)
           | Inr leaf \<Rightarrow>
               if ci_NotAfter leaf - ci_NotBefore leaf > webTransportDevCertValidity then Inr False
               else if now < ci_NotBefore leaf \<or> \<not> now < ci_NotAfter leaf then Inr False
               else Inr True))"

text \<open>The part of LoadOrCreateSelfSigned after the attempt to load.\<close>

definition create_self_signed ::
    "'k x509_lib \<Rightarrow> gofs \<Rightarrow> string \<Rightarrow> string \<Rightarrow> string list \<Rightarrow> int \<Rightarrow> int \<Rightarrow> nat \<Rightarrow>
       (goerr + tls_config) \<times> gofs" where
  "create_self_signed lib fs certFile keyFile hosts now1 now2 rnd =
     (case generateSelfSignedPEM lib hosts now1 now2 rnd of
        Inl err \<Rightarrow> (Inl err, fs)
      | Inr (certPEM, keyPEM) \<Rightarrow>
          (case os_MkdirAll fs (Dir certFile) of
             (Some err, fs1) \<Rightarrow> (Inl (Wrap ''tlsutil: create cert dir: '' err), fs1)
           | (None, fs1) \<Rightarrow>
               (case os_MkdirAll fs1 (Dir keyFile) of
                  (Some err, fs2) \<Rightarrow> (Inl (Wrap ''tlsutil: create key dir: '' err), fs2)
                | (None, fs2) \<Rightarrow>
                    (case os_WriteFile fs2 certFile certPEM of
                       (Some err, fs3) \<Rightarrow> (Inl (Wrap ''tlsutil: write cert: '' err), fs3)
                     | (None, fs3) \<Rightarrow>
                         (case os_WriteFile fs3 keyFile keyPEM of
                            (Some err, fs4) \<Rightarrow> (Inl (Wrap ''tlsutil: write key: '' err), fs4)
                          | (None, fs4) \<Rightarrow> (FromFiles lib fs4 certFile keyFile, fs4))))))"

definition load_self_signed :: "'k x509_lib \<Rightarrow> string \<Rightarrow> string \<Rightarrow> gofs \<Rightarrow> tls_config option" where
  "load_self_signed lib certFile keyFile fs =
     (if os_Stat fs certFile = StatOK \<and> os_Stat fs keyFile = StatOK then
        (case FromFiles lib fs certFile keyFile of Inl err \<Rightarrow> None | Inr cfg \<Rightarrow> Some cfg)
      else None)"

definition LoadOrCreateSelfSigned ::
    "'k x509_lib \<Rightarrow> gofs \<Rightarrow> string \<Rightarrow> string \<Rightarrow> string list \<Rightarrow> int \<Rightarrow> int \<Rightarrow> int \<Rightarrow> nat \<Rightarrow>
       (goerr + tls_config) \<times> gofs" where
  "LoadOrCreateSelfSigned lib fs certFile keyFile hosts now0 now1 now2 rnd =
     (case load_self_signed lib certFile keyFile fs of
        Some cfg \<Rightarrow>
          if webTransportCompatibleLeaf lib (Some cfg) now0 = Inr True then (Inr cfg, fs)
          else create_self_signed lib fs certFile keyFile hosts now1 now2 rnd
      | None \<Rightarrow> create_self_signed lib fs certFile keyFile hosts now1 now2 rnd)"

section \<open>Fingerprints\<close>

definition CertificateSHA256 :: "'k x509_lib \<Rightarrow> tls_config option \<Rightarrow> goerr + bytes" where
  "CertificateSHA256 lib cfg =
     (case leaf_of cfg of Inl err \<Rightarrow> Inl err | Inr der \<Rightarrow> Inr (Sum256 lib der))"

definition CertificateSHA256Hex :: "'k x509_lib \<Rightarrow> tls_config option \<Rightarrow> goerr + string" where
  "CertificateSHA256Hex lib cfg =
     (case CertificateSHA256 lib cfg of Inl err \<Rightarrow> Inl err | Inr digest \<Rightarrow> Inr (hex_encode digest))"

section \<open>The store of a development certificate\<close>

lemma create_files:
  assumes "create_self_signed lib fs cf kf hosts t1 t2 rnd = (Inr cfg, fs')" "cf \<noteq> kf"
  obtains c k where "generateSelfSignedPEM lib hosts t1 t2 rnd = Inr (c, k)"
    "fs_files fs' cf = Some c" "fs_files fs' kf = Some k" "FromFiles lib fs' cf kf = Inr cfg"
    "\<And>p. path_ok fs' p = path_ok fs p"
proof -
  obtain c k fs1 fs2 fs3 where g: "generateSelfSignedPEM lib hosts t1 t2 rnd = Inr (c, k)"
    and s: "os_MkdirAll fs (Dir cf) = (None, fs1)" "os_MkdirAll fs1 (Dir kf) = (None, fs2)"
      "os_WriteFile fs2 cf c = (None, fs3)" "os_WriteFile fs3 kf k = (None, fs')"
    and f: "FromFiles lib fs' cf kf = Inr cfg"
    using assms(1) by (auto simp: create_self_signed_def split: sum.splits prod.splits option.splits)
  have "path_ok fs' p = path_ok fs p" for p
    using os_faults(1) [OF s(1)] os_faults(1) [OF s(2)] os_faults(2) [OF s(3)] os_faults(2) [OF s(4)]
    by simp
  with that [OF g _ _ f] os_WriteFile_ok [OF s(3)] os_WriteFile_ok [OF s(4)] assms(2) show ?thesis by simp
qed

text \<open>When the store works, and the configuration it then holds.\<close>

definition dev_ok ::
    "'k x509_lib \<Rightarrow> string \<Rightarrow> string \<Rightarrow> string list \<Rightarrow> int \<times> int \<times> int \<times> nat \<Rightarrow> gofs \<Rightarrow> bool" where
  "dev_ok lib cf kf hosts i fs \<longleftrightarrow>
     cf \<noteq> kf \<and> path_ok fs cf \<and> path_ok fs kf \<and>
     (case i of (t0, t1, t2, rnd) \<Rightarrow> \<not> isl (fst (create_self_signed lib fs cf kf hosts t1 t2 rnd)))"

definition dev_fresh :: "'k x509_lib \<Rightarrow> string list \<Rightarrow> int \<times> int \<times> int \<times> nat \<Rightarrow> tls_config" where
  "dev_fresh lib hosts i =
     (case i of (t0, t1, t2, rnd) \<Rightarrow> projr (SelfSigned lib hosts t1 t2 rnd))"

interpretation dev_store: cert_store "load_self_signed lib cf kf"
  "\<lambda>cfg (t0, t1, t2, rnd). webTransportCompatibleLeaf lib (Some cfg) t0 = Inr True"
  "\<lambda>(t0, t1, t2, rnd) fs. create_self_signed lib fs cf kf hosts t1 t2 rnd"
  "dev_fresh lib hosts" "dev_ok lib cf kf hosts"
  "\<lambda>(t0, t1, t2, rnd) fs. LoadOrCreateSelfSigned lib fs cf kf hosts t0 t1 t2 rnd"
  for lib cf kf hosts
proof (unfold_locales, goal_cases)
  case (1 i fs)
  obtain t0 t1 t2 rnd where i: "i = (t0, t1, t2, rnd)" by (cases i)
  obtain r fs' where cr: "create_self_signed lib fs cf kf hosts t1 t2 rnd = (r, fs')"
    by (cases "create_self_signed lib fs cf kf hosts t1 t2 rnd")
  with 1 i have ok: "cf \<noteq> kf" "path_ok fs cf" "path_ok fs kf" "\<not> isl r"
    by (simp_all add: dev_ok_def)
  then obtain cfg where r: "r = Inr cfg" by (cases r) auto
  obtain c k where f: "generateSelfSignedPEM lib hosts t1 t2 rnd = Inr (c, k)"
      "fs_files fs' cf = Some c" "fs_files fs' kf = Some k" "FromFiles lib fs' cf kf = Inr cfg"
      "\<And>p. path_ok fs' p = path_ok fs p"
    using create_files [OF cr [unfolded r] ok(1)] by blast
  have p: "path_ok fs' cf" "path_ok fs' kf" using f(5) ok by simp_all
  have "SelfSigned lib hosts t1 t2 rnd = Inr cfg"
    using f(1,4) os_ReadFile_ok [OF p(1) f(2)] os_ReadFile_ok [OF p(2) f(3)]
    by (auto simp: FromFiles_def LoadX509KeyPair_def SelfSigned_def split: sum.splits)
  with cr r f(4) os_Stat_ok [OF p(1) f(2)] os_Stat_ok [OF p(2) f(3)] show ?case
    by (simp add: i load_self_signed_def dev_fresh_def)
next
  case (2 i fs)
  show ?case by (cases i) (auto simp: LoadOrCreateSelfSigned_def split: option.splits)
qed

section \<open>What the libraries promise\<close>

text \<open>
  Documented behaviour of crypto/x509, crypto/tls and encoding/pem: a created certificate parses, its
  times have the precision of a second; a key pair of a PEM certificate and its key has that certificate
  as its chain; PEM and the EC key format round-trip.
\<close>

definition whole_second :: "int \<Rightarrow> int" where
  "whole_second t = t div Second * Second"

definition x509_faithful :: "'k x509_lib \<Rightarrow> bool" where
  "x509_faithful lib \<longleftrightarrow>
     (\<forall>t k der. CreateCertificate lib t k = Inr der \<longrightarrow>
        ParseCertificate lib der = Inr \<lparr>ci_NotBefore = whole_second (ct_NotBefore t),
          ci_NotAfter = whole_second (ct_NotAfter t), ci_CommonName = ct_CommonName t\<rparr>) \<and>
     (\<forall>der kd chain. X509KeyPair lib (pem_Encode lib ''CERTIFICATE'' der)
        (pem_Encode lib ''EC PRIVATE KEY'' kd) = Inr chain \<longrightarrow> chain = [der]) \<and>
     (\<forall>ty b. pem_Decode lib (pem_Encode lib ty b) = Some b) \<and>
     (\<forall>k kd. MarshalECPrivateKey lib k = Inr kd \<longrightarrow> ParseECPrivateKey lib kd = Inr k)"

lemma faithful_parse:
  "x509_faithful lib \<Longrightarrow> CreateCertificate lib t k = Inr der \<Longrightarrow>
   ParseCertificate lib der = Inr \<lparr>ci_NotBefore = whole_second (ct_NotBefore t),
     ci_NotAfter = whole_second (ct_NotAfter t), ci_CommonName = ct_CommonName t\<rparr>"
  unfolding x509_faithful_def by blast

lemma faithful_chain:
  "x509_faithful lib \<Longrightarrow> X509KeyPair lib (pem_Encode lib ''CERTIFICATE'' der)
     (pem_Encode lib ''EC PRIVATE KEY'' kd) = Inr chain \<Longrightarrow> chain = [der]"
  unfolding x509_faithful_def by blast

lemma faithful_pem: "x509_faithful lib \<Longrightarrow> pem_Decode lib (pem_Encode lib ty b) = Some b"
  unfolding x509_faithful_def by blast

lemma faithful_key: "x509_faithful lib \<Longrightarrow> MarshalECPrivateKey lib k = Inr kd \<Longrightarrow> ParseECPrivateKey lib kd = Inr k"
  unfolding x509_faithful_def by blast

lemma whole_second_shift: "whole_second (t + n * Second) = whole_second t + n * Second"
  by (simp add: whole_second_def Second_def algebra_simps)

lemma whole_second_mono: "s \<le> t \<Longrightarrow> whole_second s \<le> whole_second t"
  by (simp add: whole_second_def Second_def zdiv_mono1)

lemma whole_second_le: "whole_second t \<le> t" "t < whole_second t + Second"
proof -
  have "t = t div Second * Second + t mod Second" by simp
  moreover have "0 \<le> t mod Second" "t mod Second < Second" by (simp_all add: Second_def)
  ultimately show "whole_second t \<le> t" "t < whole_second t + Second"
    unfolding whole_second_def by linarith+
qed

lemma template_times:
  "ct_NotBefore (foldl (add_host lib) t hosts) = ct_NotBefore t"
  "ct_NotAfter (foldl (add_host lib) t hosts) = ct_NotAfter t"
  "ct_CommonName (foldl (add_host lib) t hosts) = ct_CommonName t"
  by (induction hosts arbitrary: t) (auto simp: add_host_def split: option.splits)

lemma SelfSigned_leaf:
  assumes "x509_faithful lib" "SelfSigned lib hosts t1 t2 rnd = Inr cfg"
  obtains der where "cfg = tls13_config [der]"
    "ParseCertificate lib der = Inr \<lparr>ci_NotBefore = whole_second (t1 - Minute),
       ci_NotAfter = whole_second (t2 + webTransportDevCertValidity), ci_CommonName = []\<rparr>"
proof -
  from assms(2) obtain priv serial der kd chain where c:
      "CreateCertificate lib (dev_template lib hosts serial t1 t2) priv = Inr der"
      "X509KeyPair lib (pem_Encode lib ''CERTIFICATE'' der) (pem_Encode lib ''EC PRIVATE KEY'' kd) = Inr chain"
      "cfg = tls13_config chain"
    by (auto simp: SelfSigned_def generateSelfSignedPEM_def split: sum.splits)
  from faithful_parse [OF assms(1) c(1)] faithful_chain [OF assms(1) c(2)] c(3) that show ?thesis
    by (simp add: dev_template_def template_times)
qed

lemma dev_cert_too_long:
  assumes "t1 \<le> t2"
  shows "whole_second (t2 + webTransportDevCertValidity) - whole_second (t1 - Minute) > webTransportDevCertValidity"
proof -
  have "whole_second (t2 + webTransportDevCertValidity) = whole_second t2 + webTransportDevCertValidity"
    using whole_second_shift [of t2 "13 * 24 * 60 * 60"]
    by (simp add: webTransportDevCertValidity_def time_defs)
  moreover have "whole_second (t1 - Minute) = whole_second t1 - Minute"
    using whole_second_shift [of t1 "- 60"] by (simp add: time_defs)
  ultimately show ?thesis using whole_second_mono [OF assms] by (simp add: time_defs)
qed

text \<open>A created certificate is the one on disk, in PEM form.\<close>

lemma created_certificate:
  assumes "x509_faithful lib" "cf \<noteq> kf" "path_ok fs cf" "path_ok fs kf"
    and "create_self_signed lib fs cf kf hosts t1 t2 rnd = (Inr cfg, fs')"
  shows "\<exists>der. cfg = tls13_config [der] \<and> os_ReadFile fs' cf = Inr (pem_Encode lib ''CERTIFICATE'' der)"
proof -
  obtain c k where f: "generateSelfSignedPEM lib hosts t1 t2 rnd = Inr (c, k)" "fs_files fs' cf = Some c"
      "fs_files fs' kf = Some k" "FromFiles lib fs' cf kf = Inr cfg" "\<And>p. path_ok fs' p = path_ok fs p"
    using create_files [OF assms(5,2)] by blast
  from f(1) obtain der kd where pem: "c = pem_Encode lib ''CERTIFICATE'' der" "k = pem_Encode lib ''EC PRIVATE KEY'' kd"
    by (auto simp: generateSelfSignedPEM_def split: sum.splits)
  have rd: "os_ReadFile fs' cf = Inr c" "os_ReadFile fs' kf = Inr k"
    using os_ReadFile_ok f(2,3,5) assms(3,4) by blast+
  with f(4) obtain chain where "X509KeyPair lib c k = Inr chain" "cfg = tls13_config chain"
    by (auto simp: FromFiles_def LoadX509KeyPair_def split: sum.splits)
  with faithful_chain [OF assms(1)] pem rd(1) show ?thesis by blast
qed

section \<open>Properties of the certificate store\<close>

text \<open>
  C33: The development certificate is never reused. A certificate that LoadOrCreateSelfSigned has just
  generated and stored is valid for one minute more than the 13 days that its own reuse check allows,
  so the next call, at whatever time, generates and stores a new one: neither browser trust nor a
  pinned fingerprint survives a restart.
\<close>

theorem self_signed_never_reused:
  assumes "x509_faithful lib" "cf \<noteq> kf" "path_ok fs cf" "path_ok fs kf" "t1 \<le> t2"
    and "create_self_signed lib fs cf kf hosts t1 t2 rnd = (Inr cfg, fs1)"
  shows "LoadOrCreateSelfSigned lib fs1 cf kf hosts now0 now1 now2 rnd' =
    create_self_signed lib fs1 cf kf hosts now1 now2 rnd'"
proof -
  have ok: "dev_ok lib cf kf hosts (0, t1, t2, rnd) fs" using assms by (simp add: dev_ok_def)
  from dev_store.load_make [OF ok] assms(6) have load:
      "load_self_signed lib cf kf fs1 = Some (dev_fresh lib hosts (0, t1, t2, rnd))" by simp
  obtain c k where g: "generateSelfSignedPEM lib hosts t1 t2 rnd = Inr (c, k)"
      "fs_files fs1 cf = Some c" "fs_files fs1 kf = Some k" "FromFiles lib fs1 cf kf = Inr cfg"
      "\<And>p. path_ok fs1 p = path_ok fs p"
    using create_files [OF assms(6,2)] by blast
  then have "dev_fresh lib hosts (0, t1, t2, rnd) = cfg" "SelfSigned lib hosts t1 t2 rnd = Inr cfg"
    using load os_ReadFile_ok [of fs1] assms(3,4)
    by (auto simp: load_self_signed_def FromFiles_def LoadX509KeyPair_def SelfSigned_def dev_fresh_def
        split: sum.splits if_splits)
  then obtain der where "dev_fresh lib hosts (0, t1, t2, rnd) = tls13_config [der]"
      "ParseCertificate lib der = Inr \<lparr>ci_NotBefore = whole_second (t1 - Minute),
         ci_NotAfter = whole_second (t2 + webTransportDevCertValidity), ci_CommonName = []\<rparr>"
    using SelfSigned_leaf [OF assms(1)] by metis
  then have "\<not> webTransportCompatibleLeaf lib (Some (dev_fresh lib hosts (0, t1, t2, rnd))) now0 = Inr True"
    using dev_cert_too_long [OF assms(5)]
    by (simp add: webTransportCompatibleLeaf_def leaf_of_def tls13_config_def)
  with dev_store.get_remade [OF ok, where j = "(now0, now1, now2, rnd')"] assms(6) show ?thesis by simp
qed

text \<open>A library with one key that issues one certificate, and an empty file system.\<close>

definition one_cert_lib :: "int \<Rightarrow> int \<Rightarrow> string \<Rightarrow> unit x509_lib" where
  "one_cert_lib nb na cn =
     \<lparr>GenerateKey = (\<lambda>_. Inr ()), RandSerial = (\<lambda>_. Inr 1),
      CreateCertificate = (\<lambda>t k. if ct_NotBefore t = nb \<and> ct_NotAfter t = na \<and> ct_CommonName t = cn
        then Inr [1] else Inl io_EOF),
      MarshalECPrivateKey = (\<lambda>_. Inr [2]), ParseECPrivateKey = (\<lambda>_. Inr ()),
      ParseCertificate = (\<lambda>_. Inr \<lparr>ci_NotBefore = whole_second nb, ci_NotAfter = whole_second na, ci_CommonName = cn\<rparr>),
      pem_Encode = (\<lambda>ty b. b), pem_Decode = Some, X509KeyPair = (\<lambda>c k. Inr [c]),
      ParseIP = (\<lambda>_. None), Sum256 = id\<rparr>"

definition empty_fs :: gofs where
  "empty_fs = \<lparr>fs_files = Map.empty, fs_dirs = {}, fs_statErr = (\<lambda>_. None), fs_readErr = (\<lambda>_. None),
     fs_mkdirErr = (\<lambda>_. None), fs_writeErr = (\<lambda>_. None)\<rparr>"

lemma one_cert_lib_faithful: "x509_faithful (one_cert_lib nb na cn)"
  by (simp add: x509_faithful_def one_cert_lib_def)

definition dev_lib :: "unit x509_lib" where
  "dev_lib = one_cert_lib (0 - Minute) (1 + webTransportDevCertValidity) []"

theorem self_signed_never_reused_witness:
  "LoadOrCreateSelfSigned dev_lib (snd (create_self_signed dev_lib empty_fs ''c/cert'' ''c/key'' [] 0 1 7))
     ''c/cert'' ''c/key'' [] 100 100 100 8 =
   create_self_signed dev_lib (snd (create_self_signed dev_lib empty_fs ''c/cert'' ''c/key'' [] 0 1 7))
     ''c/cert'' ''c/key'' [] 100 100 8"
proof (rule self_signed_never_reused)
  show "x509_faithful dev_lib" by (simp add: dev_lib_def one_cert_lib_faithful)
  show "path_ok empty_fs ''c/cert''" "path_ok empty_fs ''c/key''" by (simp_all add: path_ok_def empty_fs_def)
  have d: "Dir ''c/cert'' = ''c''" "Dir ''c/key'' = ''c''" by code_simp+
  have p: "parents ''c'' = []" by code_simp
  show "create_self_signed dev_lib empty_fs ''c/cert'' ''c/key'' [] 0 1 7 =
      (Inr (tls13_config [[1]]), snd (create_self_signed dev_lib empty_fs ''c/cert'' ''c/key'' [] 0 1 7))"
    by (simp add: create_self_signed_def generateSelfSignedPEM_def dev_lib_def one_cert_lib_def
        dev_template_def d p os_MkdirAll_def os_WriteFile_def empty_fs_def FromFiles_def
        LoadX509KeyPair_def os_ReadFile_def)
qed simp_all

end
