(* ===== verification/Pki.thy ===== *)
theory Pki
  imports Cert_Util
begin

text \<open>
  pki/pki.go: node identities on disk, their reuse and their rotation. The cryptographic libraries
  and the file system are those of Cert_Util and Files; the contract \<open>cert_store\<close> of Files, which the
  development certificates also satisfy, is interpreted on this package's own functions.
\<close>

section \<open>Data\<close>

text \<open>The fields \<^verbatim>\<open>Cert\<close> and \<^verbatim>\<open>PrivateKey\<close> are the parsed certificate and the key; a nil pointer is \<open>None\<close>.\<close>

record 'k Identity =
  id_NodeID :: string
  id_CertFile :: string
  id_KeyFile :: string
  id_Cert :: "cert_info option"
  id_PrivateKey :: 'k

record Manager =
  m_baseDir :: string

definition NewManager :: "string \<Rightarrow> Manager" where
  "NewManager baseDir = \<lparr>m_baseDir = baseDir\<rparr>"

definition nodeDir :: "Manager \<Rightarrow> string \<Rightarrow> string" where
  "nodeDir m nodeID = path_Join [m_baseDir m, nodeID]"

definition certFile_of :: "Manager \<Rightarrow> string \<Rightarrow> string" where
  "certFile_of m nodeID = path_Join [nodeDir m nodeID, ''cert.pem'']"

definition keyFile_of :: "Manager \<Rightarrow> string \<Rightarrow> string" where
  "keyFile_of m nodeID = path_Join [nodeDir m nodeID, ''key.pem'']"

section \<open>Operations\<close>

definition LoadIdentity :: "'k x509_lib \<Rightarrow> gofs \<Rightarrow> Manager \<Rightarrow> string \<Rightarrow> goerr + 'k Identity" where
  "LoadIdentity lib fs m nodeID =
     (case os_ReadFile fs (certFile_of m nodeID) of
        Inl err \<Rightarrow> Inl err
      | Inr certPEM \<Rightarrow>
          (case os_ReadFile fs (keyFile_of m nodeID) of
             Inl err \<Rightarrow> Inl err
           | Inr keyPEM \<Rightarrow>
               (case pem_Decode lib certPEM of
                  None \<Rightarrow> Inl (Err ''pki: failed to decode certificate PEM'')
                | Some block \<Rightarrow>
                    (case ParseCertificate lib block of
                       Inl err \<Rightarrow> Inl err
                     | Inr cert \<Rightarrow>
                         (case pem_Decode lib keyPEM of
                            None \<Rightarrow> Inl (Err ''pki: failed to decode key PEM'')
                          | Some keyBlock \<Rightarrow>
                              (case ParseECPrivateKey lib keyBlock of
                                 Inl err \<Rightarrow> Inl err
                               | Inr key \<Rightarrow>
                                   Inr \<lparr>id_NodeID = nodeID, id_CertFile = certFile_of m nodeID,
                                        id_KeyFile = keyFile_of m nodeID, id_Cert = Some cert,
                                        id_PrivateKey = key\<rparr>))))))"

definition node_template :: "string \<Rightarrow> string list \<Rightarrow> int \<Rightarrow> int \<Rightarrow> cert_template" where
  "node_template nodeID hosts serial now =
     (let notBefore = now - Minute; notAfter = notBefore + 13 * 24 * Hour
      in \<lparr>ct_SerialNumber = serial, ct_Organization = [''QuicFrame Managed PKI''],
          ct_CommonName = nodeID, ct_NotBefore = notBefore, ct_NotAfter = notAfter,
          ct_KeyUsage = [''KeyEncipherment'', ''DigitalSignature''],
          ct_ExtKeyUsage = [''ServerAuth'', ''ClientAuth''], ct_BasicConstraintsValid = True,
          ct_DNSNames = hosts, ct_IPAddresses = []\<rparr>)"

text \<open>The errors of MarshalECPrivateKey and of the last ParseCertificate are dropped, as in the source.\<close>

definition GenerateIdentity ::
    "'k x509_lib \<Rightarrow> gofs \<Rightarrow> Manager \<Rightarrow> string \<Rightarrow> string list \<Rightarrow> int \<Rightarrow> nat \<Rightarrow>
       (goerr + 'k Identity) \<times> gofs" where
  "GenerateIdentity lib fs m nodeID hosts now rnd =
     (case GenerateKey lib rnd of
        Inl err \<Rightarrow> (Inl (Wrap ''pki: generate key: '' err), fs)
      | Inr priv \<Rightarrow>
          (case RandSerial lib rnd of
             Inl err \<Rightarrow> (Inl (Wrap ''pki: generate serial: '' err), fs)
           | Inr serial \<Rightarrow>
               (case CreateCertificate lib (node_template nodeID hosts serial now) priv of
                  Inl err \<Rightarrow> (Inl (Wrap ''pki: create certificate: '' err), fs)
                | Inr certDER \<Rightarrow>
                    (case os_MkdirAll fs (nodeDir m nodeID) of
                       (Some err, fs1) \<Rightarrow> (Inl (Wrap ''pki: create node dir: '' err), fs1)
                     | (None, fs1) \<Rightarrow>
                         (let certPEM = pem_Encode lib ''CERTIFICATE'' certDER;
                              keyDER = (case MarshalECPrivateKey lib priv of Inl err \<Rightarrow> [] | Inr b \<Rightarrow> b);
                              keyPEM = pem_Encode lib ''EC PRIVATE KEY'' keyDER
                          in (case os_WriteFile fs1 (certFile_of m nodeID) certPEM of
                                (Some err, fs2) \<Rightarrow> (Inl err, fs2)
                              | (None, fs2) \<Rightarrow>
                                  (case os_WriteFile fs2 (keyFile_of m nodeID) keyPEM of
                                     (Some err, fs3) \<Rightarrow> (Inl err, fs3)
                                   | (None, fs3) \<Rightarrow>
                                       (Inr \<lparr>id_NodeID = nodeID, id_CertFile = certFile_of m nodeID,
                                             id_KeyFile = keyFile_of m nodeID,
                                             id_Cert = (case ParseCertificate lib certDER of
                                                          Inl err \<Rightarrow> None | Inr cert \<Rightarrow> Some cert),
                                             id_PrivateKey = priv\<rparr>, fs3))))))))"

text \<open>More than a day of validity left, for an identity that LoadIdentity returned (its Cert is set).\<close>

definition remaining :: "'k Identity \<Rightarrow> int \<Rightarrow> int" where
  "remaining i now = (case id_Cert i of None \<Rightarrow> 0 | Some c \<Rightarrow> ci_NotAfter c - now)"

definition stored_identity :: "'k x509_lib \<Rightarrow> Manager \<Rightarrow> string \<Rightarrow> gofs \<Rightarrow> 'k Identity option" where
  "stored_identity lib m nodeID fs =
     (if os_Stat fs (certFile_of m nodeID) = StatOK \<and> os_Stat fs (keyFile_of m nodeID) = StatOK then
        (case LoadIdentity lib fs m nodeID of Inl err \<Rightarrow> None | Inr i \<Rightarrow> Some i)
      else None)"

definition LoadOrCreateIdentity ::
    "'k x509_lib \<Rightarrow> gofs \<Rightarrow> Manager \<Rightarrow> string \<Rightarrow> string list \<Rightarrow> int \<Rightarrow> int \<Rightarrow> nat \<Rightarrow>
       (goerr + 'k Identity) \<times> gofs" where
  "LoadOrCreateIdentity lib fs m nodeID hosts now0 now rnd =
     (case stored_identity lib m nodeID fs of
        Some i \<Rightarrow>
          if remaining i now0 > 24 * Hour then (Inr i, fs)
          else GenerateIdentity lib fs m nodeID hosts now rnd
      | None \<Rightarrow> GenerateIdentity lib fs m nodeID hosts now rnd)"

text \<open>One tick of the goroutine that StartRotationWatcher starts.\<close>

definition rotation_tick ::
    "'k x509_lib \<Rightarrow> Manager \<Rightarrow> string \<Rightarrow> string list \<Rightarrow> int \<Rightarrow> int \<Rightarrow> nat \<Rightarrow> gofs \<Rightarrow> gofs" where
  "rotation_tick lib m nodeID hosts now0 now rnd fs =
     (case LoadIdentity lib fs m nodeID of
        Inl err \<Rightarrow> fs
      | Inr i \<Rightarrow>
          if remaining i now0 < 24 * Hour then snd (GenerateIdentity lib fs m nodeID hosts now rnd)
          else fs)"

text \<open>
  The goroutine, for the ticks it takes before the stop channel is closed: the time it checks, the time
  at which a new certificate is made, and the randomness.
\<close>

fun StartRotationWatcher ::
    "'k x509_lib \<Rightarrow> Manager \<Rightarrow> string \<Rightarrow> string list \<Rightarrow> (int \<times> int \<times> nat) list \<Rightarrow> gofs \<Rightarrow> gofs" where
  "StartRotationWatcher lib m nodeID hosts [] fs = fs"
| "StartRotationWatcher lib m nodeID hosts ((now0, now, rnd) # ticks) fs =
     StartRotationWatcher lib m nodeID hosts ticks (rotation_tick lib m nodeID hosts now0 now rnd fs)"

section \<open>The store of an identity\<close>

lemma Generate_files:
  assumes "GenerateIdentity lib fs m n hosts now rnd = (Inr i, fs')" "certFile_of m n \<noteq> keyFile_of m n"
  obtains priv serial der where "GenerateKey lib rnd = Inr priv"
    "CreateCertificate lib (node_template n hosts serial now) priv = Inr der"
    "fs_files fs' (certFile_of m n) = Some (pem_Encode lib ''CERTIFICATE'' der)"
    "fs_files fs' (keyFile_of m n) = Some (pem_Encode lib ''EC PRIVATE KEY''
       (case MarshalECPrivateKey lib priv of Inl err \<Rightarrow> [] | Inr b \<Rightarrow> b))"
    "\<And>p. path_ok fs' p = path_ok fs p"
proof -
  from assms(1) obtain priv serial der fs1 fs2 where g: "GenerateKey lib rnd = Inr priv"
      "CreateCertificate lib (node_template n hosts serial now) priv = Inr der"
    and s: "os_MkdirAll fs (nodeDir m n) = (None, fs1)"
      "os_WriteFile fs1 (certFile_of m n) (pem_Encode lib ''CERTIFICATE'' der) = (None, fs2)"
      "os_WriteFile fs2 (keyFile_of m n) (pem_Encode lib ''EC PRIVATE KEY''
         (case MarshalECPrivateKey lib priv of Inl err \<Rightarrow> [] | Inr b \<Rightarrow> b)) = (None, fs')"
    by (auto simp: GenerateIdentity_def Let_def split: sum.splits prod.splits option.splits)
  have "path_ok fs' p = path_ok fs p" for p
    using os_faults(1) [OF s(1)] os_faults(2) [OF s(2)] os_faults(2) [OF s(3)] by simp
  with that [OF g] os_WriteFile_ok [OF s(2)] os_WriteFile_ok [OF s(3)] assms(2) show ?thesis by simp
qed

text \<open>When the store works: no faults on its paths, generation succeeds, and the libraries keep their word.\<close>

definition node_ok ::
    "'k x509_lib \<Rightarrow> Manager \<Rightarrow> string \<Rightarrow> string list \<Rightarrow> int \<times> int \<times> nat \<Rightarrow> gofs \<Rightarrow> bool" where
  "node_ok lib m n hosts i fs \<longleftrightarrow>
     x509_faithful lib \<and> certFile_of m n \<noteq> keyFile_of m n \<and>
     path_ok fs (certFile_of m n) \<and> path_ok fs (keyFile_of m n) \<and>
     (case i of (now0, now, rnd) \<Rightarrow>
        \<not> isl (fst (GenerateIdentity lib fs m n hosts now rnd)) \<and>
        \<not> isl (MarshalECPrivateKey lib (projr (GenerateKey lib rnd))))"

definition node_fresh :: "'k x509_lib \<Rightarrow> Manager \<Rightarrow> string \<Rightarrow> int \<times> int \<times> nat \<Rightarrow> 'k Identity" where
  "node_fresh lib m n i =
     (case i of (now0, now, rnd) \<Rightarrow>
        \<lparr>id_NodeID = n, id_CertFile = certFile_of m n, id_KeyFile = keyFile_of m n,
         id_Cert = Some \<lparr>ci_NotBefore = whole_second (now - Minute),
                         ci_NotAfter = whole_second (now - Minute + 13 * 24 * Hour), ci_CommonName = n\<rparr>,
         id_PrivateKey = projr (GenerateKey lib rnd)\<rparr>)"

lemma stored_after_Generate:
  assumes "node_ok lib m n hosts (now0, now, rnd) fs"
  shows "stored_identity lib m n (snd (GenerateIdentity lib fs m n hosts now rnd)) =
    Some (node_fresh lib m n (now0, now, rnd))"
proof -
  obtain r fs' where gen: "GenerateIdentity lib fs m n hosts now rnd = (r, fs')"
    by (cases "GenerateIdentity lib fs m n hosts now rnd")
  with assms have faith: "x509_faithful lib" and ne: "certFile_of m n \<noteq> keyFile_of m n" and "\<not> isl r"
    and paths: "path_ok fs (certFile_of m n)" "path_ok fs (keyFile_of m n)"
    and mar: "\<not> isl (MarshalECPrivateKey lib (projr (GenerateKey lib rnd)))"
    by (simp_all add: node_ok_def)
  then obtain i where r: "r = Inr i" by (cases r) auto
  obtain priv serial der where g: "GenerateKey lib rnd = Inr priv"
      "CreateCertificate lib (node_template n hosts serial now) priv = Inr der"
      "fs_files fs' (certFile_of m n) = Some (pem_Encode lib ''CERTIFICATE'' der)"
      "fs_files fs' (keyFile_of m n) = Some (pem_Encode lib ''EC PRIVATE KEY''
         (case MarshalECPrivateKey lib priv of Inl err \<Rightarrow> [] | Inr b \<Rightarrow> b))"
      "\<And>p. path_ok fs' p = path_ok fs p"
    using Generate_files [OF gen [unfolded r] ne] by blast
  from mar g(1) obtain kd where kd: "MarshalECPrivateKey lib priv = Inr kd"
    by (cases "MarshalECPrivateKey lib priv") auto
  have p: "path_ok fs' (certFile_of m n)" "path_ok fs' (keyFile_of m n)" using g(5) paths by simp_all
  have "LoadIdentity lib fs' m n = Inr (node_fresh lib m n (now0, now, rnd))"
    using os_ReadFile_ok [OF p(1) g(3)] os_ReadFile_ok [OF p(2) g(4)] faithful_pem [OF faith]
      faithful_parse [OF faith g(2)] faithful_key [OF faith kd] kd g(1)
    by (simp add: LoadIdentity_def node_fresh_def node_template_def Let_def)
  with gen os_Stat_ok [OF p(1) g(3)] os_Stat_ok [OF p(2) g(4)] show ?thesis
    by (simp add: stored_identity_def)
qed

interpretation node_store: cert_store "stored_identity lib m n"
  "\<lambda>i (now0, now, rnd). remaining i now0 > 24 * Hour"
  "\<lambda>(now0, now, rnd) fs. GenerateIdentity lib fs m n hosts now rnd"
  "node_fresh lib m n" "node_ok lib m n hosts"
  "\<lambda>(now0, now, rnd) fs. LoadOrCreateIdentity lib fs m n hosts now0 now rnd"
  for lib m n hosts
proof (unfold_locales, goal_cases)
  case (1 i fs)
  then show ?case by (cases i) (simp add: stored_after_Generate)
next
  case (2 i fs)
  show ?case by (cases i) (auto simp: LoadOrCreateIdentity_def split: option.splits)
qed

text \<open>Generation works at every tick of a run.\<close>

fun rotation_ok ::
    "'k x509_lib \<Rightarrow> Manager \<Rightarrow> string \<Rightarrow> string list \<Rightarrow> (int \<times> int \<times> nat) list \<Rightarrow> gofs \<Rightarrow> bool" where
  "rotation_ok lib m n hosts [] fs = True"
| "rotation_ok lib m n hosts ((now0, now, rnd) # ticks) fs =
     (node_ok lib m n hosts (now0, now, rnd) fs \<and> now0 \<le> now \<and>
      rotation_ok lib m n hosts ticks (rotation_tick lib m n hosts now0 now rnd fs))"

section \<open>Properties of identities\<close>

text \<open>
  C24: Identities are reused and renewed. (The validity is 13 days in the code, where architecture.md and tls.md
  of docs/ and a comment of examples/mtls-pki say 14.) An identity generated at time t is what LoadOrCreateIdentity
  returns, with the files untouched, at every later time at which its certificate (valid until 13 days
  after one minute before t, to the second) has more than a day left; from then on a new one is
  generated.
\<close>

theorem identity_reused_until_last_day:
  assumes "node_ok lib m n hosts (t, t, rnd) fs"
  shows "LoadOrCreateIdentity lib (snd (GenerateIdentity lib fs m n hosts t rnd)) m n hosts now0 now rnd' =
    (if whole_second (t - Minute + 13 * 24 * Hour) - now0 > 24 * Hour
     then (Inr (node_fresh lib m n (t, t, rnd)), snd (GenerateIdentity lib fs m n hosts t rnd))
     else GenerateIdentity lib (snd (GenerateIdentity lib fs m n hosts t rnd)) m n hosts now rnd')"
proof -
  have "remaining (node_fresh lib m n (t, t, rnd)) now0 = whole_second (t - Minute + 13 * 24 * Hour) - now0"
    by (simp add: remaining_def node_fresh_def)
  then show ?thesis
    using node_store.get_kept [OF assms, where j = "(now0, now, rnd')"]
      node_store.get_remade [OF assms, where j = "(now0, now, rnd')"]
    by simp
qed

definition node_lib :: "unit x509_lib" where
  "node_lib = one_cert_lib (0 - Minute) (0 - Minute + 13 * 24 * Hour) ''n1''"

definition node_mgr :: Manager where
  "node_mgr = NewManager ''pki''"

lemma node_paths:
  "nodeDir node_mgr ''n1'' = ''pki/n1''" "certFile_of node_mgr ''n1'' = ''pki/n1/cert.pem''"
  "keyFile_of node_mgr ''n1'' = ''pki/n1/key.pem''" "parents ''pki/n1'' = [''pki'']"
  by code_simp+

lemma node_sample_ok: "node_ok node_lib node_mgr ''n1'' [] (now0, 0, rnd) empty_fs"
  unfolding node_ok_def node_paths
  by (simp add: node_lib_def one_cert_lib_faithful path_ok_def empty_fs_def)
    (simp add: GenerateIdentity_def node_paths node_template_def one_cert_lib_def os_MkdirAll_def
      os_WriteFile_def Let_def)

theorem identity_reused_until_last_day_witness:
  "LoadOrCreateIdentity node_lib (snd (GenerateIdentity node_lib empty_fs node_mgr ''n1'' [] 0 1))
     node_mgr ''n1'' [] (5 * Hour) (5 * Hour) 2 =
   (if whole_second (0 - Minute + 13 * 24 * Hour) - 5 * Hour > 24 * Hour
    then (Inr (node_fresh node_lib node_mgr ''n1'' (0, 0, 1)),
          snd (GenerateIdentity node_lib empty_fs node_mgr ''n1'' [] 0 1))
    else GenerateIdentity node_lib (snd (GenerateIdentity node_lib empty_fs node_mgr ''n1'' [] 0 1))
           node_mgr ''n1'' [] (5 * Hour) 2)"
  by (rule identity_reused_until_last_day [OF node_sample_ok])

lemma rotation_tick_day:
  assumes "node_ok lib m n hosts (now0, now, rnd) fs" "now0 \<le> now"
    and "stored_identity lib m n fs = Some i"
  shows "\<exists>i'. stored_identity lib m n (rotation_tick lib m n hosts now0 now rnd fs) = Some i' \<and>
    remaining i' now0 \<ge> 24 * Hour"
proof -
  from assms(3) have load: "LoadIdentity lib fs m n = Inr i"
    by (auto simp: stored_identity_def split: if_splits sum.splits)
  show ?thesis
  proof (cases "remaining i now0 < 24 * Hour")
    case False
    with load assms(3) show ?thesis by (simp add: rotation_tick_def)
  next
    case True
    have "now - Minute + 13 * 24 * Hour < whole_second (now - Minute + 13 * 24 * Hour) + Second"
      by (rule whole_second_le)
    then have "whole_second (now - Minute + 13 * 24 * Hour) - now0 \<ge> 24 * Hour"
      using assms(2) unfolding time_defs by linarith
    moreover have "remaining (node_fresh lib m n (now0, now, rnd)) now0 =
        whole_second (now - Minute + 13 * 24 * Hour) - now0"
      by (simp add: remaining_def node_fresh_def)
    ultimately show ?thesis
      using True load stored_after_Generate [OF assms(1)] by (simp add: rotation_tick_def)
  qed
qed

text \<open>
  C25: Rotation keeps an identity valid. If an identity is stored and generation works, then however
  many ticks the watcher has taken until it is stopped, there is a stored identity, and it is valid for
  a day from the last tick: with ticks less than a day apart it is never found expired.
\<close>

theorem rotation_keeps_a_day:
  assumes "rotation_ok lib m n hosts (ticks @ [(now0, now, rnd)]) fs" "stored_identity lib m n fs = Some i"
    and "t \<le> now0 + 24 * Hour"
  shows "\<exists>i'. stored_identity lib m n (StartRotationWatcher lib m n hosts (ticks @ [(now0, now, rnd)]) fs) = Some i' \<and>
    remaining i' t \<ge> 0"
  using assms(1,2)
proof (induction ticks arbitrary: fs i)
  case Nil
  then obtain i' where "stored_identity lib m n (rotation_tick lib m n hosts now0 now rnd fs) = Some i'"
      "remaining i' now0 \<ge> 24 * Hour"
    using rotation_tick_day [of lib m n hosts now0 now rnd fs i] by auto
  moreover from this assms(3) have "remaining i' t \<ge> 0"
    by (auto simp: remaining_def time_defs split: option.splits)
  ultimately show ?case by simp
next
  case (Cons e ticks)
  obtain a b r where e: "e = (a, b, r)" by (cases e)
  with Cons.prems obtain i' where "stored_identity lib m n (rotation_tick lib m n hosts a b r fs) = Some i'"
    using rotation_tick_day [of lib m n hosts a b r fs i] by auto
  with Cons e show ?case by simp
qed

theorem rotation_keeps_a_day_witness:
  "\<exists>i'. stored_identity node_lib node_mgr ''n1''
      (StartRotationWatcher node_lib node_mgr ''n1'' [] ([] @ [(0 - 1, 0, 2)])
        (snd (GenerateIdentity node_lib empty_fs node_mgr ''n1'' [] 0 1))) = Some i' \<and>
    remaining i' (23 * Hour) \<ge> 0"
proof (rule rotation_keeps_a_day)
  show "stored_identity node_lib node_mgr ''n1'' (snd (GenerateIdentity node_lib empty_fs node_mgr ''n1'' [] 0 1)) =
      Some (node_fresh node_lib node_mgr ''n1'' (0, 0, 1))"
    by (rule stored_after_Generate [OF node_sample_ok])
  have "node_ok node_lib node_mgr ''n1'' [] (0 - 1, 0, 2)
      (snd (GenerateIdentity node_lib empty_fs node_mgr ''n1'' [] 0 1))"
    unfolding node_ok_def node_paths
    by (simp add: node_lib_def one_cert_lib_faithful)
      (simp add: GenerateIdentity_def node_paths node_template_def one_cert_lib_def os_MkdirAll_def
        os_WriteFile_def path_ok_def empty_fs_def Let_def)
  then show "rotation_ok node_lib node_mgr ''n1'' [] ([] @ [(0 - 1, 0, 2)])
      (snd (GenerateIdentity node_lib empty_fs node_mgr ''n1'' [] 0 1))"
    by simp
qed (simp add: time_defs)

text \<open>
  C34: A half-finished rotation is taken for a good one. GenerateIdentity writes the certificate before the
  key, and LoadIdentity does not compare them: when the key file cannot be written, GenerateIdentity
  fails, but from then on LoadOrCreateIdentity returns the new certificate together with the old private
  key, which it was not made for, as long as the certificate has more than a day left.
\<close>

theorem torn_rotation_accepted:
  assumes "x509_faithful lib" "certFile_of m n \<noteq> keyFile_of m n" "path_ok fs (certFile_of m n)"
    and "fs_statErr fs (keyFile_of m n) = None" "fs_readErr fs (keyFile_of m n) = None"
    and "fs_files fs (keyFile_of m n) = Some (pem_Encode lib ''EC PRIVATE KEY'' kd)" "ParseECPrivateKey lib kd = Inr oldKey"
    and "fs_writeErr fs (keyFile_of m n) = Some (err, None)"
    and "GenerateKey lib rnd = Inr priv" "RandSerial lib rnd = Inr serial"
    and "CreateCertificate lib (node_template n hosts serial t) priv = Inr der" "priv \<noteq> oldKey"
    and "fst (os_MkdirAll fs (nodeDir m n)) = None" "certFile_of m n \<notin> fs_dirs (snd (os_MkdirAll fs (nodeDir m n)))"
    and "whole_second (t - Minute + 13 * 24 * Hour) - now0 > 24 * Hour"
  shows "\<exists>fs' i. GenerateIdentity lib fs m n hosts t rnd = (Inl err, fs') \<and>
    LoadOrCreateIdentity lib fs' m n hosts now0 now rnd' = (Inr i, fs') \<and>
    ParseCertificate lib der = Inr (the (id_Cert i)) \<and> id_PrivateKey i = oldKey \<and> id_PrivateKey i \<noteq> priv"
proof -
  let ?c = "certFile_of m n" and ?k = "keyFile_of m n"
  obtain fs1 where mk: "os_MkdirAll fs (nodeDir m n) = (None, fs1)"
    using assms(13) by (cases "os_MkdirAll fs (nodeDir m n)") auto
  then have fs1: "fs1 = fs\<lparr>fs_dirs := fs_dirs fs1\<rparr>"
    by (auto simp: os_MkdirAll_def split: option.splits if_splits)
  let ?fs = "fs1\<lparr>fs_files := (fs_files fs1)(?c \<mapsto> pem_Encode lib ''CERTIFICATE'' der)\<rparr>"
  have faults: "fs_writeErr fs1 p = fs_writeErr fs p" "fs_statErr fs1 p = fs_statErr fs p"
    "fs_readErr fs1 p = fs_readErr fs p" "fs_files fs1 p = fs_files fs p" for p
    by (subst fs1, simp)+
  have "os_WriteFile fs1 ?c (pem_Encode lib ''CERTIFICATE'' der) = (None, ?fs)"
    using assms(3,14) mk by (simp add: os_WriteFile_def path_ok_def faults)
  moreover have "os_WriteFile ?fs ?k d = (Some err, ?fs)" for d
    using assms(8) by (simp add: os_WriteFile_def faults)
  ultimately have gen: "GenerateIdentity lib fs m n hosts t rnd = (Inl err, ?fs)"
    using assms(9-11) mk by (simp add: GenerateIdentity_def Let_def)
  have rd: "os_ReadFile ?fs ?c = Inr (pem_Encode lib ''CERTIFICATE'' der)"
    "os_ReadFile ?fs ?k = Inr (pem_Encode lib ''EC PRIVATE KEY'' kd)"
    using assms(2,3,5,6) by (auto simp: os_ReadFile_def path_ok_def faults)
  let ?i = "\<lparr>id_NodeID = n, id_CertFile = ?c, id_KeyFile = ?k,
    id_Cert = Some \<lparr>ci_NotBefore = whole_second (t - Minute),
      ci_NotAfter = whole_second (t - Minute + 13 * 24 * Hour), ci_CommonName = n\<rparr>, id_PrivateKey = oldKey\<rparr>"
  have cert: "ParseCertificate lib der = Inr (the (id_Cert ?i))"
    using faithful_parse [OF assms(1,11)] by (simp add: node_template_def Let_def)
  have "LoadIdentity lib ?fs m n = Inr ?i"
    using rd cert assms(7) by (simp add: LoadIdentity_def faithful_pem [OF assms(1)])
  moreover have "os_Stat ?fs ?c = StatOK" "os_Stat ?fs ?k = StatOK"
    using assms(2-4,6) by (auto simp: os_Stat_def path_ok_def faults)
  ultimately have "LoadOrCreateIdentity lib ?fs m n hosts now0 now rnd' = (Inr ?i, ?fs)"
    using assms(15) by (simp add: LoadOrCreateIdentity_def stored_identity_def remaining_def)
  with gen cert assms(12) show ?thesis
    by (intro exI [where x = ?fs] exI [where x = ?i]) simp
qed

text \<open>A library whose keys are numbers, and a disk on which the key file cannot be opened for writing.\<close>

definition num_lib :: "nat x509_lib" where
  "num_lib =
     \<lparr>GenerateKey = Inr, RandSerial = (\<lambda>_. Inr 1),
      CreateCertificate = (\<lambda>t k. if t = node_template ''n1'' [] 1 0 then Inr [1] else Inl io_EOF),
      MarshalECPrivateKey = (\<lambda>k. if k < 256 then Inr [word_of_nat k] else Inl io_EOF),
      ParseECPrivateKey = (\<lambda>b. case b of [x] \<Rightarrow> Inr (unat x) | _ \<Rightarrow> Inl io_EOF),
      ParseCertificate = (\<lambda>_. Inr \<lparr>ci_NotBefore = whole_second (0 - Minute),
        ci_NotAfter = whole_second (0 - Minute + 13 * 24 * Hour), ci_CommonName = ''n1''\<rparr>),
      pem_Encode = (\<lambda>ty b. b), pem_Decode = Some, X509KeyPair = (\<lambda>c k. Inr [c]),
      ParseIP = (\<lambda>_. None), Sum256 = id\<rparr>"

definition locked_key_fs :: gofs where
  "locked_key_fs = empty_fs\<lparr>fs_files := [''pki/n1/key.pem'' \<mapsto> [5]],
     fs_writeErr := [''pki/n1/key.pem'' \<mapsto> (Err ''permission denied'', None)]\<rparr>"

theorem torn_rotation_accepted_witness:
  "\<exists>fs' i. GenerateIdentity num_lib locked_key_fs node_mgr ''n1'' [] 0 7 = (Inl (Err ''permission denied''), fs') \<and>
    LoadOrCreateIdentity num_lib fs' node_mgr ''n1'' [] Hour Hour 8 = (Inr i, fs') \<and>
    ParseCertificate num_lib [1] = Inr (the (id_Cert i)) \<and> id_PrivateKey i = 5 \<and> id_PrivateKey i \<noteq> 7"
proof (rule torn_rotation_accepted [where serial = 1 and kd = "[5]"])
  show "x509_faithful num_lib"
    by (auto simp: x509_faithful_def num_lib_def node_template_def Let_def unat_of_nat split: if_splits)
  have mk: "os_MkdirAll locked_key_fs ''pki/n1'' = (None, locked_key_fs\<lparr>fs_dirs := {''pki/n1'', ''pki''}\<rparr>)"
    by (simp add: os_MkdirAll_def locked_key_fs_def empty_fs_def node_paths)
  show "fst (os_MkdirAll locked_key_fs (nodeDir node_mgr ''n1'')) = None"
    "certFile_of node_mgr ''n1'' \<notin> fs_dirs (snd (os_MkdirAll locked_key_fs (nodeDir node_mgr ''n1'')))"
    by (simp_all add: node_paths mk)
  show "path_ok locked_key_fs (certFile_of node_mgr ''n1'')"
    by (simp add: path_ok_def node_paths locked_key_fs_def empty_fs_def)
  show "24 * Hour < whole_second (0 - Minute + 13 * 24 * Hour) - Hour" by (simp add: whole_second_def time_defs)
qed (simp_all add: node_paths locked_key_fs_def empty_fs_def num_lib_def)

end
