(* ===== verification/Cli.thy ===== *)
theory Cli
  imports Files
begin

text \<open>
  internal/cli/cli.go and the two commands that call it: command dispatch, the project generator
  \<^verbatim>\<open>quicframe new\<close> and its module names. The state is the file system and the lines printed.
\<close>

section \<open>Module names\<close>

definition is_lower :: "char \<Rightarrow> bool" where
  "is_lower c = (let n = of_char c :: nat in 97 \<le> n \<and> n \<le> 122)"

text \<open>
  The loop body of sanitizeModuleName. The loop ranges over runes; a rune outside ASCII, or an invalid
  byte, falls through the switch, so the bytes of its encoding are skipped.
\<close>

definition sanitize_step :: "string \<times> bool \<Rightarrow> char \<Rightarrow> string \<times> bool" where
  "sanitize_step st r =
     (case st of (b, prevDash) \<Rightarrow>
        if is_lower r then (b @ [r], False)
        else if is_digit r then (b @ [r], False)
        else if r = CHR ''-'' \<or> r = CHR ''_'' then
          (if \<not> prevDash \<and> 0 < length b then (b @ [CHR ''-''], True) else (b, prevDash))
        else (b, prevDash))"

definition sanitizeModuleName :: "golib \<Rightarrow> string \<Rightarrow> string" where
  "sanitizeModuleName L name0 =
     (let name = ToLower L (TrimSpace name0)
      in if name = ''.'' \<or> name = ''/'' then []
         else Trim1 (CHR ''-'') (fst (foldl sanitize_step ([], False) name)))"

section \<open>The starter project\<close>

definition nl :: char where "nl = CHR 0x0A"

text \<open>Lines, each with its number of leading tabs, with a newline after every one.\<close>

definition tabbed :: "(nat \<times> string) list \<Rightarrow> string" where
  "tabbed ls = concat (map (\<lambda>(n, s). replicate n (CHR 0x09) @ s @ [nl]) ls)"

definition starterGoMod :: "string \<Rightarrow> string" where
  "starterGoMod moduleName = tabbed [(0, ''module '' @ moduleName), (0, []), (0, ''go 1.24.0'')]"

definition starterMainGo :: string where
  "starterMainGo = tabbed
     [(0, ''package main''), (0, []), (0, ''import (''), (1, ''\"context\"''), (1, ''\"log\"''), (0, []),
      (1, ''qf \"github.com/msmecodex/quicframe/framework\"''),
      (1, ''\"github.com/msmecodex/quicframe/middleware\"''),
      (1, ''\"github.com/msmecodex/quicframe/tlsutil\"''), (0, '')''), (0, []),
      (0, ''func main() {''), (1, ''app := qf.New()''), (1, ''app.Use(''),
      (2, ''middleware.Recovery(),''), (2, ''middleware.Logger(),''), (1, '')''), (0, []),
      (1, ''app.GET(\"/ping\", func(c *qf.Context) error {''),
      (2, ''return c.MsgPack(200, map[string]string{\"pong\": \"ok\"})''), (1, ''})''), (0, []),
      (1, ''tlsCfg, err := tlsutil.LoadOrCreateSelfSigned(''),
      (2, ''\".local/certs/localhost-cert.pem\",''), (2, ''\".local/certs/localhost-key.pem\",''),
      (2, ''\"localhost\",''), (2, ''\"127.0.0.1\",''), (1, '')''),
      (1, ''if err != nil {''), (2, ''log.Fatal(err)''), (1, ''}''), (0, []),
      (1, ''log.Println(\"QuicFrame server listening on :4433 and :4434\")''),
      (1, ''if err := app.ListenAddr(context.Background(), \":4433\", \":4434\", tlsCfg); err != nil {''),
      (2, ''log.Fatal(err)''), (1, ''}''), (0, ''}'')]"

definition starterGitIgnore :: string where
  "starterGitIgnore = tabbed [(0, ''.local/'')]"

definition starterREADME :: "string \<Rightarrow> string" where
  "starterREADME moduleName = tabbed
     [(0, ''# '' @ moduleName), (0, []), (0, ''Starter app generated by QuicFrame CLI.''), (0, []),
      (0, ''## Run''), (0, []), (0, ''```bash''), (0, ''go mod tidy''), (0, ''go run .''), (0, ''```''),
      (0, []), (0, ''## Endpoints''), (0, []), (0, ''- Native QUIC: `:4433`''),
      (0, ''- WebTransport: `:4434` at `/wt`''), (0, ''- Health check: `/ping`'')]"

definition to_bytes :: "string \<Rightarrow> bytes" where
  "to_bytes s = map (\<lambda>c. word_of_nat (of_char c)) s"

definition writeNewFile :: "gofs \<Rightarrow> string \<Rightarrow> string \<Rightarrow> goerr option \<times> gofs" where
  "writeNewFile fs path content =
     (case os_Stat fs path of
        StatOK \<Rightarrow> (Some (Err (path @ '' already exists'')), fs)
      | StatErr err \<Rightarrow> (Some err, fs)
      | StatNotExist \<Rightarrow> os_WriteFile fs path (to_bytes content))"

text \<open>Sequencing of calls that return an error: stop at the first.\<close>

definition and_then :: "goerr option \<times> gofs \<Rightarrow> (gofs \<Rightarrow> goerr option \<times> gofs) \<Rightarrow> goerr option \<times> gofs" where
  "and_then r f = (case r of (Some err, fs) \<Rightarrow> (Some err, fs) | (None, fs) \<Rightarrow> f fs)"

text \<open>What runNew does to the file system once the destination and the module name are known.\<close>

definition new_project :: "gofs \<Rightarrow> string \<Rightarrow> string \<Rightarrow> goerr option \<times> gofs" where
  "new_project fs dest moduleName =
     and_then (and_then (and_then (and_then (and_then (os_MkdirAll fs dest)
       (\<lambda>fs. writeNewFile fs (path_Join [dest, ''go.mod'']) (starterGoMod moduleName)))
       (\<lambda>fs. writeNewFile fs (path_Join [dest, ''main.go'']) starterMainGo))
       (\<lambda>fs. os_MkdirAll fs (path_Join [dest, ''.local'', ''certs''])))
       (\<lambda>fs. writeNewFile fs (path_Join [dest, ''.gitignore'']) starterGitIgnore))
       (\<lambda>fs. writeNewFile fs (path_Join [dest, ''README.md'']) (starterREADME moduleName))"

definition runNew :: "golib \<Rightarrow> gofs \<Rightarrow> string list \<Rightarrow> goerr option \<times> gofs \<times> string list" where
  "runNew L fs args =
     (case args of
        [] \<Rightarrow> (Some (Err ''missing destination directory: quicframe new <dir>''), fs, [])
      | [arg] \<Rightarrow>
          (let dest = Clean arg; moduleName = sanitizeModuleName L (Base dest)
           in if moduleName = [] then
                (Some (Err (''could not derive a module name from '' @ Quote L arg)), fs, [])
              else
                (case new_project fs dest moduleName of
                   (Some err, fs') \<Rightarrow> (Some err, fs', [])
                 | (None, fs') \<Rightarrow>
                     (None, fs', [''Created QuicFrame app in '' @ dest, [], ''Next steps:'',
                                  ''  cd '' @ dest, ''  go mod tidy'', ''  go run .''])))
      | _ \<Rightarrow> (Some (Err ''too many arguments: quicframe new <dir>''), fs, []))"

section \<open>Commands\<close>

definition Version :: string where "Version = ''dev''"

definition printHelp :: "string list" where
  "printHelp =
     [''QuicFrame CLI'', [], ''Usage:'', ''  quicframe <command>'', [], ''Commands:'',
      ''  new <dir>   Create a starter QuicFrame app'', ''  version     Print CLI version'',
      ''  help        Show this help'', [], ''Install:'',
      ''  go install github.com/msmecodex/quicframe@latest'']"

definition cli_Main :: "golib \<Rightarrow> gofs \<Rightarrow> string list \<Rightarrow> goerr option \<times> gofs \<times> string list" where
  "cli_Main L fs args =
     (case args of
        [] \<Rightarrow> (None, fs, printHelp)
      | a # rest \<Rightarrow>
          if a \<in> {''help'', ''-h'', ''--help''} then (None, fs, printHelp)
          else if a \<in> {''version'', ''-v'', ''--version''} then (None, fs, [Version])
          else if a = ''new'' then runNew L fs rest
          else (Some (Err (''unknown command '' @ Quote L a)), fs, []))"

text \<open>The programs: exit status and standard error.\<close>

definition command_main :: "golib \<Rightarrow> gofs \<Rightarrow> string list \<Rightarrow> nat \<times> gofs \<times> string list \<times> string list" where
  "command_main L fs args =
     (case cli_Main L fs args of
        (None, fs', out) \<Rightarrow> (0, fs', out, [])
      | (Some err, fs', out) \<Rightarrow> (1, fs', out, [''quicframe: '' @ err_text err]))"

section \<open>Facts about files\<close>

text \<open>A step that leaves every existing file as it was.\<close>

definition keeps_files :: "gofs \<Rightarrow> gofs \<Rightarrow> bool" where
  "keeps_files fs fs' \<longleftrightarrow> (\<forall>p b. fs_files fs p = Some b \<longrightarrow> fs_files fs' p = Some b)"

lemma keeps_refl [simp]: "keeps_files fs fs"
  by (simp add: keeps_files_def)

lemma keeps_trans: "keeps_files a b \<Longrightarrow> keeps_files b c \<Longrightarrow> keeps_files a c"
  by (simp add: keeps_files_def)

lemma os_MkdirAll_keeps: "keeps_files fs (snd (os_MkdirAll fs p))"
  using os_MkdirAll_files [of fs p] by (cases "os_MkdirAll fs p") (simp add: keeps_files_def)

lemma writeNewFile_keeps: "keeps_files fs (snd (writeNewFile fs p c))"
proof (cases "os_Stat fs p")
  case StatNotExist
  then have "fs_files fs p = None" by (auto simp: os_Stat_def split: option.splits if_splits)
  then have "fs_files (snd (os_WriteFile fs p (to_bytes c))) q = fs_files fs q" if "fs_files fs q \<noteq> None" for q
    using that os_WriteFile_files [of fs p "to_bytes c" _ _ q] by (metis prod.collapse)
  with StatNotExist show ?thesis by (simp add: writeNewFile_def keeps_files_def)
qed (simp_all add: writeNewFile_def)

lemma and_then_keeps:
  assumes "keeps_files fs (snd r)" "\<And>fs1. keeps_files fs1 (snd (f fs1))"
  shows "keeps_files fs (snd (and_then r f))"
  using assms by (cases r) (auto simp: and_then_def split: option.splits intro: keeps_trans)

lemma new_project_keeps: "keeps_files fs (snd (new_project fs dest n))"
  unfolding new_project_def
  by (intro and_then_keeps os_MkdirAll_keeps writeNewFile_keeps)

lemma writeNewFile_ok:
  "writeNewFile fs p c = (None, fs') \<Longrightarrow> fs_files fs p = None \<and> fs_files fs' p = Some (to_bytes c)"
  by (auto simp: writeNewFile_def os_Stat_def split: stat_result.splits option.splits if_splits
      dest: os_WriteFile_ok)

lemma and_then_None:
  "and_then r f = (None, fs') \<longleftrightarrow> (\<exists>fs1. r = (None, fs1) \<and> f fs1 = (None, fs'))"
  by (cases r) (auto simp: and_then_def split: option.splits)

section \<open>Facts about module names\<close>

definition name_char :: "char \<Rightarrow> bool" where
  "name_char c \<longleftrightarrow> is_lower c \<or> is_digit c \<or> c = CHR ''-''"

text \<open>Dashes are single.\<close>

fun single_dashes :: "string \<Rightarrow> bool" where
  "single_dashes (a # b # s) \<longleftrightarrow> \<not> (a = CHR ''-'' \<and> b = CHR ''-'') \<and> single_dashes (b # s)"
| "single_dashes _ \<longleftrightarrow> True"

lemma single_dashes_snoc:
  "single_dashes (s @ [c]) \<longleftrightarrow> single_dashes s \<and> (s = [] \<or> last s \<noteq> CHR ''-'' \<or> c \<noteq> CHR ''-'')"
  by (induction s rule: single_dashes.induct) auto

definition name_state :: "string \<times> bool \<Rightarrow> bool" where
  "name_state st \<longleftrightarrow>
     list_all name_char (fst st) \<and> single_dashes (fst st) \<and>
     (fst st \<noteq> [] \<longrightarrow> hd (fst st) \<noteq> CHR ''-'') \<and>
     (snd st \<longleftrightarrow> fst st \<noteq> [] \<and> last (fst st) = CHR ''-'')"

lemma lower_not_dash: "is_lower c \<Longrightarrow> c \<noteq> CHR ''-''" "is_digit c \<Longrightarrow> c \<noteq> CHR ''-''"
  by (auto simp: is_lower_def is_digit_def)

lemma sanitize_step_state: "name_state st \<Longrightarrow> name_state (sanitize_step st r)"
  by (cases st)
    (auto simp: name_state_def sanitize_step_def name_char_def single_dashes_snoc hd_append lower_not_dash)

lemma sanitize_fold_state: "name_state st \<Longrightarrow> name_state (foldl sanitize_step st s)"
  by (induction s arbitrary: st) (simp_all add: sanitize_step_state)

lemma single_dashes_butlast: "single_dashes (s @ [c]) \<Longrightarrow> single_dashes s"
  by (simp add: single_dashes_snoc)

definition good_name :: "string \<Rightarrow> bool" where
  "good_name s \<longleftrightarrow> list_all name_char s \<and> single_dashes s \<and>
     (s \<noteq> [] \<longrightarrow> hd s \<noteq> CHR ''-'' \<and> last s \<noteq> CHR ''-'')"

lemma Trim1_state:
  assumes "name_state (b, d)"
  shows "good_name (Trim1 (CHR ''-'') b)"
proof (cases "b = [] \<or> last b \<noteq> CHR ''-''")
  case True
  then have "Trim1 (CHR ''-'') b = b" using assms by (auto simp: name_state_def intro: Trim1_id)
  with True assms show ?thesis by (auto simp: good_name_def name_state_def)
next
  case False
  then obtain c where b: "b = c @ [CHR ''-'']" by (metis append_butlast_last_id)
  with assms have c: "c \<noteq> []" "hd c \<noteq> CHR ''-''" "last c \<noteq> CHR ''-''" "list_all name_char c" "single_dashes c"
    by (auto simp: name_state_def single_dashes_snoc hd_append split: if_splits)
  have "Trim1 (CHR ''-'') b = Trim1 (CHR ''-'') c"
    using Trim1_pad [of "CHR ''-''" 0 c 1] by (simp add: b)
  also have "\<dots> = c" using c by (auto intro: Trim1_id)
  finally show ?thesis using c by (simp add: good_name_def)
qed

lemma sanitize_good: "good_name (sanitizeModuleName L n)"
proof -
  have "name_state ([], False)" by (simp add: name_state_def)
  then have "name_state (foldl sanitize_step ([], False) s)" for s by (rule sanitize_fold_state)
  then have "good_name (Trim1 (CHR ''-'') (fst (foldl sanitize_step ([], False) s)))" for s
    using Trim1_state by (metis prod.collapse)
  then show ?thesis by (simp add: sanitizeModuleName_def Let_def good_name_def)
qed

text \<open>A good name passes through unchanged.\<close>

lemma fold_good:
  assumes "list_all name_char (b @ s)" "single_dashes (b @ s)" "b @ s \<noteq> [] \<longrightarrow> hd (b @ s) \<noteq> CHR ''-''"
  shows "fst (foldl sanitize_step (b, b \<noteq> [] \<and> last b = CHR ''-'') s) = b @ s"
  using assms
proof (induction s arbitrary: b)
  case Nil
  then show ?case by simp
next
  case (Cons c s)
  have bc: "single_dashes (b @ [c])" using Cons.prems(2)
    by (induction b rule: single_dashes.induct) (auto simp: neq_Nil_conv)
  have "sanitize_step (b, b \<noteq> [] \<and> last b = CHR ''-'') c = (b @ [c], c = CHR ''-'')"
    using Cons.prems(1,3) bc
    by (auto simp: sanitize_step_def name_char_def single_dashes_snoc lower_not_dash)
  moreover have "fst (foldl sanitize_step (b @ [c], b @ [c] \<noteq> [] \<and> last (b @ [c]) = CHR ''-'') s) = (b @ [c]) @ s"
    using Cons.prems by (intro Cons.IH) simp_all
  ultimately show ?case by simp
qed

lemma not_space:
  assumes "name_char c"
  shows "c \<notin> hd ` set space_seqs" "c \<notin> hd ` set (map rev space_seqs)"
proof -
  have "list_all (\<lambda>q. \<not> name_char (hd q)) space_seqs" "list_all (\<lambda>q. \<not> name_char (hd (rev q))) space_seqs"
    by code_simp+
  with assms show "c \<notin> hd ` set space_seqs" "c \<notin> hd ` set (map rev space_seqs)"
    by (auto simp: list_all_iff)
qed

lemma TrimSpace_good: "list_all name_char s \<Longrightarrow> TrimSpace s = s"
proof (cases "s = []")
  case True
  then show ?thesis by (simp add: TrimSpace_def trim_seqs_id find_space_None)
next
  case False
  assume "list_all name_char s"
  with False have "name_char (hd s)" "name_char (hd (rev s))" by (simp_all add: list_all_iff hd_rev)
  then have "trim_seqs space_seqs s = s" "trim_seqs (map rev space_seqs) (rev s) = rev s"
    by (auto intro!: trim_seqs_id find_space_None dest: not_space)
  then show ?thesis by (simp add: TrimSpace_def)
qed

lemma ToLower_good: "list_all name_char s \<Longrightarrow> ToLower L s = s"
proof -
  assume a: "list_all name_char s"
  have "is_ascii c \<and> lower_char c = c" if "name_char c" for c
    using that by (auto simp: name_char_def is_lower_def is_digit_def is_ascii_def lower_char_def Let_def)
  with a show ?thesis
    by (auto simp: ToLower_def list_all_iff intro: map_idI)
qed

section \<open>Properties of the command line tool\<close>

text \<open>
  C32: \<^verbatim>\<open>quicframe new\<close> never overwrites. Whatever its arguments and however it ends, every file that
  existed before the command still has its content.
\<close>

theorem new_never_overwrites:
  assumes "fs_files fs p = Some content" "cli_Main L fs args = (r, fs', out)"
  shows "fs_files fs' p = Some content"
proof -
  have "keeps_files fs (fst (snd (runNew L fs as)))" for as
    using new_project_keeps [of fs]
    by (auto simp: runNew_def Let_def split: list.splits prod.splits option.splits) (metis snd_conv)+
  then have "keeps_files fs fs'"
    using assms(2) by (auto simp: cli_Main_def split: list.splits if_splits) (metis fst_conv snd_conv)
  with assms(1) show ?thesis by (simp add: keeps_files_def)
qed

definition one_file_fs :: gofs where
  "one_file_fs = \<lparr>fs_files = [''app/main.go'' \<mapsto> [1]], fs_dirs = {''app''}, fs_statErr = (\<lambda>_. None),
     fs_readErr = (\<lambda>_. None), fs_mkdirErr = (\<lambda>_. None), fs_writeErr = (\<lambda>_. None)\<rparr>"

definition plain_lib :: golib where
  "plain_lib = \<lparr>mapToUpper = id, mapToLower = id, authorityOK = (\<lambda>_. True), cookieValue = (\<lambda>_ _. None),
     Quote = id\<rparr>"

theorem new_never_overwrites_witness:
  "fs_files (fst (snd (cli_Main plain_lib one_file_fs [''new'', ''app'']))) ''app/main.go'' = Some [1]"
proof (rule new_never_overwrites)
  let ?r = "cli_Main plain_lib one_file_fs [''new'', ''app'']"
  show "?r = (fst ?r, fst (snd ?r), snd (snd ?r))" by simp
  show "fs_files one_file_fs ''app/main.go'' = Some [1]" by (simp add: one_file_fs_def)
qed

text \<open>
  A created project is complete. When \<^verbatim>\<open>quicframe new\<close> succeeds, the module file, the main program,
  the ignore file and the README of the starter project are in the destination with their starter
  content, for the module name derived from the directory.
\<close>

theorem new_creates_project:
  assumes "runNew L fs [arg] = (None, fs', out)"
  shows "fs_files fs' (path_Join [Clean arg, ''go.mod'']) =
      Some (to_bytes (starterGoMod (sanitizeModuleName L (Base (Clean arg))))) \<and>
    fs_files fs' (path_Join [Clean arg, ''main.go'']) = Some (to_bytes starterMainGo) \<and>
    fs_files fs' (path_Join [Clean arg, ''.gitignore'']) = Some (to_bytes starterGitIgnore) \<and>
    fs_files fs' (path_Join [Clean arg, ''README.md'']) =
      Some (to_bytes (starterREADME (sanitizeModuleName L (Base (Clean arg)))))"
proof -
  let ?d = "Clean arg" and ?n = "sanitizeModuleName L (Base (Clean arg))"
  from assms have "new_project fs ?d ?n = (None, fs')"
    by (auto simp: runNew_def Let_def split: if_splits prod.splits option.splits)
  then obtain fs1 fs2 fs3 fs4 fs5 where
      s: "writeNewFile fs1 (path_Join [?d, ''go.mod'']) (starterGoMod ?n) = (None, fs2)"
        "writeNewFile fs2 (path_Join [?d, ''main.go'']) starterMainGo = (None, fs3)"
        "os_MkdirAll fs3 (path_Join [?d, ''.local'', ''certs'']) = (None, fs4)"
        "writeNewFile fs4 (path_Join [?d, ''.gitignore'']) starterGitIgnore = (None, fs5)"
        "writeNewFile fs5 (path_Join [?d, ''README.md'']) (starterREADME ?n) = (None, fs')"
    by (auto simp: new_project_def and_then_None)
  have k: "keeps_files fs2 fs3" "keeps_files fs3 fs4" "keeps_files fs4 fs5" "keeps_files fs5 fs'"
    using writeNewFile_keeps s(2,4,5) os_MkdirAll_keeps s(3) by (metis snd_conv)+
  show ?thesis
    using writeNewFile_ok [OF s(1)] writeNewFile_ok [OF s(2)] writeNewFile_ok [OF s(4)] writeNewFile_ok [OF s(5)] k
    unfolding keeps_files_def by blast
qed

lemma sample_new_paths:
  "Clean ''my app'' = ''my app''" "sanitizeModuleName plain_lib (Base ''my app'') = ''myapp''"
  "path_Join [''my app'', ''go.mod''] = ''my app/go.mod''" "path_Join [''my app'', ''main.go''] = ''my app/main.go''"
  "path_Join [''my app'', ''.local'', ''certs''] = ''my app/.local/certs''"
  "path_Join [''my app'', ''.gitignore''] = ''my app/.gitignore''"
  "path_Join [''my app'', ''README.md''] = ''my app/README.md''"
  "parents ''my app'' = []" "parents ''my app/.local/certs'' = [''my app'', ''my app/.local'']"
  by code_simp+

theorem new_creates_project_witness:
  "fs_files (fst (snd (runNew plain_lib (one_file_fs\<lparr>fs_files := Map.empty\<rparr>) [''my app''])))
      (path_Join [Clean ''my app'', ''go.mod'']) =
      Some (to_bytes (starterGoMod (sanitizeModuleName plain_lib (Base (Clean ''my app''))))) \<and>
    fs_files (fst (snd (runNew plain_lib (one_file_fs\<lparr>fs_files := Map.empty\<rparr>) [''my app''])))
      (path_Join [Clean ''my app'', ''main.go'']) = Some (to_bytes starterMainGo) \<and>
    fs_files (fst (snd (runNew plain_lib (one_file_fs\<lparr>fs_files := Map.empty\<rparr>) [''my app''])))
      (path_Join [Clean ''my app'', ''.gitignore'']) = Some (to_bytes starterGitIgnore) \<and>
    fs_files (fst (snd (runNew plain_lib (one_file_fs\<lparr>fs_files := Map.empty\<rparr>) [''my app''])))
      (path_Join [Clean ''my app'', ''README.md'']) =
      Some (to_bytes (starterREADME (sanitizeModuleName plain_lib (Base (Clean ''my app'')))))"
proof (rule new_creates_project)
  let ?r = "runNew plain_lib (one_file_fs\<lparr>fs_files := Map.empty\<rparr>) [''my app'']"
  have "fst ?r = None"
    unfolding runNew_def new_project_def
    by (simp add: sample_new_paths and_then_def writeNewFile_def os_Stat_def os_WriteFile_def os_MkdirAll_def
        one_file_fs_def Let_def)
  then show "?r = (None, fst (snd ?r), snd (snd ?r))" by (simp add: prod_eq_iff)
qed

text \<open>
  Module names. The name derived from a directory consists of lower-case letters, digits and
  single dashes between them, whatever the directory is called.
\<close>

theorem module_name_grammar:
  "list_all name_char (sanitizeModuleName L n) \<and> single_dashes (sanitizeModuleName L n) \<and>
   (sanitizeModuleName L n = [] \<or>
    hd (sanitizeModuleName L n) \<noteq> CHR ''-'' \<and> last (sanitizeModuleName L n) \<noteq> CHR ''-'')"
  using sanitize_good [of L n] by (auto simp: good_name_def)

text \<open>Deriving a module name is idempotent: a derived name derives itself.\<close>

theorem module_name_idempotent:
  "sanitizeModuleName L (sanitizeModuleName L n) = sanitizeModuleName L n"
proof -
  let ?s = "sanitizeModuleName L n"
  have g: "list_all name_char ?s" "single_dashes ?s" "?s \<noteq> [] \<longrightarrow> hd ?s \<noteq> CHR ''-'' \<and> last ?s \<noteq> CHR ''-''"
    using sanitize_good by (auto simp: good_name_def)
  have "?s \<noteq> ''.''" "?s \<noteq> ''/''" using g(1) by (auto simp: name_char_def is_lower_def is_digit_def)
  moreover have "fst (foldl sanitize_step ([], False) ?s) = ?s"
    using fold_good [of "[]" ?s] g by simp
  moreover have "Trim1 (CHR ''-'') ?s = ?s" using g(3) by (intro Trim1_id) auto
  ultimately show ?thesis
    by (simp add: sanitizeModuleName_def [of L ?s] TrimSpace_good [OF g(1)] ToLower_good [OF g(1)])
qed

end
