(* ===== verification/Rate_Limit.thy ===== *)
theory Rate_Limit
  imports Complex_Main Middleware
begin

text \<open>
  middleware/ratelimit.go. The token bucket of golang.org/x/time/rate is the parameter \<open>limiter_lib\<close>:
  a new limiter, and Allow at a point in time, which also updates it. The map of entries that one
  call of RateLimit creates is addressed by a number in the shared state \<open>rl_tables\<close>. A
  \<^verbatim>\<open>float64\<close> rate is a rational number (the sources give finite values); durations and times are
  nanoseconds.
\<close>

section \<open>Configuration\<close>

record 'l limiter_lib =
  NewLimiter :: "rat \<Rightarrow> int \<Rightarrow> 'l"
  Allow :: "'l \<Rightarrow> int \<Rightarrow> bool \<times> 'l"

record 'v RateLimitConfig =
  rl_RequestsPerSecond :: rat
  rl_Burst :: int
  rl_KeyFunc :: "('v Context \<Rightarrow> string) option"
  rl_CleanupInterval :: int
  rl_IdleTimeout :: int

text \<open>The conversion \<^verbatim>\<open>int(x)\<close> truncates towards zero.\<close>

definition trunc_rat :: "rat \<Rightarrow> int" where
  "trunc_rat q = (if q < 0 then - \<lfloor>- q\<rfloor> else \<lfloor>q\<rfloor>)"

definition defaultKey :: "'v Context \<Rightarrow> string" where
  "defaultKey c =
     (case Ctx_RemoteAddr c of
        None \<Rightarrow> ''unknown''
      | Some addr \<Rightarrow> (case SplitHost addr of None \<Rightarrow> addr | Some host \<Rightarrow> host))"

definition RateLimit_setDefaults :: "'v RateLimitConfig \<Rightarrow> 'v RateLimitConfig" where
  "RateLimit_setDefaults cfg =
     cfg\<lparr>rl_Burst :=
           (if rl_Burst cfg = 0 then
              (let b = trunc_rat (rl_RequestsPerSecond cfg) in if b < 1 then 1 else b)
            else rl_Burst cfg),
         rl_KeyFunc := (case rl_KeyFunc cfg of None \<Rightarrow> Some defaultKey | Some f \<Rightarrow> Some f),
         rl_CleanupInterval :=
           (if rl_CleanupInterval cfg = 0 then 5 * Minute else rl_CleanupInterval cfg),
         rl_IdleTimeout := (if rl_IdleTimeout cfg = 0 then 10 * Minute else rl_IdleTimeout cfg)\<rparr>"

section \<open>The table of limiters\<close>

record 'l entry =
  e_limiter :: 'l
  e_lastSeen :: int

type_synonym 'l rl_table = "string \<rightharpoonup> 'l entry"

record 'l rl_world = world +
  rl_tables :: "nat \<Rightarrow> 'l rl_table"

definition getLimiter ::
    "'l limiter_lib \<Rightarrow> 'v RateLimitConfig \<Rightarrow> string \<Rightarrow> int \<Rightarrow> 'l rl_table \<Rightarrow> 'l \<times> 'l rl_table" where
  "getLimiter lib cfg key now entries =
     (let e = (case entries key of
                 None \<Rightarrow> \<lparr>e_limiter = NewLimiter lib (rl_RequestsPerSecond cfg) (rl_Burst cfg),
                         e_lastSeen = 0\<rparr>
               | Some e \<Rightarrow> e);
          e = e\<lparr>e_lastSeen := now\<rparr>
      in (e_limiter e, entries(key \<mapsto> e)))"

text \<open>
  \<^verbatim>\<open>getLimiter(key).Allow()\<close>: the limiter is shared with the entry, so what Allow does to it is
  seen through the table.
\<close>

definition rl_take ::
    "'l limiter_lib \<Rightarrow> 'v RateLimitConfig \<Rightarrow> string \<Rightarrow> int \<Rightarrow> 'l rl_table \<Rightarrow> bool \<times> 'l rl_table" where
  "rl_take lib cfg key now entries =
     (let (lim, entries') = getLimiter lib cfg key now entries;
          (ok, lim') = Allow lib lim now
      in (ok, entries'(key := map_option (\<lambda>e. e\<lparr>e_limiter := lim'\<rparr>) (entries' key))))"

text \<open>One tick of the cleanup goroutine.\<close>

definition rl_cleanup :: "'v RateLimitConfig \<Rightarrow> int \<Rightarrow> 'l rl_table \<Rightarrow> 'l rl_table" where
  "rl_cleanup cfg now entries =
     (\<lambda>k. case entries k of
            None \<Rightarrow> None
          | Some e \<Rightarrow> if now - e_lastSeen e > rl_IdleTimeout cfg then None else Some e)"

definition RateLimit ::
    "'v msgpack \<Rightarrow> 'l limiter_lib \<Rightarrow> nat \<Rightarrow> 'v RateLimitConfig \<Rightarrow>
       ('v, ('l, 'x) rl_world_scheme) MiddlewareFunc" where
  "RateLimit M lib tid cfg0 next c w =
     (let cfg = RateLimit_setDefaults cfg0;
          key = the (rl_KeyFunc cfg) c;
          (ok, entries) = rl_take lib cfg key (w_now w) (rl_tables w tid);
          w' = w\<lparr>rl_tables := (rl_tables w)(tid := entries)\<rparr>
      in if \<not> ok then
           error_handler M StatusTooManyRequests (\<lambda>_. ''rate limit exceeded'') c w'
         else next c w')"

definition RateLimitSimple ::
    "'v msgpack \<Rightarrow> 'l limiter_lib \<Rightarrow> nat \<Rightarrow> rat \<Rightarrow> ('v, ('l, 'x) rl_world_scheme) MiddlewareFunc" where
  "RateLimitSimple M lib tid rps =
     RateLimit M lib tid \<lparr>rl_RequestsPerSecond = rps, rl_Burst = 0, rl_KeyFunc = None,
                          rl_CleanupInterval = 0, rl_IdleTimeout = 0\<rparr>"

section \<open>Runs of a table\<close>

text \<open>What happens to one table over time: requests for keys, and ticks of the cleanup.\<close>

datatype rl_event = Req string int | Tick int

fun rl_run ::
    "'l limiter_lib \<Rightarrow> 'v RateLimitConfig \<Rightarrow> rl_event list \<Rightarrow> 'l rl_table \<Rightarrow>
       (string \<times> bool) list \<times> 'l rl_table" where
  "rl_run lib cfg [] t = ([], t)"
| "rl_run lib cfg (Req k now # es) t =
     (let (ok, t') = rl_take lib cfg k now t; (os, t'') = rl_run lib cfg es t'
      in ((k, ok) # os, t''))"
| "rl_run lib cfg (Tick now # es) t = rl_run lib cfg es (rl_cleanup cfg now t)"

text \<open>The specification: one limiter that only ever sees the requests of one key.\<close>

fun limiter_run :: "'l limiter_lib \<Rightarrow> int list \<Rightarrow> 'l \<Rightarrow> bool list" where
  "limiter_run lib [] l = []"
| "limiter_run lib (now # ts) l = (let (ok, l') = Allow lib l now in ok # limiter_run lib ts l')"

section \<open>Keyed state\<close>

fun keyed_run :: "('k \<Rightarrow> 'i \<Rightarrow> 't \<Rightarrow> 'o \<times> 't) \<Rightarrow> ('k \<times> 'i) list \<Rightarrow> 't \<Rightarrow> ('k \<times> 'o) list \<times> 't" where
  "keyed_run step [] t = ([], t)"
| "keyed_run step ((k, i) # es) t =
     (let (out, t') = step k i t; (os, t'') = keyed_run step es t' in ((k, out) # os, t''))"

fun single_run :: "('i \<Rightarrow> 's \<Rightarrow> 'o \<times> 's) \<Rightarrow> 'i list \<Rightarrow> 's \<Rightarrow> 'o list \<times> 's" where
  "single_run single [] s = ([], s)"
| "single_run single (i # is) s =
     (let (out, s') = single i s; (os, s'') = single_run single is s' in (out # os, s''))"

definition proj :: "'k \<Rightarrow> ('k \<times> 'b) list \<Rightarrow> 'b list" where
  "proj k xs = map snd (filter (\<lambda>x. fst x = k) xs)"

text \<open>
  A machine whose steps name a key and whose state can be viewed per key: a step acts on the
  view of its own key as the single machine does, and on no other view.
\<close>

locale keyed_machine =
  fixes step :: "'k \<Rightarrow> 'i \<Rightarrow> 't \<Rightarrow> 'o \<times> 't"
    and view :: "'t \<Rightarrow> 'k \<Rightarrow> 's"
    and single :: "'i \<Rightarrow> 's \<Rightarrow> 'o \<times> 's"
  assumes own: "step k i t = (out, t') \<Longrightarrow> single i (view t k) = (out, view t' k)"
    and other: "step k i t = (out, t') \<Longrightarrow> k' \<noteq> k \<Longrightarrow> view t' k' = view t k'"
begin

lemma run_projects:
  "keyed_run step es t = (os, t') \<Longrightarrow>
   single_run single (proj k es) (view t k) = (proj k os, view t' k)"
proof (induction es arbitrary: t os)
  case Nil
  then show ?case by (simp add: proj_def)
next
  case (Cons e es)
  obtain k1 i1 where e: "e = (k1, i1)" by (cases e)
  obtain out t1 where s: "step k1 i1 t = (out, t1)" by (cases "step k1 i1 t")
  obtain os' where r: "keyed_run step es t1 = (os', t')" and os: "os = (k1, out) # os'"
    using Cons.prems e s by (auto split: prod.splits)
  note IH = Cons.IH [OF r]
  show ?case
  proof (cases "k1 = k")
    case True
    with own [OF s] IH e os show ?thesis by (simp add: proj_def)
  next
    case False
    with other [OF s, of k] IH e os show ?thesis by (simp add: proj_def)
  qed
qed

end

text \<open>The limiter table is such a machine; the single machine is one optional entry.\<close>

definition entry_take ::
    "'l limiter_lib \<Rightarrow> 'v RateLimitConfig \<Rightarrow> int \<Rightarrow> 'l entry option \<Rightarrow> bool \<times> 'l entry option" where
  "entry_take lib cfg now e =
     (let lim = (case e of None \<Rightarrow> NewLimiter lib (rl_RequestsPerSecond cfg) (rl_Burst cfg)
                         | Some x \<Rightarrow> e_limiter x);
          (ok, lim') = Allow lib lim now
      in (ok, Some \<lparr>e_limiter = lim', e_lastSeen = now\<rparr>))"

interpretation limiters: keyed_machine "rl_take lib cfg" "\<lambda>t k. t k" "entry_take lib cfg" for lib cfg
proof unfold_locales
  fix k now t out t'
  assume "rl_take lib cfg k now t = (out, t')"
  then show "entry_take lib cfg now (t k) = (out, t' k)"
    by (auto simp: rl_take_def getLimiter_def entry_take_def Let_def split: option.splits prod.splits)
next
  fix k now t out t' k'
  assume "rl_take lib cfg k now t = (out, t')" "k' \<noteq> k"
  then show "t' k' = t k'"
    by (auto simp: rl_take_def getLimiter_def Let_def split: prod.splits)
qed

section \<open>Facts\<close>

lemma RateLimit_within:
  "middleware_within (api_reach M)
     (RateLimit M lib tid cfg :: ('v, ('l, 'x) rl_world_scheme) MiddlewareFunc)"
  unfolding middleware_within_def handler_within_def RateLimit_def Let_def
  by (auto split: prod.splits
      intro: error_handler_within [unfolded handler_within_def, rule_format])

lemma entry_run_limiter:
  "fst (single_run (entry_take lib cfg) ts (Some e)) = limiter_run lib ts (e_limiter e)"
proof (induction ts arbitrary: e)
  case Nil
  show ?case by simp
next
  case (Cons now ts)
  obtain ok l' where a: "Allow lib (e_limiter e) now = (ok, l')"
    by (cases "Allow lib (e_limiter e) now")
  with Cons [of "\<lparr>e_limiter = l', e_lastSeen = now\<rparr>"] show ?case
    by (auto simp: entry_take_def Let_def split: prod.splits)
qed

lemma entry_run_fresh:
  "fst (single_run (entry_take lib cfg) ts None) =
     limiter_run lib ts (NewLimiter lib (rl_RequestsPerSecond cfg) (rl_Burst cfg))"
  using entry_run_limiter [of lib cfg ts
      "\<lparr>e_limiter = NewLimiter lib (rl_RequestsPerSecond cfg) (rl_Burst cfg), e_lastSeen = 0\<rparr>"]
  by (cases ts) (auto simp: entry_take_def Let_def split: prod.splits)

text \<open>A run without ticks is a run of the keyed machine.\<close>

lemma rl_run_keyed:
  "rl_run lib cfg (map (\<lambda>(k, now). Req k now) es) t = keyed_run (rl_take lib cfg) es t"
proof (induction es arbitrary: t)
  case (Cons e es)
  then show ?case by (cases e) simp
qed simp

text \<open>A key that no tick finds idle for longer than the timeout; \<open>seen\<close> is when it was last seen.\<close>

fun never_idle :: "'v RateLimitConfig \<Rightarrow> string \<Rightarrow> rl_event list \<Rightarrow> int option \<Rightarrow> bool" where
  "never_idle cfg k [] seen = True"
| "never_idle cfg k (Req k' now # es) seen = never_idle cfg k es (if k' = k then Some now else seen)"
| "never_idle cfg k (Tick now # es) seen =
     ((case seen of None \<Rightarrow> True | Some t \<Rightarrow> now - t \<le> rl_IdleTimeout cfg) \<and> never_idle cfg k es seen)"

fun req_times :: "string \<Rightarrow> rl_event list \<Rightarrow> int list" where
  "req_times k [] = []"
| "req_times k (Req k' now # es) = (if k' = k then now # req_times k es else req_times k es)"
| "req_times k (Tick now # es) = req_times k es"

lemma rl_run_view:
  "never_idle cfg k es (map_option e_lastSeen (t k)) \<Longrightarrow>
   proj k (fst (rl_run lib cfg es t)) = fst (single_run (entry_take lib cfg) (req_times k es) (t k))"
proof (induction es arbitrary: t)
  case Nil
  show ?case by (simp add: proj_def)
next
  case (Cons e es)
  show ?case
  proof (cases e)
    case (Req k1 now)
    obtain ok t1 where s: "rl_take lib cfg k1 now t = (ok, t1)" by (cases "rl_take lib cfg k1 now t")
    obtain os t2 where r: "rl_run lib cfg es t1 = (os, t2)" by (cases "rl_run lib cfg es t1")
    show ?thesis
    proof (cases "k1 = k")
      case True
      from limiters.own [OF s] have own: "entry_take lib cfg now (t k) = (ok, t1 k)" using True by simp
      then have "map_option e_lastSeen (t1 k) = Some now"
        by (auto simp: entry_take_def Let_def split: prod.splits dest!: sym [of "Some _"])
      with Cons.IH [of t1] Cons.prems Req True s r own show ?thesis
        by (auto simp: proj_def split: prod.splits)
    next
      case False
      with limiters.other [OF s] have "t1 k = t k" by simp
      with Cons.IH [of t1] Cons.prems Req False s r show ?thesis by (auto simp: proj_def)
    qed
  next
    case (Tick now)
    with Cons.prems have "rl_cleanup cfg now t k = t k"
      by (auto simp: rl_cleanup_def split: option.splits)
    with Cons.IH [of "rl_cleanup cfg now t"] Cons.prems Tick show ?thesis by simp
  qed
qed

section \<open>Properties of the rate limiter\<close>

text \<open>
  One bucket per key. Over any sequence of requests and cleanup ticks that starts with an empty
  table, the decisions for a key that no tick finds idle beyond the timeout are those of a single
  fresh limiter that sees this key's requests and nothing else.
\<close>

theorem rate_limit_per_key:
  assumes "never_idle cfg k es None"
  shows "proj k (fst (rl_run lib cfg es Map.empty)) =
    limiter_run lib (req_times k es) (NewLimiter lib (rl_RequestsPerSecond cfg) (rl_Burst cfg))"
  using rl_run_view [of cfg k es Map.empty lib] assms by (simp add: entry_run_fresh)

text \<open>A limiter that lets through a fixed number of calls.\<close>

definition count_limiter :: "int limiter_lib" where
  "count_limiter = \<lparr>NewLimiter = (\<lambda>r b. b), Allow = (\<lambda>l now. (0 < l, l - 1))\<rparr>"

definition sample_rl :: "string RateLimitConfig" where
  "sample_rl = RateLimit_setDefaults \<lparr>rl_RequestsPerSecond = 1, rl_Burst = 1, rl_KeyFunc = None,
     rl_CleanupInterval = 0, rl_IdleTimeout = 0\<rparr>"

theorem rate_limit_per_key_witness:
  "proj ''a'' (fst (rl_run count_limiter sample_rl [Req ''a'' 1, Req ''b'' 2, Tick 3, Req ''a'' 4] Map.empty)) =
    limiter_run count_limiter (req_times ''a'' [Req ''a'' 1, Req ''b'' 2, Tick 3, Req ''a'' 4])
      (NewLimiter count_limiter (rl_RequestsPerSecond sample_rl) (rl_Burst sample_rl))"
  by (rule rate_limit_per_key) (simp add: sample_rl_def RateLimit_setDefaults_def Minute_def Second_def)

text \<open>
  Keys do not disturb each other. Whatever the table already holds and whatever other keys
  request in between, a key's sequence of decisions depends only on its own entry and its own
  requests.
\<close>

theorem rate_limit_isolation:
  assumes "t k = t' k" "proj k es = proj k es'"
  shows "proj k (fst (rl_run lib cfg (map (\<lambda>(k, now). Req k now) es) t)) =
    proj k (fst (rl_run lib cfg (map (\<lambda>(k, now). Req k now) es') t'))"
proof -
  have "proj k (fst (keyed_run (rl_take lib cfg) xs u)) =
      fst (single_run (entry_take lib cfg) (proj k xs) (u k))" for xs u
    using limiters.run_projects [of lib cfg xs u _ _ k]
    by (cases "keyed_run (rl_take lib cfg) xs u") simp
  with assms show ?thesis by (simp add: rl_run_keyed)
qed

theorem rate_limit_isolation_witness:
  "proj ''a'' (fst (rl_run count_limiter sample_rl (map (\<lambda>(k, now). Req k now) [(''a'', 1), (''b'', 2), (''a'', 3)]) Map.empty)) =
   proj ''a'' (fst (rl_run count_limiter sample_rl (map (\<lambda>(k, now). Req k now) [(''a'', 1), (''a'', 3)]) Map.empty))"
  by (rule rate_limit_isolation) (simp_all add: proj_def)

text \<open>
  Defaults of the rate limiter. Applied to a configuration without a negative burst, the defaults
  leave a burst of at least one, a key function, and nothing for a second application to change.
\<close>

theorem rate_limit_defaults:
  assumes "0 \<le> rl_Burst cfg"
  shows "1 \<le> rl_Burst (RateLimit_setDefaults cfg) \<and> rl_KeyFunc (RateLimit_setDefaults cfg) \<noteq> None \<and>
    0 \<noteq> rl_IdleTimeout (RateLimit_setDefaults cfg) \<and> 0 \<noteq> rl_CleanupInterval (RateLimit_setDefaults cfg) \<and>
    RateLimit_setDefaults (RateLimit_setDefaults cfg) = RateLimit_setDefaults cfg"
  using assms
  by (auto simp: RateLimit_setDefaults_def Minute_def Second_def Let_def split: option.splits)

theorem rate_limit_defaults_witness:
  "1 \<le> rl_Burst (RateLimit_setDefaults (sample_rl\<lparr>rl_Burst := 0\<rparr>)) \<and>
   rl_KeyFunc (RateLimit_setDefaults (sample_rl\<lparr>rl_Burst := 0\<rparr>)) \<noteq> None \<and>
   0 \<noteq> rl_IdleTimeout (RateLimit_setDefaults (sample_rl\<lparr>rl_Burst := 0\<rparr>)) \<and>
   0 \<noteq> rl_CleanupInterval (RateLimit_setDefaults (sample_rl\<lparr>rl_Burst := 0\<rparr>)) \<and>
   RateLimit_setDefaults (RateLimit_setDefaults (sample_rl\<lparr>rl_Burst := 0\<rparr>)) =
     RateLimit_setDefaults (sample_rl\<lparr>rl_Burst := 0\<rparr>)"
  by (rule rate_limit_defaults) simp

end
