(* ===== verification/Auth.thy ===== *)
theory Auth
  imports Middleware
begin

text \<open>
  middleware/auth.go. The library golang-jwt is the parameter \<open>parse\<close>, its function
  ParseWithClaims: from the token string, the claims to fill and the key function, a token (nil
  when the string does not parse) and an error. Signing keys are opaque; a signing method is
  known by its \<^verbatim>\<open>Alg()\<close>.
\<close>

section \<open>JWT\<close>

definition jwtLocalsKey :: string where "jwtLocalsKey = ''jwt_claims''"

record 'k JWTConfig =
  jc_SigningKey :: 'k
  jc_SigningMethod :: "string option"
  jc_TokenHeader :: string
  jc_ContextKey :: string
  jc_NewClaims :: "claims option"

definition JWT_setDefaults :: "'k JWTConfig \<Rightarrow> 'k JWTConfig" where
  "JWT_setDefaults cfg =
     cfg\<lparr>jc_SigningMethod :=
           (case jc_SigningMethod cfg of None \<Rightarrow> Some ''HS256'' | Some m \<Rightarrow> Some m),
         jc_TokenHeader := (if jc_TokenHeader cfg = [] then ''authorization'' else jc_TokenHeader cfg),
         jc_ContextKey := (if jc_ContextKey cfg = [] then jwtLocalsKey else jc_ContextKey cfg),
         jc_NewClaims :=
           (case jc_NewClaims cfg of None \<Rightarrow> Some (MapClaims Map.empty) | Some f \<Rightarrow> Some f)\<rparr>"

type_synonym 'k jwt_parser =
  "string \<Rightarrow> claims \<Rightarrow> (jwt_token \<Rightarrow> goerr + 'k) \<Rightarrow> jwt_token option \<times> goerr option"

text \<open>The key function the middleware passes to ParseWithClaims.\<close>

definition jwt_keyfunc :: "'k JWTConfig \<Rightarrow> jwt_token \<Rightarrow> goerr + 'k" where
  "jwt_keyfunc cfg t =
     (if Some (tok_Alg t) \<noteq> jc_SigningMethod cfg
      then Inl (Err (''unexpected signing method: '' @ tok_HeaderAlg t))
      else Inr (jc_SigningKey cfg))"

definition JWT ::
    "'v msgpack \<Rightarrow> 'k jwt_parser \<Rightarrow> 'k JWTConfig \<Rightarrow> ('v, 'w) MiddlewareFunc" where
  "JWT M parse cfg0 next c w =
     (let cfg = JWT_setDefaults cfg0;
          raw = Ctx_GetHeader c (jc_TokenHeader cfg)
      in if raw = [] then
           error_handler M StatusUnauthorized (\<lambda>_. ''missing authorization header'') c w
         else if \<not> HasPrefix raw ''Bearer '' then
           error_handler M StatusUnauthorized (\<lambda>_. ''authorization header must be Bearer token'') c w
         else
           (case parse (drop (length ''Bearer '') raw) (the (jc_NewClaims cfg)) (jwt_keyfunc cfg) of
              (_, Some err) \<Rightarrow>
                error_handler M StatusUnauthorized (\<lambda>_. ''invalid or expired token'') c w
            | (None, None) \<Rightarrow>
                (Panic ''runtime error: invalid memory address or nil pointer dereference'', c, w)
            | (Some token, None) \<Rightarrow>
                if \<not> tok_Valid token then
                  error_handler M StatusUnauthorized (\<lambda>_. ''invalid or expired token'') c w
                else next (Ctx_Set c (jc_ContextKey cfg) (LToken token)) w))"

definition JWTSimple :: "'v msgpack \<Rightarrow> 'k jwt_parser \<Rightarrow> 'k \<Rightarrow> ('v, 'w) MiddlewareFunc" where
  "JWTSimple M parse secret =
     JWT M parse \<lparr>jc_SigningKey = secret, jc_SigningMethod = Some ''HS256'', jc_TokenHeader = [],
                  jc_ContextKey = [], jc_NewClaims = None\<rparr>"

definition GetClaims :: "'v Context \<Rightarrow> (string \<rightharpoonup> string) option" where
  "GetClaims c =
     (case Ctx_Get c jwtLocalsKey of
        Some (LToken token) \<Rightarrow> (case tok_Claims token of MapClaims m \<Rightarrow> Some m | CustomClaims _ \<Rightarrow> None)
      | _ \<Rightarrow> None)"

section \<open>mTLS\<close>

definition MTLSAuth :: "'v msgpack \<Rightarrow> ('v, 'w) MiddlewareFunc" where
  "MTLSAuth M next c w =
     (case Ctx_PeerCertificates c of
        [] \<Rightarrow> error_handler M StatusUnauthorized (\<lambda>_. ''mTLS: missing peer certificates'') c w
      | cert # _ \<Rightarrow>
          (let nodeID = cert_CommonName cert
           in if nodeID = [] then
                error_handler M StatusUnauthorized (\<lambda>_. ''mTLS: identity missing in certificate'') c w
              else next (Ctx_Set c ''node_id'' (LString nodeID)) w))"

section \<open>Facts\<close>

lemma Ctx_Set_reach: "api_reach M c (Ctx_Set c k v)"
  by (rule api_reach_call [where op = "OpSet k v"]) simp

lemma JWT_within: 
  "middleware_within (api_reach M) (JWT M parse cfg :: ('v, 'w) MiddlewareFunc)"
  unfolding middleware_within_def
proof (intro allI impI)
  fix h :: "('v, 'w) HandlerFunc"
  assume h: "handler_within (api_reach M) h"
  have next_ok: "api_reach M c (fst (snd (h (Ctx_Set c k v) w)))" for c k v w
    using h api_reach_trans Ctx_Set_reach unfolding handler_within_def by blast
  show "handler_within (api_reach M) (JWT M parse cfg h)"
    unfolding handler_within_def JWT_def Let_def
    by (auto split: option.splits prod.splits simp: next_ok api_reach.start
        intro: error_handler_within [unfolded handler_within_def, rule_format])
qed

lemma MTLSAuth_within: 
  "middleware_within (api_reach M) (MTLSAuth M :: ('v, 'w) MiddlewareFunc)"
  unfolding middleware_within_def
proof (intro allI impI)
  fix h :: "('v, 'w) HandlerFunc"
  assume h: "handler_within (api_reach M) h"
  have next_ok: "api_reach M c (fst (snd (h (Ctx_Set c k v) w)))" for c k v w
    using h api_reach_trans Ctx_Set_reach unfolding handler_within_def by blast
  show "handler_within (api_reach M) (MTLSAuth M h)"
    unfolding handler_within_def MTLSAuth_def Let_def
    by (auto split: list.splits simp: next_ok
        intro: error_handler_within [unfolded handler_within_def, rule_format])
qed

section \<open>Properties of authentication\<close>

text \<open>
  What the documentation of golang-jwt promises of ParseWithClaims: without an error there is a
  token, the key function accepted it and returned a key, and the token string carries a signature
  that this key verifies (\<open>signs\<close>).
\<close>

definition parser_verifies :: "('k \<Rightarrow> string \<Rightarrow> jwt_token \<Rightarrow> bool) \<Rightarrow> 'k jwt_parser \<Rightarrow> bool" where
  "parser_verifies signs parse \<longleftrightarrow>
     (\<forall>str cl kf tok. parse str cl kf = (tok, None) \<longrightarrow>
        (\<exists>t k. tok = Some t \<and> kf t = Inr k \<and> signs k str t))"

text \<open>The texts with which the middleware refuses a request.\<close>

definition jwt_refusals :: "string list" where
  "jwt_refusals = [''missing authorization header'', ''authorization header must be Bearer token'',
     ''invalid or expired token'']"

lemma JWT_cases:
  assumes "parser_verifies signs parse"
  shows "(\<exists>str tok. Ctx_GetHeader c (jc_TokenHeader (JWT_setDefaults cfg)) = ''Bearer '' @ str \<and>
       signs (jc_SigningKey cfg) str tok \<and> tok_Valid tok \<and>
       tok_Alg tok = (case jc_SigningMethod cfg of None \<Rightarrow> ''HS256'' | Some m \<Rightarrow> m) \<and>
       JWT M parse cfg next c w = next (Ctx_Set c (jc_ContextKey (JWT_setDefaults cfg)) (LToken tok)) w) \<or>
    (\<exists>msg \<in> set jwt_refusals. JWT M parse cfg next c w = error_handler M 401 (\<lambda>_. msg) c w)"
proof -
  let ?cfg = "JWT_setDefaults cfg"
  let ?raw = "Ctx_GetHeader c (jc_TokenHeader ?cfg)"
  show ?thesis
  proof (cases "HasPrefix ?raw ''Bearer ''")
    case False
    then show ?thesis by (auto simp: JWT_def jwt_refusals_def StatusUnauthorized_def Let_def)
  next
    case True
    then obtain str where str: "?raw = ''Bearer '' @ str" by (auto simp: HasPrefix_iff prefix_def)
    obtain tok err where p: "parse str (the (jc_NewClaims ?cfg)) (jwt_keyfunc ?cfg) = (tok, err)"
      by (cases "parse str (the (jc_NewClaims ?cfg)) (jwt_keyfunc ?cfg)")
    show ?thesis
    proof (cases err)
      case (Some e)
      with p str have "JWT M parse cfg next c w = error_handler M 401 (\<lambda>_. ''invalid or expired token'') c w"
        by (cases tok) (simp_all add: JWT_def StatusUnauthorized_def HasPrefix_iff Let_def)
      then show ?thesis by (simp add: jwt_refusals_def)
    next
      case None
      with assms p obtain t k where t: "tok = Some t" "jwt_keyfunc ?cfg t = Inr k" "signs k str t"
        unfolding parser_verifies_def by blast
      then have "Some (tok_Alg t) = jc_SigningMethod ?cfg" "k = jc_SigningKey cfg"
        by (auto simp: jwt_keyfunc_def JWT_setDefaults_def split: if_splits)
      then have "tok_Alg t = (case jc_SigningMethod cfg of None \<Rightarrow> ''HS256'' | Some m \<Rightarrow> m)"
        by (auto simp: JWT_setDefaults_def split: option.splits)
      moreover have "JWT M parse cfg next c w =
          (if tok_Valid t then next (Ctx_Set c (jc_ContextKey ?cfg) (LToken t)) w
           else error_handler M 401 (\<lambda>_. ''invalid or expired token'') c w)"
        using p None str t(1) by (simp add: JWT_def StatusUnauthorized_def HasPrefix_iff Let_def)
      ultimately show ?thesis using t(3) str \<open>k = jc_SigningKey cfg\<close> by (cases "tok_Valid t") (auto simp: jwt_refusals_def)
    qed
  qed
qed

text \<open>
  The JWT gate. The next handler runs only for a request whose token header is a Bearer token
  that the parser found valid, signed with the configured key, and using the configured algorithm,
  and it runs with that token in the Context; in every other case the request is answered 401.
\<close>

theorem jwt_gate:
  assumes "parser_verifies signs parse"
  shows "(\<exists>str tok. Ctx_GetHeader c (jc_TokenHeader (JWT_setDefaults cfg)) = ''Bearer '' @ str \<and>
       signs (jc_SigningKey cfg) str tok \<and> tok_Valid tok \<and>
       tok_Alg tok = (case jc_SigningMethod cfg of None \<Rightarrow> ''HS256'' | Some m \<Rightarrow> m) \<and>
       JWT M parse cfg next c w = next (Ctx_Set c (jc_ContextKey (JWT_setDefaults cfg)) (LToken tok)) w) \<or>
    (\<exists>msg \<in> set jwt_refusals. JWT M parse cfg next c w = error_handler M 401 (\<lambda>_. msg) c w)"
  using assms by (rule JWT_cases)

definition sample_parser :: "string jwt_parser" where
  "sample_parser str cl kf =
     (let t = \<lparr>tok_Alg = ''HS256'', tok_HeaderAlg = ''HS256'', tok_Claims = cl, tok_Valid = True\<rparr>
      in case kf t of
           Inl e \<Rightarrow> (Some t, Some e)
         | Inr k \<Rightarrow> if str = k then (Some t, None) else (Some t, Some (Err ''signature is invalid'')))"

lemma sample_parser_verifies: "parser_verifies (\<lambda>k str t. str = k) sample_parser"
  by (auto simp: parser_verifies_def sample_parser_def Let_def split: sum.splits if_splits)

definition sample_jwt :: "string JWTConfig" where
  "sample_jwt = \<lparr>jc_SigningKey = ''k1'', jc_SigningMethod = None, jc_TokenHeader = [], jc_ContextKey = [],
     jc_NewClaims = None\<rparr>"

theorem jwt_gate_witness:
  "(\<exists>str tok. Ctx_GetHeader sample_ctx (jc_TokenHeader (JWT_setDefaults sample_jwt)) = ''Bearer '' @ str \<and>
       str = jc_SigningKey sample_jwt \<and> tok_Valid tok \<and>
       tok_Alg tok = (case jc_SigningMethod sample_jwt of None \<Rightarrow> ''HS256'' | Some m \<Rightarrow> m) \<and>
       JWT sample_msgpack sample_parser sample_jwt (\<lambda>c w. (Ret None, c, w)) sample_ctx sample_world =
         (\<lambda>c w. (Ret None, c, w)) (Ctx_Set sample_ctx (jc_ContextKey (JWT_setDefaults sample_jwt)) (LToken tok)) sample_world) \<or>
    (\<exists>msg \<in> set jwt_refusals. JWT sample_msgpack sample_parser sample_jwt (\<lambda>c w. (Ret None, c, w)) sample_ctx sample_world =
       error_handler sample_msgpack 401 (\<lambda>_. msg) sample_ctx sample_world)"
  using jwt_gate [OF sample_parser_verifies] .

text \<open>
  GetClaims finds the claims of a token that JWT stored only under the default key: with a
  ContextKey of its own in the configuration, it returns what the Context held before.
\<close>

theorem claims_only_under_default_key:
  "GetClaims (Ctx_Set c (jc_ContextKey (JWT_setDefaults cfg)) (LToken tok)) =
     (if jc_ContextKey cfg = [] \<or> jc_ContextKey cfg = jwtLocalsKey
      then (case tok_Claims tok of MapClaims m \<Rightarrow> Some m | CustomClaims _ \<Rightarrow> None)
      else GetClaims c)"
  by (simp add: GetClaims_def Ctx_Get_def Ctx_Set_def JWT_setDefaults_def)

text \<open>
  Mutual TLS. MTLSAuth lets a request through exactly when it came over native QUIC with a client
  certificate whose common name is not empty, and then records that name as node_id; every
  WebTransport request is answered 401.
\<close>

theorem mtls_gate:
  "MTLSAuth M next c w =
     (if peer_transport (ctx_conn c) = Native \<and> peer_tlsCerts (ctx_conn c) \<noteq> [] \<and>
         cert_CommonName (hd (peer_tlsCerts (ctx_conn c))) \<noteq> []
      then next (Ctx_Set c ''node_id'' (LString (cert_CommonName (hd (peer_tlsCerts (ctx_conn c)))))) w
      else error_handler M 401
        (\<lambda>_. if peer_transport (ctx_conn c) = Native \<and> peer_tlsCerts (ctx_conn c) \<noteq> []
             then ''mTLS: identity missing in certificate'' else ''mTLS: missing peer certificates'') c w)"
  by (cases "peer_transport (ctx_conn c)"; cases "peer_tlsCerts (ctx_conn c)")
    (auto simp: MTLSAuth_def Ctx_PeerCertificates_def PeerCertificates_def StatusUnauthorized_def
      error_handler_def)

end
