(* ===== verification/State_Contract.thy ===== *)
theory State_Contract
  imports Conn Rate_Limit Auth
begin

text \<open>
  What an application keeps of its own state. The state behind the handlers is the extension of
  \<open>world\<close>; a relation on it that the log and every handler respect is respected by middleware,
  by the dispatcher and by every run of the server (locale \<open>state_contract\<close>). The example servers
  instantiate the relation with what their handlers guarantee.
\<close>

section \<open>Handlers within a relation on states\<close>

definition state_within :: "('w \<Rightarrow> 'w \<Rightarrow> bool) \<Rightarrow> ('v, 'w) HandlerFunc \<Rightarrow> bool" where
  "state_within W h \<longleftrightarrow> (\<forall>c w. W w (snd (snd (h c w))))"

definition mw_state_within :: "('w \<Rightarrow> 'w \<Rightarrow> bool) \<Rightarrow> ('v, 'w) MiddlewareFunc \<Rightarrow> bool" where
  "mw_state_within W m \<longleftrightarrow> (\<forall>h. state_within W h \<longrightarrow> state_within W (m h))"

definition app_state_within :: "('w \<Rightarrow> 'w \<Rightarrow> bool) \<Rightarrow> ('v, 'w) App \<Rightarrow> bool" where
  "app_state_within W a \<longleftrightarrow>
     list_all (\<lambda>rt. state_within W (rt_handler rt)) (r_routes (app_router a)) \<and>
     state_within W (r_NotFound (app_router a)) \<and> state_within W (r_MethodNotAllowed (app_router a)) \<and>
     list_all (mw_state_within W) (app_middleware a) \<and> list_all (state_within W) (app_afterMiddleware a)"

lemma state_withinD: "state_within W h \<Longrightarrow> h c w = (r, c', w') \<Longrightarrow> W w w'"
  unfolding state_within_def by (metis snd_conv)

lemma state_withinI: "(\<And>c w. W w (snd (snd (h c w)))) \<Longrightarrow> state_within W h"
  by (simp add: state_within_def)

lemma mw_state_withinI: "(\<And>h c w. state_within W h \<Longrightarrow> W w (snd (snd (m h c w)))) \<Longrightarrow> mw_state_within W m"
  by (simp add: mw_state_within_def state_within_def)

lemma error_handler_world [simp]: "snd (snd (error_handler M code msg c w)) = w"
  by (simp add: error_handler_def split: prod.splits)

lemma state_within_chain:
  "list_all (mw_state_within W) mw \<Longrightarrow> state_within W h \<Longrightarrow> state_within W (applyMiddleware h mw)"
  by (induction mw) (auto simp: mw_state_within_def)

lemma match_state_within:
  assumes "app_state_within W a"
  shows "state_within W (fst (Router_match L (app_router a) m p))"
proof -
  have "state_within W (rt_handler rt)" if "route_lookup L (r_routes (app_router a)) (m, p) = Some rt" for rt
    using that assms by (auto simp: route_lookup_def app_state_within_def find_Some_iff list_all_length)
  with assms show ?thesis
    by (auto simp: Router_match_def matchRoutes_lookup app_state_within_def split: option.splits)
qed

lemma app_state_within_addRoute:
  assumes "app_state_within W a" "list_all (mw_state_within W) mw" "state_within W h"
  shows "app_state_within W (addRoute L a m p mw h)"
  using assms by (simp add: app_state_within_def addRoute_def Router_add_def state_within_chain)

lemma app_state_within_Use:
  "app_state_within W a \<Longrightarrow> list_all (mw_state_within W) mw \<Longrightarrow> app_state_within W (App_Use a mw)"
  by (simp add: app_state_within_def App_Use_def)

lemmas app_state_intros =
  app_state_within_addRoute app_state_within_Use

section \<open>The contract\<close>

locale state_contract =
  fixes W :: "'x world_scheme \<Rightarrow> 'x world_scheme \<Rightarrow> bool"
  assumes refl [simp]: "W w w"
    and trans: "W u v \<Longrightarrow> W v w \<Longrightarrow> W u w"
    and logged: "W w (log_to l lv m attrs w)"
begin

lemma error_handler_state [simp]: "state_within W (error_handler M code msg)"
  by (simp add: state_within_def)

lemma next_state: "state_within W h \<Longrightarrow> W w (snd (snd (h c w)))"
  by (simp add: state_within_def)

lemma next_then_log:
  "state_within W h \<Longrightarrow> h c w = (r, c', w') \<Longrightarrow> W w (log_to l lv m attrs w')"
  by (rule trans [OF _ logged]) (rule state_withinD)

lemma New_state: "app_state_within W (App_New M)"
  by (simp add: app_state_within_def App_New_def newRouter_def)

lemma Logger_state: "mw_state_within W (Logger ls)"
proof (rule mw_state_withinI)
  fix h :: "('a, 'x world_scheme) HandlerFunc" and c w
  assume h: "state_within W h"
  obtain r c' w' where hc: "h c w = (r, c', w')" by (cases "h c w")
  from state_withinD [OF h hc] next_then_log [OF h hc] hc
  show "W w (snd (snd (Logger ls h c w)))"
    by (cases r) (simp_all add: Logger_def Let_def split: prod.split)
qed

lemma Recovery_state: "mw_state_within W (Recovery M ls)"
proof (rule mw_state_withinI)
  fix h :: "('a, 'x world_scheme) HandlerFunc" and c w
  assume h: "state_within W h"
  obtain r c' w' where hc: "h c w = (r, c', w')" by (cases "h c w")
  from state_withinD [OF h hc] next_then_log [OF h hc] hc
  show "W w (snd (snd (Recovery M ls h c w)))"
    by (cases r) (simp_all add: Recovery_def Let_def split: prod.split)
qed

lemma RequireHeaders_state: "mw_state_within W (RequireHeaders M names)"
proof (rule mw_state_withinI)
  show "W w (snd (snd (RequireHeaders M names h c w)))" if "state_within W h" for h c w
    using that by (induction names) (simp_all add: next_state)
qed

lemma ValidateHeaders_state: "mw_state_within W (ValidateHeaders M rules)"
proof (rule mw_state_withinI)
  show "W w (snd (snd (ValidateHeaders M rules h c w)))" if "state_within W h" for h c w
    using that by (induction rules) (auto simp: next_state split: option.splits)
qed

lemma JWT_state: "mw_state_within W (JWT M parse cfg)"
  by (rule mw_state_withinI) (simp add: JWT_def Let_def next_state split: prod.split option.split)

lemma MTLSAuth_state: "mw_state_within W (MTLSAuth M)"
  by (rule mw_state_withinI) (simp add: MTLSAuth_def Let_def next_state split: list.split)

lemma runAfter_state:
  "list_all (state_within W) hs \<Longrightarrow> runAfter hs c w = (r, c', w') \<Longrightarrow> W w w'"
proof (induction hs arbitrary: c w)
  case Nil
  then show ?case by simp
next
  case (Cons h hs)
  obtain r1 c1 w1 where h: "h c w = (r1, c1, w1)" by (cases "h c w")
  with Cons.prems have "W w w1" by (auto dest: state_withinD)
  with Cons h show ?case by (cases r1) (auto intro: trans)
qed

lemma finish_request_state: "W w (snd (finish_request M a req err c w))"
  by (auto simp: finish_request_def logged Let_def split: option.splits)

lemma dispatchRequest_state:
  assumes "app_state_within W a"
  shows "W w (snd (snd (dispatchRequest L M a ctx peer s req w)))"
proof -
  obtain h c where rr: "route_request L a ctx peer s req = (h, c)"
    by (cases "route_request L a ctx peer s req")
  have "state_within W h"
    using match_state_within [OF assms] route_request_ctx(10) [OF rr] assms
    by (auto simp: app_state_within_def intro: state_within_chain)
  obtain r1 c1 w1 where h: "h c w = (r1, c1, w1)" by (cases "h c w")
  with \<open>state_within W h\<close> have w1: "W w w1" by (rule state_withinD)
  show ?thesis
  proof (cases r1)
    case (Ret err)
    obtain c2 w2 where f: "finish_request M a req err c1 w1 = (c2, w2)"
      by (cases "finish_request M a req err c1 w1")
    obtain r3 c3 w3 where ra: "runAfter (app_afterMiddleware a) c2 w2 = (r3, c3, w3)"
      by (cases "runAfter (app_afterMiddleware a) c2 w2")
    have "W w1 w2" using finish_request_state [of w1 M a req err c1] f by simp
    moreover have "W w2 w3" using runAfter_state [OF _ ra] assms by (simp add: app_state_within_def)
    ultimately show ?thesis using w1 rr h Ret f ra by (auto simp: dispatchRequest_def intro: trans)
  qed (use w1 rr h in \<open>simp add: dispatchRequest_def\<close>)
qed

lemma dispatchStream_state:
  assumes "app_state_within W a"
  shows "W w (snd (snd (dispatchStream L M a ctx peer s w)))"
  using dispatchRequest_state [OF assms]
  by (auto simp: dispatchStream_def logged split: prod.splits sum.splits)

lemma server_state_step:
  assumes "app_state_within W a" "sv_step L M a e sv = Some sv'"
  shows "W (sv_world sv) (sv_world sv')"
proof (cases e)
  case (Dispatch j)
  let ?t = "sv_streams sv ! j"
  let ?cn = "sv_conns sv ! st_conn ?t"
  from dispatchStream_state [OF assms(1), of "sv_world sv" L M "cn_ctx ?cn" "cn_peer ?cn" "st_stream ?t"]
  show ?thesis
    using Dispatch assms(2)
    by (auto simp: stream_dispatch_def Let_def split: if_splits prod.splits)
qed (use assms(2) in \<open>auto simp: HandleNativeConn_start_def conn_accept_def conn_spawn_def conn_end_def
      conn_lost_def stream_close_def set_phase_def wg_Done_def wt_upgrade_def Shutdown_def close_on_done_def Let_def
      split: if_splits conn_phase.splits elim: listen_stepE\<close>)

text \<open>Every run of the server.\<close>

lemma server_state:
  assumes "app_state_within W a" "sv_reach L M a sv sv'"
  shows "W (sv_world sv) (sv_world sv')"
  using assms(2)
proof (induction rule: sv_reach.induct)
  case (step sv' e sv'')
  with server_state_step [OF assms(1)] show ?case by (blast intro: trans)
qed simp

end

text \<open>The same for state that holds the tables of the rate limiter.\<close>

locale limited_contract = state_contract W
  for W :: "('l, 'x) rl_world_scheme \<Rightarrow> ('l, 'x) rl_world_scheme \<Rightarrow> bool" +
  assumes limited: "W w (w\<lparr>rl_tables := t\<rparr>)"
begin

lemma RateLimit_state: "mw_state_within W (RateLimit M lib tid cfg)"
proof (rule mw_state_withinI)
  show "W w (snd (snd (RateLimit M lib tid cfg h c w)))" if "state_within W h" for h c w
    using that by (auto simp: RateLimit_def Let_def limited split: prod.split
        intro: trans [OF limited next_state])
qed

lemma RateLimitSimple_state: "mw_state_within W (RateLimitSimple M lib tid rps)"
  unfolding RateLimitSimple_def by (rule RateLimit_state)

end

end
