(* ===== verification/Validation.thy ===== *)
theory Validation
  imports Dispatch
begin

text \<open>
  framework/validation.go and Context.BindAndValidate. The library go-playground/validator is the
  parameter \<open>validator\<close>: what \<^verbatim>\<open>Validator().Struct(v)\<close> returns, sorted by the error types the
  code tells apart with errors.As.
\<close>

datatype validator_result =
    VOk
  | VInvalid goerr \<comment> \<open>*validator.InvalidValidationError\<close>
  | VErrors "(string \<times> string \<times> string) list" \<comment> \<open>validator.ValidationErrors: Field(), Tag(), Param()\<close>
  | VOther goerr

text \<open>
  The shared validator: \<open>inst\<close> is \<^verbatim>\<open>validateInst\<close>, nil until \<^verbatim>\<open>validateOnce\<close> has run its function; \<open>fresh\<close> is what
  \<^verbatim>\<open>validator.New\<close> would return at this call.
\<close>

definition Validator :: "'i \<Rightarrow> 'i option \<Rightarrow> 'i \<times> 'i option" where
  "Validator fresh inst = (case inst of None \<Rightarrow> (fresh, Some fresh) | Some i \<Rightarrow> (i, inst))"

fun Validator_calls :: "'i list \<Rightarrow> 'i option \<Rightarrow> 'i list" where
  "Validator_calls [] inst = []"
| "Validator_calls (n # ns) inst = (case Validator n inst of (i, inst') \<Rightarrow> i # Validator_calls ns inst')"

text \<open>All callers get the instance of the first call, so registrations on it reach every later validation.\<close>

lemma Validator_calls_same: "Validator_calls ns (Some i) = replicate (length ns) i"
  by (induction ns) (simp_all add: Validator_def)

lemma Validator_shared: "Validator_calls (n # ns) None = replicate (Suc (length ns)) n"
  by (simp add: Validator_def Validator_calls_same)

definition Validate :: "('v \<Rightarrow> validator_result) \<Rightarrow> 'v option \<Rightarrow> goerr option" where
  "Validate validator v =
     (case v of
        None \<Rightarrow> None
      | Some x \<Rightarrow>
          (case validator x of
             VOk \<Rightarrow> None
           | VInvalid e \<Rightarrow> Some (Wrap ''quicframe: validate: '' e)
           | VErrors fes \<Rightarrow>
               Some (EValidation (map (\<lambda>(f, t, p). \<lparr>fe_Field = f, fe_Tag = t, fe_Value = p\<rparr>) fes))
           | VOther e \<Rightarrow> Some (Wrap ''quicframe: validate: '' e)))"

definition Ctx_BindAndValidate ::
    "'v msgpack \<Rightarrow> ('v \<Rightarrow> validator_result) \<Rightarrow> 'v Context \<Rightarrow> 'v \<Rightarrow> goerr + 'v" where
  "Ctx_BindAndValidate M validator c v =
     (case Ctx_Bind M c v of
        Inl err \<Rightarrow> Inl err
      | Inr v' \<Rightarrow> (case Validate validator (Some v') of None \<Rightarrow> Inr v' | Some err \<Rightarrow> Inl err))"

lemma BindAndValidate_Inr:
  "Ctx_BindAndValidate M V c v = Inr v' \<longleftrightarrow> Ctx_Bind M c v = Inr v' \<and> V v' = VOk"
  by (auto simp: Ctx_BindAndValidate_def Validate_def split: sum.splits option.splits validator_result.splits)

section \<open>Properties of binding\<close>

text \<open>
  Binding and validation. BindAndValidate returns a value exactly when the body decodes to it (an
  empty body leaves the target as it was) and the validator accepts it; when the validator reports
  field errors, the error is a ValidationError listing every field with its tag and parameter, in
  order.
\<close>

theorem bind_and_validate_spec:
  "Ctx_BindAndValidate M V c v =
     (case Ctx_Bind M c v of
        Inl e \<Rightarrow> Inl e
      | Inr v' \<Rightarrow>
          (case V v' of
             VOk \<Rightarrow> Inr v'
           | VErrors fes \<Rightarrow>
               Inl (EValidation (map (\<lambda>(f, t, p). \<lparr>fe_Field = f, fe_Tag = t, fe_Value = p\<rparr>) fes))
           | VInvalid e \<Rightarrow> Inl (Wrap ''quicframe: validate: '' e)
           | VOther e \<Rightarrow> Inl (Wrap ''quicframe: validate: '' e)))"
  by (auto simp: Ctx_BindAndValidate_def Validate_def split: sum.splits validator_result.splits)

end
