(* ===== verification/Handlers.thy ===== *)
theory Handlers
  imports State_Contract Validation
begin

text \<open>
  What the handlers of the example servers share: the values they marshal, fmt.Sscanf with the verb
  \<^verbatim>\<open>%d\<close>, and the shape of a streaming handler (NewStream, a deferred Close, and a loop of Writes).
\<close>

section \<open>Values\<close>

text \<open>
  The values the examples pass to msgpack: strings, integers, booleans, slices and maps. A map
  is the list of its entries, in the order in which the source writes them.
\<close>

datatype gvalue =
    GNil | GStr string | GInt int | GBool bool | GList "gvalue list" | GMap "(string \<times> gvalue) list"

definition gstrings :: "(string \<times> string) list \<Rightarrow> gvalue" where
  "gstrings m = GMap (map (\<lambda>(k, v). (k, GStr v)) m)"

text \<open>Reading a field of a struct target after Bind; the static type of the field is string.\<close>

definition field_str :: "gvalue \<Rightarrow> string \<Rightarrow> string" where
  "field_str v k =
     (case v of GMap m \<Rightarrow> (case map_of m k of Some (GStr s) \<Rightarrow> s | _ \<Rightarrow> []) | _ \<Rightarrow> [])"

section \<open>Sscanf\<close>

text \<open>
  \<^verbatim>\<open>fmt.Sscanf(s, "%d", &n)\<close> for a variable of type int that holds \<open>n\<close>: spaces are skipped (a newline
  among them is an error), then comes an optional sign and at least one digit. On an error, out of
  range of 64 bits included, the variable keeps its value; the sources ignore the result.
\<close>

definition scan_sign :: "string \<Rightarrow> int \<times> string" where
  "scan_sign t =
     (case t of
        [] \<Rightarrow> (1, [])
      | x # xs \<Rightarrow> if x = CHR ''-'' then (-1, xs) else if x = CHR ''+'' then (1, xs) else (1, t))"

definition Sscanf_d :: "string \<Rightarrow> int \<Rightarrow> int" where
  "Sscanf_d s n =
     (let t = trim_seqs space_seqs s;
          (sg, u) = scan_sign t;
          ds = takeWhile is_digit u;
          i = sg * int (read_nat ds)
      in if CHR 0x0A \<in> set (take (length s - length t) s) \<or> ds = [] then n
         else if - (2 ^ 63) \<le> i \<and> i < 2 ^ 63 then i else n)"

lemma digit_char_is_digit: "d < 10 \<Longrightarrow> is_digit (digit_char d)"
  by (simp add: is_digit_def digit_char_def)

lemma show_nat_digits: "list_all is_digit (show_nat n)"
proof (induction n rule: show_nat.induct)
  case (1 n)
  then show ?case by (cases "n < 10") (simp_all add: show_nat.simps [of n] digit_char_is_digit)
qed

lemma show_nat_ne [simp]: "show_nat n \<noteq> []"
  using hd_show_nat [of n] by auto

lemma trim_number:
  assumes "s \<noteq> []" "is_digit (hd s) \<or> hd s = CHR ''-''"
  shows "trim_seqs space_seqs s = s"
proof -
  have "list_all (\<lambda>q. \<not> is_digit (hd q) \<and> hd q \<noteq> CHR ''-'') space_seqs" by code_simp
  with assms have "hd s \<notin> hd ` set space_seqs" by (auto simp: list_all_iff)
  then show ?thesis by (intro trim_seqs_id find_space_None) simp
qed

lemma takeWhile_digits: "takeWhile is_digit (show_nat n) = show_nat n"
  using show_nat_digits [of n] by (simp add: takeWhile_eq_all_conv list_all_iff)

lemma Sscanf_nat: "int n < 2 ^ 63 \<Longrightarrow> Sscanf_d (show_nat n) k = int n"
proof -
  assume n: "int n < 2 ^ 63"
  obtain d rest where s: "show_nat n = digit_char d # rest" "d < 10" using hd_show_nat by blast
  then have t: "trim_seqs space_seqs (show_nat n) = show_nat n"
    by (intro trim_number) (simp_all add: digit_char_is_digit)
  have "digit_char d \<noteq> CHR ''+''"
    using s(2) by (auto simp: digit_char_def dest!: arg_cong [where f = "of_char :: char \<Rightarrow> nat"])
  then have "scan_sign (show_nat n) = (1, show_nat n)"
    using s digit_char_not_minus by (simp add: scan_sign_def)
  with n t show ?thesis by (simp add: Sscanf_d_def takeWhile_digits)
qed

lemma Sscanf_neg: "int n \<le> 2 ^ 63 \<Longrightarrow> Sscanf_d (CHR ''-'' # show_nat n) k = - int n"
  using trim_number [of "CHR ''-'' # show_nat n"]
  by (simp add: Sscanf_d_def scan_sign_def takeWhile_digits)

section \<open>Answers\<close>

text \<open>\<^verbatim>\<open>return c.MsgPack(...)\<close> and its like: the state of the program is left as it is.\<close>

definition answer :: "goerr option \<times> 'v Context \<Rightarrow> 'w \<Rightarrow> goerr option outcome \<times> 'v Context \<times> 'w" where
  "answer r w = (Ret (fst r), snd r, w)"

lemma answer_state [simp]: "snd (snd (answer r w)) = w"
  by (simp add: answer_def)

lemma answer_op: "r = api_exec M c op \<Longrightarrow> api_reach M c (fst (snd (answer r w)))"
  by (auto simp: answer_def intro: api_reach_call prod.collapse [symmetric])

lemma answer_reach [simp]:
  "api_reach M c (fst (snd (answer (Ctx_MsgPack M c st v) w)))"
  "api_reach M c (fst (snd (answer (Ctx_Error M c st m ds) w)))"
  "api_reach M c (fst (snd (answer (Ctx_NoContent M c) w)))"
  "api_reach M c (fst (snd (answer (Ctx_Send M c st b) w)))"
  by (rule answer_op [where op = "OpMsgPack st v"] answer_op [where op = "OpError st m ds"]
      answer_op [where op = OpNoContent] answer_op [where op = "OpSend st b"], simp)+

section \<open>The middleware stack of the examples\<close>

text \<open>Recovery, Logger and RateLimitSimple, around a request that the limiter admits.\<close>

definition simple_limit :: "rat \<Rightarrow> 'v RateLimitConfig" where
  "simple_limit rps =
     RateLimit_setDefaults \<lparr>rl_RequestsPerSecond = rps, rl_Burst = 0, rl_KeyFunc = None,
       rl_CleanupInterval = 0, rl_IdleTimeout = 0\<rparr>"

definition charge ::
    "'l limiter_lib \<Rightarrow> nat \<Rightarrow> rat \<Rightarrow> 'v Context \<Rightarrow> ('l, 'x) rl_world_scheme \<Rightarrow>
       bool \<times> ('l, 'x) rl_world_scheme" where
  "charge lib tid rps c w =
     (case rl_take lib (simple_limit rps :: 'v RateLimitConfig) (defaultKey c) (w_now w) (rl_tables w tid) of
        (ok, t) \<Rightarrow> (ok, w\<lparr>rl_tables := (rl_tables w)(tid := t)\<rparr>))"

lemma RateLimitSimple_charge:
  "RateLimitSimple M lib tid rps next c w =
     (case charge lib tid rps c w of
        (ok, w') \<Rightarrow> if ok then next c w'
          else error_handler M StatusTooManyRequests (\<lambda>_. ''rate limit exceeded'') c w')"
  by (simp add: RateLimitSimple_def RateLimit_def charge_def simple_limit_def RateLimit_setDefaults_def Let_def
      split: prod.split)

lemma stack_answer:
  assumes "charge lib tid rps c w = (True, w1)" "h c w1 = (Ret e, c2, w2)"
  shows "\<exists>l lv m attrs. applyMiddleware h [Recovery M ls, Logger ls', RateLimitSimple M lib tid rps] c w =
    (Ret e, c2, log_to l lv m attrs w2)"
  using assms by (auto simp: RateLimitSimple_charge Logger_def Recovery_def Let_def)

lemma stack_panic:
  assumes "charge lib tid rps c w = (True, w1)" "h c w1 = (Panic v, c2, w2)"
  shows "\<exists>l lv m attrs. applyMiddleware h [Recovery M ls, Logger ls', RateLimitSimple M lib tid rps] c w =
    (let r = Ctx_Error M c2 500 (''internal server error: '' @ v) []
     in (Ret (fst r), snd r, log_to l lv m attrs w2))"
  using assms
  by (auto simp: RateLimitSimple_charge Logger_def Recovery_def StatusInternalServerError_def Let_def
      split: prod.split)

lemma dispatchRequest_answered:
  assumes "route_request L a ctx peer s req = (h, c)" "h c w = (Ret None, c1, w1)" "app_afterMiddleware a = []"
  shows "dispatchRequest L M a ctx peer s req w = (Ret (), ctx_stream c1, w1)"
  using assms by (simp add: dispatchRequest_def finish_request_def)

lemma stack_dispatch:
  assumes "route_request L a ctx peer s req =
      (applyMiddleware h [Recovery M ls, Logger ls', RateLimitSimple M lib tid rps], c)"
    and "charge lib tid rps c w = (True, w1)" "h c w1 = (Ret None, c2, w2)" "app_afterMiddleware a = []"
  shows "\<exists>l lv m attrs.
    dispatchRequest L M a ctx peer s req w = (Ret (), ctx_stream c2, log_to l lv m attrs w2)"
  using stack_answer [where h = h, OF assms(2,3)] dispatchRequest_answered [OF assms(1) _ assms(4)] by blast

lemma stack_panic_dispatch:
  assumes "route_request L a ctx peer s req =
      (applyMiddleware h [Recovery M ls, Logger ls', RateLimitSimple M lib tid rps], c)"
    and "charge lib tid rps c w = (True, w1)" "h c w1 = (Panic v, c2, w2)" "app_afterMiddleware a = []"
    and "Ctx_Error M c2 500 (''internal server error: '' @ v) [] = (None, c3)"
  shows "\<exists>w'. dispatchRequest L M a ctx peer s req w = (Ret (), ctx_stream c3, w')"
  using stack_panic [where h = h, OF assms(2,3), of M ls ls'] dispatchRequest_answered [OF assms(1) _ assms(4)]
    assms(5) by auto

lemma answer_MsgPack:
  assumes "\<not> ctx_sent c" "healthy (ctx_stream c)" "Marshal M (PValue v) = Inr b"
    and "sendable M (MResp (send_resp c st (Some [''content-type'' \<mapsto> ''application/x-msgpack'']) b))"
  shows "answer (Ctx_MsgPack M c st v) w =
    (Ret None, c\<lparr>ctx_sent := True, ctx_stream := (ctx_stream c)\<lparr>tx := tx (ctx_stream c) @ wire_bytes M
       [MResp (send_resp c st (Some [''content-type'' \<mapsto> ''application/x-msgpack'']) b)]\<rparr>\<rparr>, w)"
  using writeResponse_sendable [OF assms(1,2,4)] assms(3) by (simp add: answer_def Ctx_MsgPack_def)

section \<open>Streaming handlers\<close>

text \<open>NewStream, the body, and the deferred Close, which runs after a panic too.\<close>

definition with_stream ::
    "'v msgpack \<Rightarrow> int \<Rightarrow> gomap \<Rightarrow> ('v, 'w) HandlerFunc \<Rightarrow> ('v, 'w) HandlerFunc" where
  "with_stream M status headers body c w =
     (case Ctx_NewStream M c status headers of
        (Some err, c1) \<Rightarrow> (Ret (Some err), c1, w)
      | (None, c1) \<Rightarrow>
          (case body c1 w of (r, c2, w') \<Rightarrow> (r, snd (ctx_sw_Close M c2), w')))"

text \<open>
  The bytes of a chunk. Where the source drops the error of msgpack.Marshal (\<open>strict\<close> is
  \<open>False\<close>), a value that does not marshal becomes an empty chunk.
\<close>

definition chunk_bytes :: "'v msgpack \<Rightarrow> bool \<Rightarrow> 'v \<Rightarrow> goerr + bytes" where
  "chunk_bytes M strict v =
     (case Marshal M (PValue v) of
        Inl err \<Rightarrow> if strict then Inl err else Inr []
      | Inr data \<Rightarrow> Inr data)"

definition Sleep :: "int \<Rightarrow> 'x world_scheme \<Rightarrow> 'x world_scheme" where
  "Sleep d w = w\<lparr>w_now := w_now w + d\<rparr>"

text \<open>
  The loop of a streaming handler: each value is marshalled and written, then the handler pauses
  (the clock is taken to advance by just the pause). A failed Write ends it without an error.
\<close>

fun chunk_loop ::
    "'v msgpack \<Rightarrow> bool \<Rightarrow> int \<Rightarrow> ('x world_scheme \<Rightarrow> 'v) list \<Rightarrow> ('v, 'x world_scheme) HandlerFunc" where
  "chunk_loop M strict pause [] c w = (Ret None, c, w)"
| "chunk_loop M strict pause (v # vs) c w =
     (case chunk_bytes M strict (v w) of
        Inl err \<Rightarrow> (Ret (Some err), c, w)
      | Inr data \<Rightarrow>
          (case ctx_sw_Write M c data of
             ((_, Some err), c') \<Rightarrow> (Ret None, c', w)
           | ((_, None), c') \<Rightarrow> chunk_loop M strict pause vs c' (Sleep pause w)))"

lemma ctx_sw_Write_reach: "ctx_sw_Write M c d = (r, c') \<Longrightarrow> api_reach M c c'"
  by (rule api_reach_call [where op = "OpWrite d" and r = "snd r"]) (simp split: prod.splits)

lemma chunk_loop_reach: "chunk_loop M strict pause vs c w = (r, c', w') \<Longrightarrow> api_reach M c c'"
proof (induction vs arbitrary: c w)
  case Nil
  then show ?case by (simp add: api_reach.start)
next
  case (Cons v vs)
  show ?case
  proof (cases "chunk_bytes M strict (v w)")
    case (Inl e)
    with Cons.prems show ?thesis by (simp add: api_reach.start)
  next
    case (Inr d)
    obtain n e c1 where wr: "ctx_sw_Write M c d = ((n, e), c1)" by (metis prod.exhaust_sel)
    note r1 = ctx_sw_Write_reach [OF wr]
    show ?thesis
    proof (cases e)
      case None
      with Cons.prems Inr wr have "chunk_loop M strict pause vs c1 (Sleep pause w) = (r, c', w')" by simp
      from Cons.IH [OF this] r1 show ?thesis by (rule api_reach_trans)
    next
      case (Some x)
      with Cons.prems Inr wr r1 show ?thesis by simp
    qed
  qed
qed

lemma chunk_loop_within: "handler_within (api_reach M) (chunk_loop M strict pause vs)"
  unfolding handler_within_def by (metis chunk_loop_reach prod.exhaust_sel)

lemma with_stream_within:
  assumes "handler_within (api_reach M) body"
  shows "handler_within (api_reach M) (with_stream M st h body)"
  unfolding handler_within_def
proof (intro allI)
  fix c w
  obtain e c1 where n: "Ctx_NewStream M c st h = (e, c1)" by (cases "Ctx_NewStream M c st h")
  then have r1: "api_reach M c c1" by (intro api_reach_call [where op = "OpNewStream st h"]) simp
  obtain r c2 w' where b: "body c1 w = (r, c2, w')" by (cases "body c1 w")
  then have r2: "api_reach M c1 c2" using assms by (rule handler_withinD [rotated])
  have r3: "api_reach M c2 (snd (ctx_sw_Close M c2))"
    by (rule api_reach_call [where op = OpClose and r = "fst (ctx_sw_Close M c2)"]) simp
  show "api_reach M c (fst (snd (with_stream M st h body c w)))"
    using n b r1 r2 r3 by (cases e) (auto simp: with_stream_def intro: api_reach_trans)
qed

lemma stream_loop_reach [simp]:
  "api_reach M c (fst (snd (with_stream M st h (chunk_loop M strict pause vs) c w)))"
  by (rule with_stream_within [OF chunk_loop_within, unfolded handler_within_def, rule_format])

section \<open>What a streaming handler puts on the wire\<close>

text \<open>The values of the loop when nothing fails: each is computed after the pauses before it.\<close>

fun loop_values :: "int \<Rightarrow> ('x world_scheme \<Rightarrow> 'v) list \<Rightarrow> 'x world_scheme \<Rightarrow> 'v list" where
  "loop_values pause [] w = []"
| "loop_values pause (v # vs) w = v w # loop_values pause vs (Sleep pause w)"

lemma chunk_loop_writes:
  assumes "healthy (ctx_stream c)" "ctx_writer c = Some sw" "\<not> sw_closed sw" "sw_seq sw = word_of_nat n"
    and "map (chunk_bytes M strict) (loop_values pause vs w) = map Inr ds"
    and "list_all (sendable M) (chunk_msgs (sw_requestID sw) n ds)"
  shows "\<exists>w'. chunk_loop M strict pause vs c w = (Ret None, api_run M c (map OpWrite ds), w')"
  using assms
proof (induction vs arbitrary: c sw n ds w)
  case Nil
  then show ?case by simp
next
  case (Cons v vs)
  then obtain d ds' where ds: "ds = d # ds'" "chunk_bytes M strict (v w) = Inr d"
      "map (chunk_bytes M strict) (loop_values pause vs (Sleep pause w)) = map Inr ds'"
    by (cases ds) auto
  let ?m = "data_msg (sw_requestID sw) n d"
  let ?sw = "sw\<lparr>sw_seq := sw_seq sw + 1\<rparr>"
  let ?c = "c\<lparr>ctx_writer := Some ?sw,
      ctx_stream := (ctx_stream c)\<lparr>tx := tx (ctx_stream c) @ wire_bytes M [?m]\<rparr>\<rparr>"
  have e: "api_exec M c (OpWrite d) = (None, ?c)"
    using exec_Write [OF Cons.prems(1-3)] Cons.prems(4,6) ds(1) by (simp add: data_msg_def)
  then obtain k where wr: "ctx_sw_Write M c d = ((k, None), ?c)"
    by (auto split: prod.splits)
  have "\<exists>w'. chunk_loop M strict pause vs ?c (Sleep pause w) = (Ret None, api_run M ?c (map OpWrite ds'), w')"
    using Cons.prems ds by (intro Cons.IH [of _ ?sw "Suc n"]) simp_all
  with ds wr e show ?case by (auto simp del: api_exec.simps)
qed

lemma stream_handler_run:
  assumes "\<not> ctx_sent c" "healthy (ctx_stream c)"
    and "map (chunk_bytes M strict) (loop_values pause vs w) = map Inr ds"
    and "list_all (sendable M)
      (MResp \<lparr>resp_ID = Ctx_RequestID c, resp_Status = st, resp_Headers = h, resp_Body = [], resp_Stream = True\<rparr>
       # chunk_msgs (Ctx_RequestID c) 0 ds @ [end_msg (Ctx_RequestID c) (length ds)])"
  shows "\<exists>w'. with_stream M st h (chunk_loop M strict pause vs) c w =
    (Ret None, api_run M c (OpNewStream st h # map OpWrite ds @ [OpClose]), w')"
proof -
  let ?i = "Ctx_RequestID c"
  let ?r = "MResp \<lparr>resp_ID = ?i, resp_Status = st, resp_Headers = h, resp_Body = [], resp_Stream = True\<rparr>"
  let ?sw = "\<lparr>sw_requestID = ?i, sw_seq = 0, sw_closed = False\<rparr>"
  let ?c1 = "c\<lparr>ctx_sent := True, ctx_stream := (ctx_stream c)\<lparr>tx := tx (ctx_stream c) @ wire_bytes M [?r]\<rparr>,
      ctx_writer := Some ?sw\<rparr>"
  have ns: "Ctx_NewStream M c st h = (None, ?c1)"
    using WriteFrame_msg [OF assms(2), of M ?r] assms(1,4)
    by (simp add: Ctx_NewStream_def ctx_write_def Ctx_RequestID_def)
  obtain w' where "chunk_loop M strict pause vs ?c1 w = (Ret None, api_run M ?c1 (map OpWrite ds), w')"
    using chunk_loop_writes [of ?c1 ?sw 0 M strict pause vs w ds] assms(2-4) by auto
  with ns show ?thesis by (simp add: with_stream_def)
qed

text \<open>The frames of a stream of the given values, from the announcing response to the end chunk.\<close>

definition stream_msgs :: "string \<Rightarrow> int \<Rightarrow> gomap \<Rightarrow> bytes list \<Rightarrow> msg list" where
  "stream_msgs i st h ds =
     MResp \<lparr>resp_ID = i, resp_Status = st, resp_Headers = h, resp_Body = [], resp_Stream = True\<rparr>
     # chunk_msgs i 0 ds @ [end_msg i (length ds)]"

lemma stream_handler_wire:
  assumes "\<not> ctx_sent c" "healthy (ctx_stream c)"
    and "map (chunk_bytes M strict) (loop_values pause vs w) = map Inr ds"
    and "list_all (sendable M) (stream_msgs (Ctx_RequestID c) st h ds)"
  obtains c' w' where "with_stream M st h (chunk_loop M strict pause vs) c w = (Ret None, c', w')"
    "tx (ctx_stream c') = tx (ctx_stream c) @ wire_bytes M (stream_msgs (Ctx_RequestID c) st h ds)"
  using stream_handler_run [OF assms(1-3)] run_stream [OF assms(1,2)] assms(4) that
  unfolding stream_msgs_def by metis

section \<open>A concrete instance\<close>

text \<open>A MessagePack library and a limiter for examples of the theorems: one byte, and no limit.\<close>

definition demo_msgpack :: "gvalue msgpack" where
  "demo_msgpack =
     \<lparr>Marshal = \<lambda>p. Inr [1], Unmarshal_Request = \<lambda>b. Inl io_EOF, Unmarshal_Response = \<lambda>b. Inl io_EOF,
      Unmarshal_StreamChunk = \<lambda>b. Inl io_EOF, Unmarshal_ErrorFrame = \<lambda>b. Inl io_EOF,
      Unmarshal_value = \<lambda>b v. Inr v\<rparr>"

definition demo_limiter :: "unit limiter_lib" where
  "demo_limiter = \<lparr>NewLimiter = \<lambda>r b. (), Allow = \<lambda>l t. (True, l)\<rparr>"

lemma demo_sendable [simp]: "sendable demo_msgpack m"
  by (cases m) (simp_all add: sendable_def demo_msgpack_def frameLen_def MaxFrameSize_def)

lemma demo_charge: "\<exists>t. charge demo_limiter tid rps c w = (True, w\<lparr>rl_tables := t\<rparr>)"
  by (simp add: charge_def rl_take_def getLimiter_def demo_limiter_def Let_def) (rule exI, rule refl)

end
