(* ===== verification/Basic_Server.thy ===== *)
theory Basic_Server
  imports Handlers
begin

text \<open>
  examples/basic-server/main.go: an in-memory list of users behind the middleware stack of the
  framework. The variables of main that the handlers share are fields of the state; the mutex makes
  each block between Lock and Unlock one step, and no handler has two. A user is a
  \<^verbatim>\<open>map[string]string\<close> that nothing changes after it is made; \<open>bs_nextID\<close> is not taken modulo 2 ^ 64.
\<close>

section \<open>State\<close>

type_synonym user = "(string \<times> string) list"

definition user_get :: "user \<Rightarrow> string \<Rightarrow> string" where
  "user_get u k = (case map_of u k of None \<Rightarrow> [] | Some v \<Rightarrow> v)"

record 'l basic_world = "'l rl_world" +
  bs_nextID :: int
  bs_users :: "user list"

definition initial_users :: "user list" where
  "initial_users = [[(''id'', ''1''), (''name'', ''Alice'')], [(''id'', ''2''), (''name'', ''Bob'')]]"

definition copyUsers :: "user list \<Rightarrow> user list" where
  "copyUsers us = map (\<lambda>u. [(''id'', user_get u ''id''), (''name'', user_get u ''name'')]) us"

section \<open>Handlers\<close>

definition bs_ping :: "gvalue msgpack \<Rightarrow> (gvalue, 'w) HandlerFunc" where
  "bs_ping M c w = answer (Ctx_MsgPack M c 200 (gstrings [(''pong'', ''ok'')])) w"

definition bs_list :: "gvalue msgpack \<Rightarrow> (gvalue, ('l, 'x) basic_world_scheme) HandlerFunc" where
  "bs_list M c w =
     answer (Ctx_MsgPack M c 200 (GMap [(''users'', GList (map gstrings (copyUsers (bs_users w))))])) w"

definition bs_get :: "gvalue msgpack \<Rightarrow> (gvalue, ('l, 'x) basic_world_scheme) HandlerFunc" where
  "bs_get M c w =
     (case find (\<lambda>u. user_get u ''id'' = Ctx_Param c ''id'') (bs_users w) of
        Some u \<Rightarrow> answer (Ctx_MsgPack M c 200 (gstrings u)) w
      | None \<Rightarrow> answer (Ctx_Error M c 404 ''user not found'' []) w)"

text \<open>The struct that POST binds has one field, name, with the tags required and min=2.\<close>

definition bs_create ::
    "gvalue msgpack \<Rightarrow> (gvalue \<Rightarrow> validator_result) \<Rightarrow> (gvalue, ('l, 'x) basic_world_scheme) HandlerFunc" where
  "bs_create M V c w =
     (case Ctx_BindAndValidate M V c (GMap [(''name'', GStr [])]) of
        Inl err \<Rightarrow> answer (Ctx_Error M c 400 (err_text err) []) w
      | Inr body \<Rightarrow>
          (let user = [(''id'', show_int (bs_nextID w)), (''name'', field_str body ''name'')];
               w' = w\<lparr>bs_nextID := bs_nextID w + 1, bs_users := bs_users w @ [user]\<rparr>
           in answer (Ctx_MsgPack M c 201 (gstrings user)) w'))"

definition tenant_rule :: HeaderRule where
  "tenant_rule value =
     (if length (TrimSpace value) < 3 then Some (Err ''invalid x-tenant-id header'') else None)"

definition bs_tenant :: "gvalue msgpack \<Rightarrow> (gvalue, ('l, 'x) basic_world_scheme) HandlerFunc" where
  "bs_tenant M c w =
     answer (Ctx_MsgPack M c 200
       (GMap [(''tenant'', GStr (Ctx_GetHeader c ''x-tenant-id'')),
              (''users'', GList (map gstrings (copyUsers (bs_users w))))])) w"

definition bs_delete :: "gvalue msgpack \<Rightarrow> (gvalue, 'w) HandlerFunc" where
  "bs_delete M c w = answer (Ctx_NoContent M c) w"

definition bs_files :: "gvalue msgpack \<Rightarrow> (gvalue, 'w) HandlerFunc" where
  "bs_files M c w = answer (Ctx_MsgPack M c 200 (gstrings [(''path'', Ctx_Param c ''path'')])) w"

section \<open>The application\<close>

definition tenant_mw :: "gvalue msgpack \<Rightarrow> (gvalue, 'w) MiddlewareFunc list" where
  "tenant_mw M = [RequireHeaders M [''x-tenant-id''], ValidateHeaders M [(''x-tenant-id'', tenant_rule)]]"

definition basic_mw ::
    "gvalue msgpack \<Rightarrow> 'l limiter_lib \<Rightarrow> nat \<Rightarrow> (gvalue, ('l, 'x) basic_world_scheme) MiddlewareFunc list" where
  "basic_mw M lib tid = [Recovery M [], Logger [], RateLimitSimple M lib tid 1000]"

definition basic_app ::
    "golib \<Rightarrow> gvalue msgpack \<Rightarrow> 'l limiter_lib \<Rightarrow> (gvalue \<Rightarrow> validator_result) \<Rightarrow> nat \<Rightarrow>
       (gvalue, ('l, 'x) basic_world_scheme) App" where
  "basic_app L M lib V tid =
     (let app = App_Use (App_New M) (basic_mw M lib tid);
          app = App_GET L app ''/ping'' (bs_ping M);
          app = App_GET L app ''/users'' (bs_list M);
          app = App_GET L app ''/users/:id'' (bs_get M);
          app = App_POST L app ''/users'' (bs_create M V);
          tenantAPI = App_Group ''/tenant'' (tenant_mw M);
          app = Group_GET L app tenantAPI ''/users'' (bs_tenant M);
          app = App_DELETE L app ''/users/:id'' (bs_delete M)
      in App_GET L app ''/files/*path'' (bs_files M))"

section \<open>The table of routes\<close>

lemma methods [simp]:
  "ToUpper L ''GET'' = ''GET''" "ToUpper L ''POST'' = ''POST''" "ToUpper L ''DELETE'' = ''DELETE''"
  by (simp_all add: ToUpper_def is_ascii_def upper_char_def)

lemma basic_patterns:
  "parsePattern ''/ping'' = [\<lparr>seg_kind = segStatic, seg_value = ''ping''\<rparr>]"
  "parsePattern ''/users'' = [\<lparr>seg_kind = segStatic, seg_value = ''users''\<rparr>]"
  "parsePattern ''/users/:id'' = [\<lparr>seg_kind = segStatic, seg_value = ''users''\<rparr>, \<lparr>seg_kind = segParam, seg_value = ''id''\<rparr>]"
  "parsePattern (''/tenant'' @ ''/users'') = [\<lparr>seg_kind = segStatic, seg_value = ''tenant''\<rparr>, \<lparr>seg_kind = segStatic, seg_value = ''users''\<rparr>]"
  "parsePattern ''/files/*path'' = [\<lparr>seg_kind = segStatic, seg_value = ''files''\<rparr>, \<lparr>seg_kind = segWildcard, seg_value = ''path''\<rparr>]"
  by code_simp+

lemmas app_defs = App_GET_def App_POST_def App_DELETE_def Group_GET_def Group_handle_def App_Group_def
  addRoute_def App_Use_def App_New_def Router_add_def newRouter_def

lemma basic_app_fields:
  "app_middleware (basic_app L M lib V tid) = basic_mw M lib tid"
  "app_afterMiddleware (basic_app L M lib V tid) = []"
  "r_routes (app_router (basic_app L M lib V tid)) =
     [\<lparr>rt_method = ''GET'', rt_segments = parsePattern ''/ping'', rt_handler = bs_ping M\<rparr>,
      \<lparr>rt_method = ''GET'', rt_segments = parsePattern ''/users'', rt_handler = bs_list M\<rparr>,
      \<lparr>rt_method = ''GET'', rt_segments = parsePattern ''/users/:id'', rt_handler = bs_get M\<rparr>,
      \<lparr>rt_method = ''POST'', rt_segments = parsePattern ''/users'', rt_handler = bs_create M V\<rparr>,
      \<lparr>rt_method = ''GET'', rt_segments = parsePattern (''/tenant'' @ ''/users''),
       rt_handler = applyMiddleware (bs_tenant M) (tenant_mw M)\<rparr>,
      \<lparr>rt_method = ''DELETE'', rt_segments = parsePattern ''/users/:id'', rt_handler = bs_delete M\<rparr>,
      \<lparr>rt_method = ''GET'', rt_segments = parsePattern ''/files/*path'', rt_handler = bs_files M\<rparr>]"
  by (simp_all add: basic_app_def app_defs)

section \<open>Contracts\<close>

lemma basic_app_within: "app_within (api_reach M) (basic_app L M lib V tid)"
proof -
  have h: "handler_within (api_reach M) (bs_ping M)" "handler_within (api_reach M) (bs_list M)"
    "handler_within (api_reach M) (bs_tenant M)" "handler_within (api_reach M) (bs_delete M)"
    "handler_within (api_reach M) (bs_files M)"
    by (simp_all add: handler_within_def bs_ping_def bs_list_def bs_tenant_def bs_delete_def bs_files_def)
  have g: "handler_within (api_reach M) (bs_get M)" "handler_within (api_reach M) (bs_create M V)"
    by (simp_all add: handler_within_def bs_get_def bs_create_def Let_def split: option.split sum.split)
  have mw: "list_all (middleware_within (api_reach M)) (basic_mw M lib tid)"
    by (simp add: basic_mw_def Recovery_within Logger_within RateLimitSimple_def RateLimit_within)
  have "list_all (middleware_within (api_reach M)) (tenant_mw M)"
    by (simp add: tenant_mw_def RequireHeaders_within ValidateHeaders_within)
  with h g mw show ?thesis
    unfolding basic_app_def Let_def App_GET_def App_POST_def App_DELETE_def Group_GET_def Group_handle_def
    by (intro api.addRoute_within api.Use_within App_New_within) (simp_all add: App_Group_def)
qed

text \<open>What the handlers do to the users: they are only ever appended, with the next ID.\<close>

definition users_ok :: "('l, 'x) basic_world_scheme \<Rightarrow> bool" where
  "users_ok w \<longleftrightarrow>
     map (\<lambda>u. user_get u ''id'') (bs_users w) = map (\<lambda>k. show_int (int k)) [1 ..< Suc (length (bs_users w))] \<and>
     bs_nextID w = int (length (bs_users w)) + 1"

definition users_grow :: "('l, 'x) basic_world_scheme \<Rightarrow> ('l, 'x) basic_world_scheme \<Rightarrow> bool" where
  "users_grow w w' \<longleftrightarrow> (users_ok w \<longrightarrow> users_ok w') \<and> prefix (bs_users w) (bs_users w')"

interpretation users: limited_contract users_grow
  by unfold_locales (auto simp: users_grow_def users_ok_def log_to_def dest: prefix_order.trans)

lemma user_get_id: "user_get ((''id'', i) # u) ''id'' = i"
  by (simp add: user_get_def)

lemma users_ok_snoc:
  "users_ok w \<Longrightarrow> users_ok (w\<lparr>bs_nextID := bs_nextID w + 1,
     bs_users := bs_users w @ [(''id'', show_int (bs_nextID w)) # u]\<rparr>)"
  by (simp add: users_ok_def user_get_id)

lemma bs_create_grow: "state_within users_grow (bs_create M V)"
  by (rule state_withinI)
    (auto simp: bs_create_def users_grow_def Let_def users_ok_snoc split: sum.split)

lemma basic_app_grow: "app_state_within users_grow (basic_app L M lib V tid)"
proof -
  have h: "state_within users_grow (bs_ping M)" "state_within users_grow (bs_list M)"
    "state_within users_grow (bs_get M)" "state_within users_grow (bs_tenant M)"
    "state_within users_grow (bs_delete M)" "state_within users_grow (bs_files M)"
    by (auto simp: state_within_def bs_ping_def bs_list_def bs_get_def bs_tenant_def bs_delete_def bs_files_def
        split: option.split)
  have mw: "list_all (mw_state_within users_grow) (basic_mw M lib tid)"
    "list_all (mw_state_within users_grow) (tenant_mw M)"
    by (simp_all add: basic_mw_def tenant_mw_def users.Recovery_state users.Logger_state
        users.RateLimitSimple_state users.RequireHeaders_state users.ValidateHeaders_state)
  with h bs_create_grow show ?thesis
    unfolding basic_app_def Let_def App_GET_def App_POST_def App_DELETE_def Group_GET_def Group_handle_def
    by (intro app_state_intros users.New_state) (simp_all add: App_Group_def)
qed

lemma users_ok_distinct: "users_ok w \<Longrightarrow> distinct (map (\<lambda>u. user_get u ''id'') (bs_users w))"
  by (simp add: users_ok_def distinct_map inj_on_def)

lemma users_ok_find:
  assumes "users_ok w" "u \<in> set (bs_users w)"
  shows "find (\<lambda>v. user_get v ''id'' = user_get u ''id'') (bs_users w) = Some u"
proof -
  have "v = u" if "v \<in> set (bs_users w)" "user_get v ''id'' = user_get u ''id''" for v
    using users_ok_distinct [OF assms(1)] assms(2) that by (meson distinct_map inj_onD)
  moreover have "find (\<lambda>v. user_get v ''id'' = user_get u ''id'') (bs_users w) \<noteq> None"
    using assms(2) by (auto simp: find_None_iff)
  ultimately show ?thesis using find_SomeD by fastforce
qed

section \<open>Requests\<close>

lemma splitPath_user:
  assumes "i \<noteq> []" "CHR ''/'' \<notin> set i"
  shows "splitPath (''/users/'' @ i) = [''users'', i]"
proof -
  from assms(2) have "rev (dropWhile (\<lambda>x. x = CHR ''/'') (rev i)) = i"
    by (cases i rule: rev_cases) (auto simp: dropWhile_eq_self_iff)
  then have "Trim1 (CHR ''/'') (''/users/'' @ i) = ''users/'' @ i"
    using assms by (cases i rule: rev_cases) (auto simp: Trim1_def)
  then show ?thesis
    using Split1_append_sep [of "CHR ''/''" "''users''" i] Split1_id [OF assms(2)] by (simp add: splitPath_def)
qed

lemma user_path_plain:
  assumes "list_all is_digit i" "i \<noteq> []"
  shows "plain_path (''/users/'' @ i)" "CHR ''/'' \<notin> set i"
proof -
  have d: "\<not> is_ctl x \<and> x \<notin> {CHR ''%'', CHR ''?'', CHR ''#'', CHR ''/''}" if "is_digit x" for x
    using that by (auto simp: is_digit_def is_ctl_def Let_def)
  then show "CHR ''/'' \<notin> set i" using assms(1) by (auto simp: list_all_iff)
  have "\<not> is_ctl x" if "x \<in> set ''/users/''" for x using that by (auto simp: is_ctl_def)
  with d assms show "plain_path (''/users/'' @ i)"
    by (auto simp: plain_path_def list_all_iff list_ex_iff HasPrefix_def)
qed

lemma show_int_digits: "0 \<le> k \<Longrightarrow> list_all is_digit (show_int k) \<and> show_int k \<noteq> []"
  by (simp add: show_int_def show_nat_digits)

lemma basic_user_match:
  assumes "i \<noteq> []" "CHR ''/'' \<notin> set i"
  shows "Router_match L (app_router (basic_app L M lib V tid)) ''GET'' (''/users/'' @ i) =
      (bs_get M, Some [''id'' \<mapsto> i])"
    "Router_match L (app_router (basic_app L M lib V tid)) ''DELETE'' (''/users/'' @ i) =
      (bs_delete M, Some [''id'' \<mapsto> i])"
  unfolding Router_match_def basic_app_fields splitPath_user [OF assms]
  by (simp_all add: basic_patterns [simplified] matchSegments_def)

text \<open>The handler and the Context of a request for one user.\<close>

lemma basic_user_route:
  assumes "route_request L (basic_app L M lib V tid) ctx peer s req = (h, c)"
    and "req_Path req = ''/users/'' @ show_int k" "0 \<le> k" "req_Method req \<in> {''GET'', ''DELETE''}"
  shows "h = applyMiddleware (if req_Method req = ''GET'' then bs_get M else bs_delete M) (basic_mw M lib tid) \<and>
    Ctx_Param c ''id'' = show_int k"
proof -
  note i = show_int_digits [OF assms(3)]
  note plain = user_path_plain [OF conjunct1 [OF i] conjunct2 [OF i]]
  have url: "request_url L req = \<lparr>url_Path = ''/users/'' @ show_int k, url_RawQuery = []\<rparr>"
    using url_Parse_plain(1) [OF plain(1)] assms(2) by (simp add: request_url_def)
  show ?thesis
    using route_request_ctx(8,10) [OF assms(1)] assms(4) unfolding url
    by (auto simp: basic_app_fields Ctx_Param_def basic_user_match [OF conjunct2 [OF i] plain(2), simplified])
qed

lemma basic_resp:
  assumes "ctx_Request c = req" "ctx_resHeaders c = None"
  shows "send_resp c st (Some m) b =
    \<lparr>resp_ID = req_ID req, resp_Status = st, resp_Headers = Some m, resp_Body = b, resp_Stream = False\<rparr>"
  using assms by (simp add: send_resp_def merge_headers_def gomap_copy_def)

lemma basic_post_match:
  "Router_match L (app_router (basic_app L M lib V tid)) ''POST'' ''/users'' = (bs_create M V, Some Map.empty)"
proof -
  have "splitPath ''/users'' = [''users'']" by code_simp
  then show ?thesis
    unfolding Router_match_def basic_app_fields by (simp add: basic_patterns [simplified] matchSegments_def)
qed

lemma basic_post_route:
  assumes "route_request L (basic_app L M lib V tid) ctx peer s req = (h, c)"
    and "req_Path req = ''/users''" "req_Method req = ''POST''"
  shows "h = applyMiddleware (bs_create M V) (basic_mw M lib tid)"
proof -
  have "plain_path ''/users''" by (simp add: plain_path_def HasPrefix_def is_ctl_def)
  from url_Parse_plain(1) [OF this] assms(2) have "request_url L req = \<lparr>url_Path = ''/users'', url_RawQuery = []\<rparr>"
    by (simp add: request_url_def)
  then show ?thesis
    using route_request_ctx(10) [OF assms(1)] assms(3) by (simp add: basic_app_fields basic_post_match)
qed

text \<open>What POST /users and GET /users/:id put on the wire and into the state.\<close>

lemma post_dispatch:
  assumes a: "a = basic_app L M lib V tid"
    and "req_Method req = ''POST''" "req_Path req = ''/users''" "healthy s"
    and "route_request L a ctx peer s req = (h, c)" "fst (charge lib tid 1000 c w)"
    and "Ctx_BindAndValidate M V c (GMap [(''name'', GStr [])]) = Inr body"
    and "u = [(''id'', show_int (bs_nextID w)), (''name'', field_str body ''name'')]"
    and "Marshal M (PValue (gstrings u)) = Inr b"
    and "sendable M (MResp (send_resp c 201 (Some [''content-type'' \<mapsto> ''application/x-msgpack'']) b))"
  shows "\<exists>w'. dispatchRequest L M a ctx peer s req w = (Ret (), s\<lparr>tx := tx s @ wire_bytes M
      [MResp \<lparr>resp_ID = req_ID req, resp_Status = 201, resp_Headers = Some [''content-type'' \<mapsto> ''application/x-msgpack''],
         resp_Body = b, resp_Stream = False\<rparr>]\<rparr>, w') \<and>
    bs_users w' = bs_users w @ [u] \<and> bs_nextID w' = bs_nextID w + 1"
proof -
  obtain w2 where ch: "charge lib tid 1000 c w = (True, w2)" "bs_users w2 = bs_users w" "bs_nextID w2 = bs_nextID w"
    using assms(6) by (auto simp: charge_def split: prod.splits)
  have ctx: "\<not> ctx_sent c" "ctx_stream c = s" "ctx_Request c = req" "ctx_resHeaders c = None"
    using route_request_ctx [OF assms(5)] by simp_all
  let ?w = "w2\<lparr>bs_nextID := bs_nextID w + 1, bs_users := bs_users w @ [u]\<rparr>"
  have rt: "h = applyMiddleware (bs_create M V) (basic_mw M lib tid)"
    by (rule basic_post_route [OF assms(5) [unfolded a] assms(3,2)])
  have "bs_create M V c w2 = answer (Ctx_MsgPack M c 201 (gstrings u)) ?w"
    using assms(7,8) ch(2,3) by (simp add: bs_create_def Let_def)
  also note answer_MsgPack [OF ctx(1) _ assms(9,10)]
  finally have "bs_create M V c w2 = (Ret None, c\<lparr>ctx_sent := True, ctx_stream := s\<lparr>tx := tx s @ wire_bytes M
      [MResp (send_resp c 201 (Some [''content-type'' \<mapsto> ''application/x-msgpack'']) b)]\<rparr>\<rparr>, ?w)"
    using assms(4) ctx(2) by simp
  from stack_dispatch [OF assms(5) [unfolded rt basic_mw_def] ch(1) this] a show ?thesis
    by (auto simp: basic_app_fields basic_resp [OF ctx(3,4)] log_to_def)
qed

lemma get_dispatch:
  assumes a: "a = basic_app L M lib V tid" and "users_ok w" "u \<in> set (bs_users w)" "user_get u ''id'' = show_int k" "0 \<le> k"
    and "req_Method req = ''GET''" "req_Path req = ''/users/'' @ show_int k" "healthy s"
    and "route_request L a ctx peer s req = (h, c)" "fst (charge lib tid 1000 c w)"
    and "Marshal M (PValue (gstrings u)) = Inr b"
    and "sendable M (MResp (send_resp c 200 (Some [''content-type'' \<mapsto> ''application/x-msgpack'']) b))"
  shows "tx (fst (snd (dispatchRequest L M a ctx peer s req w))) =
    tx s @ wire_bytes M [MResp \<lparr>resp_ID = req_ID req, resp_Status = 200,
      resp_Headers = Some [''content-type'' \<mapsto> ''application/x-msgpack''], resp_Body = b, resp_Stream = False\<rparr>]"
proof -
  obtain w2 where ch: "charge lib tid 1000 c w = (True, w2)" "bs_users w2 = bs_users w"
    using assms(10) by (auto simp: charge_def split: prod.splits)
  have ctx: "\<not> ctx_sent c" "ctx_stream c = s" "ctx_Request c = req" "ctx_resHeaders c = None"
    using route_request_ctx [OF assms(9)] by simp_all
  have rt: "h = applyMiddleware (bs_get M) (basic_mw M lib tid)" "Ctx_Param c ''id'' = user_get u ''id''"
    using basic_user_route [OF assms(9) [unfolded a] assms(7,5)] assms(4,6) by simp_all
  have "bs_get M c w2 = answer (Ctx_MsgPack M c 200 (gstrings u)) w2"
    using users_ok_find [OF assms(2,3)] ch(2) rt(2) by (simp add: bs_get_def)
  also note answer_MsgPack [OF ctx(1) _ assms(11,12)]
  finally have "bs_get M c w2 = (Ret None, c\<lparr>ctx_sent := True, ctx_stream := s\<lparr>tx := tx s @ wire_bytes M
      [MResp (send_resp c 200 (Some [''content-type'' \<mapsto> ''application/x-msgpack'']) b)]\<rparr>\<rparr>, w2)"
    using assms(8) ctx(2) by simp
  from stack_dispatch [OF assms(9) [unfolded rt(1) basic_mw_def] ch(1) this] a show ?thesis
    by (auto simp: basic_app_fields basic_resp [OF ctx(3,4)])
qed

section \<open>Properties of the basic server\<close>

text \<open>
  C17: The users of the basic server. In every run, however connections and requests interleave, the
  users carry the IDs 1, 2, 3, ... in order, so no two share one; a user is never lost or changed; and
  the process does not crash.
\<close>

theorem basic_users_invariant:
  assumes "sv_reach L M (basic_app L M lib V tid) (server_start w) sv" "users_ok w"
  shows "users_ok (sv_world sv) \<and> distinct (map (\<lambda>u. user_get u ''id'') (bs_users (sv_world sv))) \<and>
    prefix (bs_users w) (bs_users (sv_world sv)) \<and> sv_crash sv = None"
proof -
  have g: "users_grow w (sv_world sv)"
    using users.server_state [OF basic_app_grow assms(1)] by (simp add: server_start_def)
  have "sv_crash sv = None"
    by (rule recovered_no_crash [OF _ _ assms(1)]) (simp_all add: basic_app_fields basic_mw_def)
  with g assms(2) users_ok_distinct show ?thesis by (auto simp: users_grow_def)
qed

definition basic_start :: "unit basic_world" where
  "basic_start = \<lparr>w_now = 0, w_logs = [], rl_tables = \<lambda>_. Map.empty, bs_nextID = 3, bs_users = initial_users\<rparr>"

lemma basic_start_ok: "users_ok basic_start"
  by (simp add: users_ok_def basic_start_def initial_users_def user_get_def show_int_def show_nat.simps
      digit_char_def upt_rec char_of_def bit_iff_odd)

text \<open>
  C18: A created user can be fetched. A POST to /users with an acceptable body is answered with status 201 and
  the marshalled user, and after any further run of the server a GET for the ID it was given is
  answered with status 200 and the same user, provided the rate limiter admits both requests.
\<close>

theorem created_user_found:
  assumes a: "a = basic_app L M lib V tid" and "users_ok w"
    and "req_Method post = ''POST''" "req_Path post = ''/users''" "healthy s0"
    and "route_request L a ctx0 peer0 s0 post = (h0, c0)" "fst (charge lib tid 1000 c0 w)"
    and "Ctx_BindAndValidate M V c0 (GMap [(''name'', GStr [])]) = Inr body"
    and "u = [(''id'', show_int (bs_nextID w)), (''name'', field_str body ''name'')]"
    and "Marshal M (PValue (gstrings u)) = Inr b"
    and "sendable M (MResp (send_resp c0 201 (Some [''content-type'' \<mapsto> ''application/x-msgpack'']) b))"
    and "dispatchRequest L M a ctx0 peer0 s0 post w = (r0, s0', w0)"
    and "sv_reach L M a sv sv'" "sv_world sv = w0"
    and "req_Method req = ''GET''" "req_Path req = ''/users/'' @ show_int (bs_nextID w)" "healthy s"
    and "route_request L a ctx peer s req = (h, c)" "fst (charge lib tid 1000 c (sv_world sv'))"
    and "sendable M (MResp (send_resp c 200 (Some [''content-type'' \<mapsto> ''application/x-msgpack'']) b))"
  shows "tx s0' = tx s0 @ wire_bytes M [MResp \<lparr>resp_ID = req_ID post, resp_Status = 201,
      resp_Headers = Some [''content-type'' \<mapsto> ''application/x-msgpack''], resp_Body = b, resp_Stream = False\<rparr>] \<and>
    tx (fst (snd (dispatchRequest L M a ctx peer s req (sv_world sv')))) =
      tx s @ wire_bytes M [MResp \<lparr>resp_ID = req_ID req, resp_Status = 200,
        resp_Headers = Some [''content-type'' \<mapsto> ''application/x-msgpack''], resp_Body = b, resp_Stream = False\<rparr>]"
proof -
  from post_dispatch [OF a assms(3-11)] assms(12) have post:
    "tx s0' = tx s0 @ wire_bytes M [MResp \<lparr>resp_ID = req_ID post, resp_Status = 201,
      resp_Headers = Some [''content-type'' \<mapsto> ''application/x-msgpack''], resp_Body = b, resp_Stream = False\<rparr>]"
    "bs_users w0 = bs_users w @ [u]" "bs_nextID w0 = bs_nextID w + 1"
    by auto
  have "users_ok w0" using users_ok_snoc [OF assms(2)] post(2,3) assms(9) by (simp add: users_ok_def user_get_id)
  moreover have "users_grow w0 (sv_world sv')"
    using users.server_state [OF basic_app_grow assms(13) [unfolded a]] assms(14) by simp
  ultimately have ok: "users_ok (sv_world sv')" "u \<in> set (bs_users (sv_world sv'))"
    using post(2) by (auto simp: users_grow_def prefix_def)
  have "0 \<le> bs_nextID w" using assms(2) by (simp add: users_ok_def)
  moreover have "user_get u ''id'' = show_int (bs_nextID w)" by (simp add: assms(9) user_get_id)
  ultimately show ?thesis using get_dispatch [OF a ok _ _ assms(15-19,10,20)] post(1) by simp
qed

definition get_req :: "string \<Rightarrow> int \<Rightarrow> Request" where
  "get_req m k = \<lparr>req_ID = ''r1'', req_Method = m, req_Path = ''/users/'' @ show_int k, req_Headers = None,
     req_Body = [], req_Stream = False\<rparr>"

definition demo_app :: "(gvalue, unit basic_world) App" where
  "demo_app = basic_app sample_lib demo_msgpack demo_limiter (\<lambda>v. VOk) 0"

definition post_req :: Request where
  "post_req = (get_req ''POST'' 0)\<lparr>req_Path := ''/users''\<rparr>"

abbreviation demo_post :: "unit outcome \<times> gostream \<times> unit basic_world" where
  "demo_post \<equiv> dispatchRequest sample_lib demo_msgpack demo_app None sample_peer fresh_stream post_req basic_start"

theorem created_user_found_witness:
  "tx (fst (snd demo_post)) = tx fresh_stream @ wire_bytes demo_msgpack [MResp \<lparr>resp_ID = req_ID post_req, resp_Status = 201,
      resp_Headers = Some [''content-type'' \<mapsto> ''application/x-msgpack''], resp_Body = [1], resp_Stream = False\<rparr>] \<and>
   tx (fst (snd (dispatchRequest sample_lib demo_msgpack demo_app None sample_peer fresh_stream (get_req ''GET'' 3)
      (sv_world (server_start (snd (snd demo_post))))))) =
    tx fresh_stream @ wire_bytes demo_msgpack [MResp \<lparr>resp_ID = req_ID (get_req ''GET'' 3), resp_Status = 200,
      resp_Headers = Some [''content-type'' \<mapsto> ''application/x-msgpack''], resp_Body = [1], resp_Stream = False\<rparr>]"
proof (rule created_user_found [OF demo_app_def basic_start_ok, where sv = "server_start (snd (snd demo_post))"])
  let ?rr = "route_request sample_lib demo_app None sample_peer fresh_stream post_req"
  let ?rg = "route_request sample_lib demo_app None sample_peer fresh_stream (get_req ''GET'' 3)"
  show "?rr = (fst ?rr, snd ?rr)" "?rg = (fst ?rg, snd ?rg)" "demo_post = (fst demo_post, fst (snd demo_post), snd (snd demo_post))"
    by simp_all
  show "fst (charge demo_limiter 0 1000 (snd ?rr) basic_start)"
    "fst (charge demo_limiter 0 1000 (snd ?rg) (sv_world (server_start (snd (snd demo_post)))))"
    using demo_charge [of 0 1000 "snd ?rr" basic_start]
      demo_charge [of 0 1000 "snd ?rg" "sv_world (server_start (snd (snd demo_post)))"] by auto
  have "ctx_Request (snd ?rr) = post_req" using route_request_ctx(1) [OF prod.collapse [symmetric]] .
  then show "Ctx_BindAndValidate demo_msgpack (\<lambda>v. VOk) (snd ?rr) (GMap [(''name'', GStr [])]) =
      Inr (GMap [(''name'', GStr [])])"
    by (simp add: BindAndValidate_Inr Ctx_Bind_def post_req_def get_req_def)
  show "sv_reach sample_lib demo_msgpack demo_app (server_start (snd (snd demo_post))) (server_start (snd (snd demo_post)))"
    by (rule sv_reach.start)
qed (simp_all add: post_req_def get_req_def healthy_def fresh_stream_def demo_msgpack_def basic_start_def server_start_def
    demo_sendable [unfolded demo_msgpack_def])

text \<open>A run of the server in which a POST creates a third user.\<close>

definition post_msgpack :: "gvalue msgpack" where
  "post_msgpack = demo_msgpack\<lparr>Unmarshal_Request := \<lambda>b. Inr post_req\<rparr>"

definition post_app :: "(gvalue, unit basic_world) App" where
  "post_app = basic_app sample_lib post_msgpack demo_limiter (\<lambda>v. VOk) 0"

definition post_events :: "sv_event list" where
  "post_events = [AcceptConn sample_peer None, ConnStart 0, AcceptStream 0 (framed FrameTypeRequest []), SpawnStream 0,
     Dispatch 0, CloseStream 0, ConnLost 0, ConnEnd 0]"

definition post_run :: "unit basic_world server" where
  "post_run = the (sv_run sample_lib post_msgpack post_app post_events (server_start basic_start))"

lemma post_sendable: "sendable post_msgpack m"
  by (cases m) (simp_all add: sendable_def post_msgpack_def demo_msgpack_def frameLen_def MaxFrameSize_def)

lemma post_run_eval:
  "sv_run sample_lib post_msgpack post_app post_events (server_start basic_start) = Some post_run"
  "bs_users (sv_world post_run) = initial_users @ [[(''id'', show_int 3), (''name'', [])]]"
proof -
  let ?s = "framed FrameTypeRequest []"
  let ?s1 = "?s\<lparr>rx := []\<rparr>"
  let ?rr = "route_request sample_lib post_app None sample_peer ?s1 post_req"
  have read: "ReadFrame ?s = (Inr (FrameTypeRequest, str_bytes []), ?s1)" by (rule ReadFrame_framed) simp
  have dec: "DecodeRequest post_msgpack d = Inr post_req" for d by (simp add: DecodeRequest_def wrap_err_def post_msgpack_def)
  have "ctx_Request (snd ?rr) = post_req" using route_request_ctx(1) [OF prod.collapse [symmetric]] .
  then have bind: "Ctx_BindAndValidate post_msgpack (\<lambda>v. VOk) (snd ?rr) (GMap [(''name'', GStr [])]) =
      Inr (GMap [(''name'', GStr [])])"
    by (simp add: BindAndValidate_Inr Ctx_Bind_def post_req_def get_req_def)
  have m: "Marshal post_msgpack p = Inr [1]" for p by (simp add: post_msgpack_def demo_msgpack_def)
  have ch: "fst (charge demo_limiter 0 1000 (snd ?rr) basic_start)"
    using demo_charge [of 0 1000 "snd ?rr" basic_start] by auto
  have h: "healthy ?s1" using healthy_framed [of FrameTypeRequest "[]"] by (simp add: healthy_def)
  have rq: "req_Method post_req = ''POST''" "req_Path post_req = ''/users''" by (simp_all add: post_req_def get_req_def)
  from post_dispatch [OF post_app_def rq h prod.collapse [symmetric] ch bind refl m post_sendable]
  obtain s' w' where d: "dispatchStream sample_lib post_msgpack post_app None sample_peer ?s basic_start = (Ret (), s', w')"
    "bs_users w' = initial_users @ [[(''id'', show_int 3), (''name'', [])]]"
    unfolding dispatchStream_request [OF read dec] by (auto simp: basic_start_def field_str_def)
  then show "sv_run sample_lib post_msgpack post_app post_events (server_start basic_start) = Some post_run"
    "bs_users (sv_world post_run) = initial_users @ [[(''id'', show_int 3), (''name'', [])]]"
    by (simp_all add: post_run_def post_events_def sv_simps stream_dispatch_def stream_close_def Let_def)
qed

theorem basic_users_invariant_witness:
  "users_ok (sv_world post_run) \<and> distinct (map (\<lambda>u. user_get u ''id'') (bs_users (sv_world post_run))) \<and>
   prefix (bs_users basic_start) (bs_users (sv_world post_run)) \<and> sv_crash post_run = None \<and>
   bs_users (sv_world post_run) \<noteq> bs_users basic_start"
  using basic_users_invariant [OF sv_run_reach [OF post_run_eval(1), unfolded post_app_def] basic_start_ok] post_run_eval(2)
  by (simp add: basic_start_def)

text \<open>
  DELETE deletes nothing. A DELETE for a user is answered 204 whatever the ID, and the users are
  what they were: the user can still be fetched.
\<close>

theorem delete_keeps_users:
  assumes a: "a = basic_app L M lib V tid"
    and "req_Method req = ''DELETE''" "req_Path req = ''/users/'' @ show_int k" "0 \<le> k" "healthy s"
    and "route_request L a ctx peer s req = (h, c)" "fst (charge lib tid 1000 c w)"
    and "sendable M (MResp (send_resp c 204 None []))"
  shows "tx (fst (snd (dispatchRequest L M a ctx peer s req w))) =
      tx s @ wire_bytes M [MResp (send_resp c 204 None [])] \<and>
    bs_users (snd (snd (dispatchRequest L M a ctx peer s req w))) = bs_users w"
proof -
  obtain w2 where ch: "charge lib tid 1000 c w = (True, w2)" "bs_users w2 = bs_users w"
    using assms(7) by (auto simp: charge_def split: prod.splits)
  have ctx: "\<not> ctx_sent c" "ctx_stream c = s"
    using route_request_ctx [OF assms(6)] by simp_all
  have rt: "h = applyMiddleware (bs_delete M) (basic_mw M lib tid)"
    using basic_user_route [OF assms(6) [unfolded a] assms(3,4)] assms(2) by simp
  have "bs_delete M c w2 = (Ret None, c\<lparr>ctx_sent := True, ctx_stream := s\<lparr>tx := tx s @ wire_bytes M
      [MResp (send_resp c 204 None [])]\<rparr>\<rparr>, w2)"
    using writeResponse_sendable [OF ctx(1) _ assms(8)] assms(5) ctx(2)
    by (simp add: bs_delete_def answer_def Ctx_NoContent_def StatusNoContent_def)
  from stack_dispatch [OF assms(6) [unfolded rt basic_mw_def] ch(1) this] a
  obtain l lv m attrs where "dispatchRequest L M a ctx peer s req w =
      (Ret (), s\<lparr>tx := tx s @ wire_bytes M [MResp (send_resp c 204 None [])]\<rparr>, log_to l lv m attrs w2)"
    by (auto simp: basic_app_fields)
  then show ?thesis using ch(2) by (simp add: log_to_def)
qed

theorem delete_keeps_users_witness:
  "tx (fst (snd (dispatchRequest sample_lib demo_msgpack demo_app None sample_peer fresh_stream
      (get_req ''DELETE'' 1) basic_start))) =
    tx fresh_stream @ wire_bytes demo_msgpack [MResp (send_resp (snd (route_request sample_lib demo_app None
      sample_peer fresh_stream (get_req ''DELETE'' 1))) 204 None [])] \<and>
   bs_users (snd (snd (dispatchRequest sample_lib demo_msgpack demo_app None sample_peer fresh_stream
      (get_req ''DELETE'' 1) basic_start))) = bs_users basic_start"
proof (rule delete_keeps_users [OF demo_app_def])
  let ?rr = "route_request sample_lib demo_app None sample_peer fresh_stream (get_req ''DELETE'' 1)"
  show "?rr = (fst ?rr, snd ?rr)" by simp
  show "fst (charge demo_limiter 0 1000 (snd ?rr) basic_start)"
    using demo_charge [of 0 1000 "snd ?rr" basic_start] by auto
  show "req_Path (get_req ''DELETE'' 1) = ''/users/'' @ show_int 1" by (simp add: get_req_def)
qed (simp_all add: get_req_def healthy_def fresh_stream_def)

end
