(* ===== verification/Chat.thy ===== *)
theory Chat
  imports Middleware
begin

text \<open>
  The chat hub of examples/streaming-demo/main.go: rooms with a bounded history and one buffered
  channel per subscriber. The mutex makes subscribe, unsubscribe and the first half of publish atomic;
  the sends of publish happen after it is released, so a publish is one locked step and then one send
  per subscriber, interleaved with everything else. Channels live in a heap (a list, addressed by
  position); closing a closed channel and sending on one are Go's panics.
\<close>

section \<open>Data\<close>

definition chatHistoryLimit :: nat where "chatHistoryLimit = 120"

record chatEvent =
  ce_ID :: string
  ce_Kind :: string
  ce_Room :: string
  ce_Sender :: string
  ce_ClientID :: string
  ce_Text :: string
  ce_SentAt :: int

record chan =
  ch_buf :: "chatEvent list"
  ch_closed :: bool

text \<open>\<open>cr_subscribers\<close> is the map from subscriber IDs to channels, in the order of its iteration.\<close>

record chatRoom =
  cr_history :: "chatEvent list"
  cr_subscribers :: "(string \<times> nat) list"

record chatHub =
  hub_rooms :: "string \<rightharpoonup> chatRoom"
  hub_chans :: "chan list"

definition newChatHub :: chatHub where
  "newChatHub = \<lparr>hub_rooms = Map.empty, hub_chans = []\<rparr>"

section \<open>Names and events\<close>

definition normalizeRoomName :: "golib \<Rightarrow> string \<Rightarrow> string" where
  "normalizeRoomName L room =
     (let room = TrimSpace (ToLower L room) in if room = [] then ''lounge'' else room)"

definition sanitizeChatName :: "string \<Rightarrow> string" where
  "sanitizeChatName name =
     (let name = TrimSpace name
      in if name = [] then [] else if length name > 32 then take 32 name else name)"

text \<open>The two clock readings are \<open>now\<close> and \<open>now'\<close>; UnixMilli drops the fraction of a millisecond.\<close>

definition newSystemEvent :: "int \<Rightarrow> int \<Rightarrow> string \<Rightarrow> string \<Rightarrow> chatEvent" where
  "newSystemEvent now now' roomName text =
     \<lparr>ce_ID = ''sys-'' @ show_int now, ce_Kind = ''system'', ce_Room = roomName, ce_Sender = ''system'',
      ce_ClientID = [], ce_Text = text, ce_SentAt = now' div 1000000\<rparr>"

section \<open>Hub operations\<close>

definition ensureRoomLocked :: "string \<Rightarrow> chatHub \<Rightarrow> chatRoom \<times> chatHub" where
  "ensureRoomLocked roomName h =
     (case hub_rooms h roomName of
        Some room \<Rightarrow> (room, h)
      | None \<Rightarrow>
          (let room = \<lparr>cr_history = [], cr_subscribers = []\<rparr>
           in (room, h\<lparr>hub_rooms := (hub_rooms h)(roomName \<mapsto> room)\<rparr>)))"

text \<open>A map assignment: an existing key keeps its place.\<close>

fun sub_put :: "string \<Rightarrow> nat \<Rightarrow> (string \<times> nat) list \<Rightarrow> (string \<times> nat) list" where
  "sub_put k v [] = [(k, v)]"
| "sub_put k v ((k', v') # m) = (if k' = k then (k, v) # m else (k', v') # sub_put k v m)"

definition subscribe ::
    "golib \<Rightarrow> int \<Rightarrow> string \<Rightarrow> chatHub \<Rightarrow> (string \<times> chatEvent list \<times> nat) \<times> chatHub" where
  "subscribe L now room0 h =
     (let roomName = normalizeRoomName L room0;
          subscriberID = ''sub-'' @ show_int now;
          ch = length (hub_chans h);
          h = h\<lparr>hub_chans := hub_chans h @ [\<lparr>ch_buf = [], ch_closed = False\<rparr>]\<rparr>;
          (room, h) = ensureRoomLocked roomName h;
          room' = room\<lparr>cr_subscribers := sub_put subscriberID ch (cr_subscribers room)\<rparr>
      in ((subscriberID, cr_history room, ch), h\<lparr>hub_rooms := (hub_rooms h)(roomName \<mapsto> room')\<rparr>))"

definition close_chan :: "nat \<Rightarrow> chan list \<Rightarrow> string option \<times> chan list" where
  "close_chan ch cs =
     (if ch_closed (cs ! ch) then (Some ''close of closed channel'', cs)
      else (None, cs[ch := (cs ! ch)\<lparr>ch_closed := True\<rparr>]))"

text \<open>The function that subscribe returns; \<open>roomName\<close> is normalized there.\<close>

definition unsubscribe :: "string \<Rightarrow> string \<Rightarrow> chatHub \<Rightarrow> string option \<times> chatHub" where
  "unsubscribe roomName subscriberID h =
     (case hub_rooms h roomName of
        None \<Rightarrow> (None, h)
      | Some room \<Rightarrow>
          (case map_of (cr_subscribers room) subscriberID of
             None \<Rightarrow> (None, h)
           | Some existing \<Rightarrow>
               (let room' = room\<lparr>cr_subscribers := filter (\<lambda>s. fst s \<noteq> subscriberID) (cr_subscribers room)\<rparr>;
                    (p, cs) = close_chan existing (hub_chans h)
                in (p, h\<lparr>hub_rooms := (hub_rooms h)(roomName \<mapsto> room'), hub_chans := cs\<rparr>))))"

definition trim_history :: "chatEvent list \<Rightarrow> chatEvent list" where
  "trim_history hist =
     (if length hist > chatHistoryLimit then drop (length hist - chatHistoryLimit) hist else hist)"

text \<open>publish up to the unlock: the channels to send to, in the order of the iteration.\<close>

definition publish_locked ::
    "golib \<Rightarrow> string \<Rightarrow> chatEvent \<Rightarrow> chatHub \<Rightarrow> (chatEvent \<times> nat list) \<times> chatHub" where
  "publish_locked L room0 ev h =
     (let roomName = normalizeRoomName L room0;
          ev = ev\<lparr>ce_Room := roomName\<rparr>;
          (room, h) = ensureRoomLocked roomName h;
          room' = room\<lparr>cr_history := trim_history (cr_history room @ [ev])\<rparr>
      in ((ev, map snd (cr_subscribers room)), h\<lparr>hub_rooms := (hub_rooms h)(roomName \<mapsto> room')\<rparr>))"

text \<open>The select with a default: send if there is room in the buffer of 32, drop otherwise.\<close>

definition try_send :: "nat \<Rightarrow> chatEvent \<Rightarrow> chan list \<Rightarrow> string option \<times> chan list" where
  "try_send ch ev cs =
     (if ch_closed (cs ! ch) then (Some ''send on closed channel'', cs)
      else if length (ch_buf (cs ! ch)) < 32 then
        (None, cs[ch := (cs ! ch)\<lparr>ch_buf := ch_buf (cs ! ch) @ [ev]\<rparr>])
      else (None, cs))"

section \<open>Runs\<close>

text \<open>
  Publishers that are past the unlock, with the sends they have left. A panic of one is contained by
  Recovery in its request; it is recorded here.
\<close>

record hub_sys =
  hs_hub :: chatHub
  hs_pubs :: "(chatEvent \<times> nat list) list"
  hs_panics :: "string list"

datatype hub_ev =
    Subscribe string int
  | Unsubscribe string string
  | PubLock string chatEvent
  | PubSend nat
  | Recv nat

definition hub_start :: hub_sys where
  "hub_start = \<lparr>hs_hub = newChatHub, hs_pubs = [], hs_panics = []\<rparr>"

definition note_panic :: "string option \<Rightarrow> hub_sys \<Rightarrow> hub_sys" where
  "note_panic p s = (case p of None \<Rightarrow> s | Some v \<Rightarrow> s\<lparr>hs_panics := hs_panics s @ [v]\<rparr>)"

text \<open>One send of publisher \<open>i\<close>; a panic ends it.\<close>

definition pub_send :: "nat \<Rightarrow> hub_sys \<Rightarrow> hub_sys" where
  "pub_send i s =
     (if i < length (hs_pubs s) then
        (case hs_pubs s ! i of
           (ev, []) \<Rightarrow> s
         | (ev, ch # chs) \<Rightarrow>
             (case try_send ch ev (hub_chans (hs_hub s)) of
                (p, cs) \<Rightarrow>
                  note_panic p (s\<lparr>hs_hub := (hs_hub s)\<lparr>hub_chans := cs\<rparr>,
                    hs_pubs := (hs_pubs s)[i := (ev, if p = None then chs else [])]\<rparr>)))
      else s)"

text \<open>A subscriber's loop takes an event from its channel.\<close>

definition chan_recv :: "nat \<Rightarrow> hub_sys \<Rightarrow> hub_sys" where
  "chan_recv ch s =
     (if ch < length (hub_chans (hs_hub s)) then
        s\<lparr>hs_hub := (hs_hub s)\<lparr>hub_chans := (hub_chans (hs_hub s))[ch :=
            (hub_chans (hs_hub s) ! ch)\<lparr>ch_buf := tl (ch_buf (hub_chans (hs_hub s) ! ch))\<rparr>]\<rparr>\<rparr>
      else s)"

fun hub_step :: "golib \<Rightarrow> hub_sys \<Rightarrow> hub_ev \<Rightarrow> hub_sys" where
  "hub_step L s (Subscribe room now) = s\<lparr>hs_hub := snd (subscribe L now room (hs_hub s))\<rparr>"
| "hub_step L s (Unsubscribe room sid) =
     (case unsubscribe (normalizeRoomName L room) sid (hs_hub s) of
        (p, h) \<Rightarrow> note_panic p (s\<lparr>hs_hub := h\<rparr>))"
| "hub_step L s (PubLock room ev) =
     (case publish_locked L room ev (hs_hub s) of
        (job, h) \<Rightarrow> s\<lparr>hs_hub := h, hs_pubs := hs_pubs s @ [job]\<rparr>)"
| "hub_step L s (PubSend i) = pub_send i s"
| "hub_step L s (Recv ch) = chan_recv ch s"

definition hub_run :: "golib \<Rightarrow> hub_ev list \<Rightarrow> hub_sys" where
  "hub_run L es = foldl (hub_step L) hub_start es"

text \<open>Everything published to a room, in order.\<close>

fun room_log :: "golib \<Rightarrow> string \<Rightarrow> hub_ev list \<Rightarrow> chatEvent list" where
  "room_log L r [] = []"
| "room_log L r (PubLock room ev # es) =
     (if normalizeRoomName L room = r then ev\<lparr>ce_Room := r\<rparr> # room_log L r es else room_log L r es)"
| "room_log L r (_ # es) = room_log L r es"

definition history_of :: "chatHub \<Rightarrow> string \<Rightarrow> chatEvent list" where
  "history_of h r = (case hub_rooms h r of None \<Rightarrow> [] | Some room \<Rightarrow> cr_history room)"

section \<open>Facts\<close>

lemma trim_history_snoc:
  "trim_history (drop (length xs - chatHistoryLimit) xs @ [x]) =
     drop (length (xs @ [x]) - chatHistoryLimit) (xs @ [x])"
proof (cases "length xs < chatHistoryLimit")
  case True
  then show ?thesis by (simp add: trim_history_def)
next
  case False
  then have "length xs + 1 - chatHistoryLimit = Suc (length xs - chatHistoryLimit)" by simp
  with False show ?thesis
    by (simp add: trim_history_def chatHistoryLimit_def tl_drop drop_Suc del: Suc_diff_Suc)
qed

lemma room_log_append: "room_log L r (es @ es') = room_log L r es @ room_log L r es'"
proof (induction es)
  case (Cons e es)
  then show ?case by (cases e) simp_all
qed simp

lemma ensure_history:
  "ensureRoomLocked n h = (room, h') \<Longrightarrow>
   history_of h' r = history_of h r \<and> cr_history room = history_of h n \<and> hub_chans h' = hub_chans h"
  by (auto simp: ensureRoomLocked_def history_of_def Let_def split: option.splits if_splits)

lemma hub_step_history:
  "history_of (hs_hub (hub_step L s e)) r =
     (case e of
        PubLock room ev \<Rightarrow>
          if normalizeRoomName L room = r then trim_history (history_of (hs_hub s) r @ [ev\<lparr>ce_Room := r\<rparr>])
          else history_of (hs_hub s) r
      | _ \<Rightarrow> history_of (hs_hub s) r)"
proof (cases e)
  case (Subscribe room now)
  then show ?thesis
    using ensure_history [of _ "(hs_hub s)\<lparr>hub_chans := _\<rparr>"]
    by (auto simp: subscribe_def Let_def history_of_def split: prod.splits)
next
  case (PubLock room ev)
  then show ?thesis
    using ensure_history [of _ "hs_hub s"]
    by (auto simp: publish_locked_def Let_def history_of_def split: prod.splits)
next
  case (Unsubscribe room sid)
  then show ?thesis
    by (auto simp: unsubscribe_def Let_def history_of_def note_panic_def close_chan_def
        split: prod.splits option.splits if_splits)
next
  case (PubSend i)
  then show ?thesis
    by (auto simp: pub_send_def note_panic_def history_of_def try_send_def split: list.splits prod.splits option.splits if_splits)
next
  case (Recv ch)
  then show ?thesis by (auto simp: chan_recv_def history_of_def)
qed

text \<open>Who is subscribed with which channel.\<close>

definition sub_at :: "chatHub \<Rightarrow> string \<Rightarrow> string \<Rightarrow> nat \<Rightarrow> bool" where
  "sub_at h r sid ch \<longleftrightarrow> (\<exists>room. hub_rooms h r = Some room \<and> (sid, ch) \<in> set (cr_subscribers room))"

definition hub_inv :: "chatHub \<Rightarrow> bool" where
  "hub_inv h \<longleftrightarrow>
     (\<forall>r sid ch. sub_at h r sid ch \<longrightarrow> ch < length (hub_chans h) \<and> \<not> ch_closed (hub_chans h ! ch)) \<and>
     (\<forall>r sid r' sid' ch. sub_at h r sid ch \<longrightarrow> sub_at h r' sid' ch \<longrightarrow> r' = r \<and> sid' = sid) \<and>
     list_all (\<lambda>c. length (ch_buf c) \<le> 32) (hub_chans h)"

lemma set_sub_put: "set (sub_put k v m) \<subseteq> insert (k, v) (set m)"
proof (induction m)
  case (Cons x m)
  then show ?case by (cases x) auto
qed simp

lemma sub_at_ensure:
  "ensureRoomLocked n h = (room, h') \<Longrightarrow>
   sub_at h' r sid ch = sub_at h r sid ch \<and> ((sid, ch) \<in> set (cr_subscribers room) \<longrightarrow> sub_at h n sid ch)"
  by (auto simp: ensureRoomLocked_def sub_at_def Let_def split: option.splits if_splits)

lemma hub_inv_subscribe: "hub_inv h \<Longrightarrow> hub_inv (snd (subscribe L now room h))"
proof -
  assume inv: "hub_inv h"
  let ?n = "normalizeRoomName L room" and ?sid = "''sub-'' @ show_int now" and ?c = "length (hub_chans h)"
  let ?h1 = "h\<lparr>hub_chans := hub_chans h @ [\<lparr>ch_buf = [], ch_closed = False\<rparr>]\<rparr>"
  obtain rm h2 where e: "ensureRoomLocked ?n ?h1 = (rm, h2)" by (cases "ensureRoomLocked ?n ?h1")
  let ?h3 = "h2\<lparr>hub_rooms := (hub_rooms h2)(?n \<mapsto> rm\<lparr>cr_subscribers := sub_put ?sid ?c (cr_subscribers rm)\<rparr>)\<rparr>"
  have h3: "snd (subscribe L now room h) = ?h3" using e by (simp add: subscribe_def Let_def)
  have s1: "sub_at ?h1 r sid ch = sub_at h r sid ch" for r sid ch by (simp add: sub_at_def)
  have sub: "sub_at h r sid ch \<or> r = ?n \<and> sid = ?sid \<and> ch = ?c" if "sub_at ?h3 r sid ch" for r sid ch
    using that sub_at_ensure [OF e] s1 set_sub_put [of ?sid ?c "cr_subscribers rm"]
    by (auto simp: sub_at_def split: if_splits)
  have chans: "hub_chans ?h3 = hub_chans h @ [\<lparr>ch_buf = [], ch_closed = False\<rparr>]"
    using ensure_history [OF e] by simp
  have old: "ch < ?c \<and> \<not> ch_closed (hub_chans h ! ch)" if "sub_at h r sid ch" for r sid ch
    using inv that unfolding hub_inv_def by blast
  have "ch < length (hub_chans ?h3) \<and> \<not> ch_closed (hub_chans ?h3 ! ch)" if "sub_at ?h3 r sid ch" for r sid ch
    using sub [OF that]
  proof
    assume "sub_at h r sid ch"
    from old [OF this] show ?thesis unfolding chans by (simp add: nth_append)
  next
    assume "r = ?n \<and> sid = ?sid \<and> ch = ?c"
    then show ?thesis unfolding chans by simp
  qed
  moreover have "r' = r \<and> sid' = sid" if "sub_at ?h3 r sid ch" "sub_at ?h3 r' sid' ch" for r sid r' sid' ch
  proof (cases "ch = ?c")
    case True
    with sub [OF that(1)] sub [OF that(2)] old show ?thesis by fastforce
  next
    case False
    with sub [OF that(1)] sub [OF that(2)] have "sub_at h r sid ch" "sub_at h r' sid' ch" by simp_all
    with inv show ?thesis unfolding hub_inv_def by blast
  qed
  moreover have "list_all (\<lambda>c. length (ch_buf c) \<le> 32) (hub_chans ?h3)"
    using inv unfolding chans hub_inv_def by simp
  ultimately show ?thesis unfolding h3 hub_inv_def by blast
qed

lemma hub_inv_publish: "hub_inv h \<Longrightarrow> hub_inv (snd (publish_locked L room ev h))"
proof -
  assume inv: "hub_inv h"
  let ?n = "normalizeRoomName L room"
  obtain rm h2 where e: "ensureRoomLocked ?n h = (rm, h2)" by (cases "ensureRoomLocked ?n h")
  let ?h3 = "h2\<lparr>hub_rooms := (hub_rooms h2)(?n \<mapsto> rm\<lparr>cr_history :=
      trim_history (cr_history rm @ [ev\<lparr>ce_Room := ?n\<rparr>])\<rparr>)\<rparr>"
  have h3: "snd (publish_locked L room ev h) = ?h3" using e by (simp add: publish_locked_def Let_def)
  have sub: "sub_at h r sid ch" if "sub_at ?h3 r sid ch" for r sid ch
    using that sub_at_ensure [OF e] by (auto simp: sub_at_def split: if_splits)
  have chans: "hub_chans ?h3 = hub_chans h" using ensure_history [OF e] by simp
  show ?thesis unfolding h3 hub_inv_def chans using inv sub unfolding hub_inv_def by blast
qed

lemma hub_inv_unsubscribe:
  assumes inv: "hub_inv h" and u: "unsubscribe n sid h = (p, h')"
  shows "hub_inv h' \<and> p = None"
proof (cases "\<exists>room. hub_rooms h n = Some room \<and> map_of (cr_subscribers room) sid \<noteq> None")
  case False
  with u have "h' = h" "p = None" by (auto simp: unsubscribe_def split: option.splits)
  with inv show ?thesis by simp
next
  case True
  then obtain room ch where r: "hub_rooms h n = Some room" "map_of (cr_subscribers room) sid = Some ch" by auto
  then have at: "sub_at h n sid ch" by (auto simp: sub_at_def dest: map_of_SomeD)
  with inv have ch: "ch < length (hub_chans h)" "\<not> ch_closed (hub_chans h ! ch)" by (auto simp: hub_inv_def)
  let ?room = "room\<lparr>cr_subscribers := filter (\<lambda>s. fst s \<noteq> sid) (cr_subscribers room)\<rparr>"
  have h': "h' = h\<lparr>hub_rooms := (hub_rooms h)(n \<mapsto> ?room),
        hub_chans := (hub_chans h)[ch := (hub_chans h ! ch)\<lparr>ch_closed := True\<rparr>]\<rparr>" and p: "p = None"
    using u r ch(2) by (auto simp: unsubscribe_def close_chan_def Let_def)
  have sub: "sub_at h r' sid' ch' \<and> ch' \<noteq> ch" if "sub_at h' r' sid' ch'" for r' sid' ch'
  proof -
    have "sub_at h r' sid' ch' \<and> \<not> (r' = n \<and> sid' = sid)"
      using that r(1) by (auto simp: h' sub_at_def split: if_splits)
    moreover from this inv at have "ch' \<noteq> ch" unfolding hub_inv_def by blast
    ultimately show ?thesis by blast
  qed
  have "list_all (\<lambda>c. length (ch_buf c) \<le> 32) (hub_chans h')"
    using inv ch(1) by (auto simp: h' hub_inv_def list_all_length nth_update_at)
  moreover have "ch' < length (hub_chans h') \<and> \<not> ch_closed (hub_chans h' ! ch')" if "sub_at h' r' sid' ch'" for r' sid' ch'
    using sub [OF that] inv by (auto simp: h' hub_inv_def)
  ultimately show ?thesis using sub inv p unfolding hub_inv_def by blast
qed

lemma hub_inv_chans:
  assumes "hub_inv h" "length cs = length (hub_chans h)"
    and "\<And>i. i < length cs \<Longrightarrow> ch_closed (cs ! i) = ch_closed (hub_chans h ! i) \<and> length (ch_buf (cs ! i)) \<le> 32"
  shows "hub_inv (h\<lparr>hub_chans := cs\<rparr>)"
  using assms by (auto simp: hub_inv_def sub_at_def list_all_length)

lemma try_send_chans:
  assumes "try_send ch ev cs = (p, cs')" "list_all (\<lambda>c. length (ch_buf c) \<le> 32) cs"
  shows "length cs' = length cs"
    "\<And>i. i < length cs' \<Longrightarrow> ch_closed (cs' ! i) = ch_closed (cs ! i) \<and> length (ch_buf (cs' ! i)) \<le> 32"
proof -
  from assms(1) have "cs' = cs \<or>
      length (ch_buf (cs ! ch)) < 32 \<and> cs' = cs[ch := (cs ! ch)\<lparr>ch_buf := ch_buf (cs ! ch) @ [ev]\<rparr>]"
    by (auto simp: try_send_def split: if_splits)
  then show "length cs' = length cs"
    "\<And>i. i < length cs' \<Longrightarrow> ch_closed (cs' ! i) = ch_closed (cs ! i) \<and> length (ch_buf (cs' ! i)) \<le> 32"
    using assms(2) by (auto simp: list_all_length nth_update_at split: if_splits)
qed

lemma note_panic_hub [simp]: "hs_hub (note_panic p s) = hs_hub s" "hs_panics (note_panic p s) =
    hs_panics s @ (case p of None \<Rightarrow> [] | Some v \<Rightarrow> [v])"
  by (auto simp: note_panic_def split: option.splits)

lemma hub_step_inv:
  assumes inv: "hub_inv (hs_hub s)" and pan: "set (hs_panics s) \<subseteq> {''send on closed channel''}"
  shows "hub_inv (hs_hub (hub_step L s e)) \<and> set (hs_panics (hub_step L s e)) \<subseteq> {''send on closed channel''}"
proof (cases e)
  case (Unsubscribe room sid)
  obtain p h' where u: "unsubscribe (normalizeRoomName L room) sid (hs_hub s) = (p, h')"
    by (cases "unsubscribe (normalizeRoomName L room) sid (hs_hub s)")
  with hub_inv_unsubscribe [OF inv u] pan Unsubscribe show ?thesis by simp
next
  case (PubLock room ev)
  with hub_inv_publish [OF inv, of L room ev] pan show ?thesis by (simp add: case_prod_beta)
next
  case (PubSend i)
  show ?thesis
  proof (cases "i < length (hs_pubs s) \<and> snd (hs_pubs s ! i) \<noteq> []")
    case False
    then have "pub_send i s = s" by (auto simp: pub_send_def split: prod.splits list.splits)
    with inv pan PubSend show ?thesis by simp
  next
    case True
    then obtain ev ch chs where j: "hs_pubs s ! i = (ev, ch # chs)" by (cases "hs_pubs s ! i") (auto simp: neq_Nil_conv)
    obtain p cs where t: "try_send ch ev (hub_chans (hs_hub s)) = (p, cs)"
      by (cases "try_send ch ev (hub_chans (hs_hub s))")
    have "hub_inv ((hs_hub s)\<lparr>hub_chans := cs\<rparr>)"
      using try_send_chans [OF t] inv by (intro hub_inv_chans [OF inv]) (simp_all add: hub_inv_def)
    moreover have "p = None \<or> p = Some ''send on closed channel''"
      using t by (auto simp: try_send_def split: if_splits)
    ultimately show ?thesis using True j t pan PubSend by (auto simp: pub_send_def)
  qed
next
  case (Recv ch)
  have "hub_inv ((hs_hub s)\<lparr>hub_chans := (hub_chans (hs_hub s))[ch :=
      (hub_chans (hs_hub s) ! ch)\<lparr>ch_buf := tl (ch_buf (hub_chans (hs_hub s) ! ch))\<rparr>]\<rparr>)"
    using inv by (intro hub_inv_chans [OF inv]) (auto simp: hub_inv_def nth_update_at list_all_length)
  with inv pan Recv show ?thesis by (simp add: chan_recv_def)
qed (use hub_inv_subscribe [OF inv] pan in simp)

lemma hub_run_inv:
  "hub_inv (hs_hub (hub_run L es)) \<and> set (hs_panics (hub_run L es)) \<subseteq> {''send on closed channel''}"
proof (induction es rule: rev_induct)
  case Nil
  show ?case by (simp add: hub_run_def hub_start_def newChatHub_def hub_inv_def sub_at_def)
next
  case (snoc e es)
  then show ?case using hub_step_inv [of "hub_run L es" L e] by (simp add: hub_run_def)
qed

lemma hub_history:
  "history_of (hs_hub (hub_run L es)) r = drop (length (room_log L r es) - chatHistoryLimit) (room_log L r es)"
proof (induction es rule: rev_induct)
  case Nil
  show ?case by (simp add: hub_run_def hub_start_def newChatHub_def history_of_def)
next
  case (snoc e es)
  have "history_of (hs_hub (hub_run L (es @ [e]))) r = history_of (hs_hub (hub_step L (hub_run L es) e)) r"
    by (simp add: hub_run_def)
  with snoc show ?case
    by (cases e) (simp_all add: hub_step_history room_log_append trim_history_snoc del: hub_step.simps)
qed

lemma subscribe_history:
  "fst (snd (fst (subscribe L now room h))) = history_of h (normalizeRoomName L room)"
  using ensure_history [of "normalizeRoomName L room" "h\<lparr>hub_chans := _\<rparr>"]
  by (auto simp: subscribe_def Let_def history_of_def split: prod.splits)

section \<open>Properties of the chat hub\<close>

text \<open>
  C28: The history a subscriber is given. However subscribers, publishers and receivers have interleaved before,
  the history that subscribe returns holds exactly the last 120 events published to its room, in order, with
  their room name normalized; and subscribing leaves the history of every room as it was.
\<close>

theorem chat_history:
  "fst (snd (fst (subscribe L now room (hs_hub (hub_run L es))))) =
     (let published = room_log L (normalizeRoomName L room) es
      in drop (length published - chatHistoryLimit) published) \<and>
   history_of (snd (subscribe L now room (hs_hub (hub_run L es)))) r =
     drop (length (room_log L r es) - chatHistoryLimit) (room_log L r es)"
  using subscribe_history [of L now room "hs_hub (hub_run L es)"] hub_history [of L es]
    hub_history [of L "es @ [Subscribe room now]" r]
  by (simp add: hub_run_def Let_def room_log_append)

text \<open>
  Channels of the hub. In every interleaving, no channel is closed twice, a subscriber's channel
  stays open while it is subscribed, no two subscriptions share a channel, and no buffer holds more
  than 32 events; the only panic the hub can cause is a send on a closed channel.
\<close>

theorem chat_channels_safe:
  "hub_inv (hs_hub (hub_run L es)) \<and> set (hs_panics (hub_run L es)) \<subseteq> {''send on closed channel''}"
  by (rule hub_run_inv)

text \<open>
  Publishing can panic. publish sends after releasing the lock, so a subscriber that leaves between
  the unlock and the send makes the publisher send on a closed channel.
\<close>

theorem chat_publish_panics:
  "hs_panics (hub_run L [Subscribe room now, PubLock room ev, Unsubscribe room (''sub-'' @ show_int now), PubSend 0]) =
     [''send on closed channel'']"
  by (simp add: hub_run_def hub_start_def newChatHub_def subscribe_def ensureRoomLocked_def publish_locked_def
      unsubscribe_def close_chan_def pub_send_def try_send_def note_panic_def Let_def)

end
