(* ===== verification/Chat_Delivery.thy ===== *)
theory Chat_Delivery
  imports Chat "HOL-Library.Multiset"
begin

text \<open>
  What the subscribers of the chat hub receive (examples/streaming-demo/main.go, subscribe and publish).
  Events travel from the locked part of a publish to its sends, from there to the buffer of a channel, and
  from the buffer to the session that reads it; the lemmas follow the events meant for one channel along
  this way as a multiset.
\<close>

section \<open>Channels are subscribed once\<close>

definition subs_distinct :: "chatHub \<Rightarrow> bool" where
  "subs_distinct h \<longleftrightarrow> (\<forall>r room. hub_rooms h r = Some room \<longrightarrow> distinct (map snd (cr_subscribers room)))"

lemma sub_put_distinct:
  assumes "distinct (map snd m)" "v \<notin> snd ` set m"
  shows "distinct (map snd (sub_put k v m))"
  using assms
proof (induction m)
  case (Cons x m)
  obtain k' v' where x: "x = (k', v')" by (cases x)
  have "v' \<notin> snd ` set (sub_put k v m)" using Cons.prems set_sub_put [of k v m] by (auto simp: x)
  with Cons show ?case by (auto simp: x)
qed simp

lemma subs_ensure:
  assumes "subs_distinct h" "ensureRoomLocked n h = (room, h')"
  shows "subs_distinct h'" "distinct (map snd (cr_subscribers room))"
  using assms by (auto simp: subs_distinct_def ensureRoomLocked_def Let_def split: option.splits if_splits)

lemma subs_subscribe:
  assumes "subs_distinct h" "hub_inv h"
  shows "subs_distinct (snd (subscribe L now room h))"
proof -
  let ?h1 = "h\<lparr>hub_chans := hub_chans h @ [\<lparr>ch_buf = [], ch_closed = False\<rparr>]\<rparr>"
  obtain rm h2 where e: "ensureRoomLocked (normalizeRoomName L room) ?h1 = (rm, h2)"
    by (cases "ensureRoomLocked (normalizeRoomName L room) ?h1")
  have s1: "subs_distinct ?h1" "sub_at ?h1 r sid ch = sub_at h r sid ch" for r sid ch
    using assms(1) by (auto simp: subs_distinct_def sub_at_def)
  have "ch < length (hub_chans h)" if "(sid, ch) \<in> set (cr_subscribers rm)" for sid ch
    using sub_at_ensure [OF e] that s1(2) assms(2) unfolding hub_inv_def by blast
  then have "length (hub_chans h) \<notin> snd ` set (cr_subscribers rm)" by fastforce
  from sub_put_distinct [OF subs_ensure(2) [OF s1(1) e] this] subs_ensure(1) [OF s1(1) e] show ?thesis
    by (simp add: subscribe_def e Let_def subs_distinct_def)
qed

lemma subs_step:
  assumes "subs_distinct (hs_hub s)" "hub_inv (hs_hub s)"
  shows "subs_distinct (hs_hub (hub_step L s e))"
proof (cases e)
  case (Subscribe room now)
  with subs_subscribe [OF assms] show ?thesis by simp
next
  case (Unsubscribe room sid)
  with assms(1) show ?thesis
    by (auto simp: unsubscribe_def subs_distinct_def close_chan_def Let_def distinct_map_filter
        split: option.splits prod.splits if_splits)
next
  case (PubLock room ev)
  obtain rm h2 where e: "ensureRoomLocked (normalizeRoomName L room) (hs_hub s) = (rm, h2)"
    by (cases "ensureRoomLocked (normalizeRoomName L room) (hs_hub s)")
  with subs_ensure [OF assms(1) e] PubLock show ?thesis
    by (simp add: publish_locked_def Let_def subs_distinct_def)
next
  case (PubSend i)
  with assms(1) show ?thesis
    by (auto simp: pub_send_def subs_distinct_def split: prod.splits list.splits)
next
  case (Recv c)
  with assms(1) show ?thesis by (simp add: chan_recv_def subs_distinct_def)
qed

section \<open>Events on their way to one channel\<close>

text \<open>The sends of channel \<open>ch\<close> that the publishers have left, and the contents of its buffer.\<close>

definition pending :: "nat \<Rightarrow> hub_sys \<Rightarrow> chatEvent multiset" where
  "pending ch s = sum_list (map (\<lambda>(ev, chs). replicate_mset (count_list chs ch) ev) (hs_pubs s))"

definition buffered :: "nat \<Rightarrow> hub_sys \<Rightarrow> chatEvent multiset" where
  "buffered ch s = mset (ch_buf (hub_chans (hs_hub s) ! ch))"

text \<open>What the session that reads \<open>ch\<close> takes from it in the course of a run.\<close>

fun taken1 :: "nat \<Rightarrow> hub_sys \<Rightarrow> hub_ev \<Rightarrow> chatEvent list" where
  "taken1 ch s (Recv c) = (if c = ch then take 1 (ch_buf (hub_chans (hs_hub s) ! ch)) else [])"
| "taken1 ch s _ = []"

fun taken :: "golib \<Rightarrow> nat \<Rightarrow> hub_sys \<Rightarrow> hub_ev list \<Rightarrow> chatEvent list" where
  "taken L ch s [] = []"
| "taken L ch s (e # es) = taken1 ch s e @ taken L ch (hub_step L s e) es"

text \<open>The channel belongs to a room: nobody else's room lists it.\<close>

definition owned :: "nat \<Rightarrow> string \<Rightarrow> hub_sys \<Rightarrow> bool" where
  "owned ch r s \<longleftrightarrow> ch < length (hub_chans (hs_hub s)) \<and> (\<forall>r' sid. sub_at (hs_hub s) r' sid ch \<longrightarrow> r' = r) \<and>
     hub_inv (hs_hub s) \<and> subs_distinct (hs_hub s) \<and> set (hs_panics s) \<subseteq> {''send on closed channel''}"

lemma sub_at_subscribe:
  assumes "sub_at (snd (subscribe L now room h)) r sid ch" "ch \<noteq> length (hub_chans h)"
  shows "sub_at h r sid ch"
proof -
  let ?n = "normalizeRoomName L room"
  let ?h1 = "h\<lparr>hub_chans := hub_chans h @ [\<lparr>ch_buf = [], ch_closed = False\<rparr>]\<rparr>"
  obtain rm h2 where e: "ensureRoomLocked ?n ?h1 = (rm, h2)" by (cases "ensureRoomLocked ?n ?h1")
  have "sub_at ?h1 r sid ch = sub_at h r sid ch" by (simp add: sub_at_def)
  with assms sub_at_ensure [OF e] set_sub_put [of "''sub-'' @ show_int now" "length (hub_chans h)" "cr_subscribers rm"]
  show ?thesis by (auto simp: subscribe_def e Let_def sub_at_def split: if_splits)
qed

text \<open>Only a subscribe adds a subscription.\<close>

lemma sub_at_others:
  assumes "sub_at (hs_hub (hub_step L s e)) r sid ch" "\<And>room now. e \<noteq> Subscribe room now"
  shows "sub_at (hs_hub s) r sid ch"
proof (cases e)
  case (Subscribe room now)
  with assms(2) show ?thesis by blast
next
  case (Unsubscribe room sid')
  with assms(1) show ?thesis
    by (auto simp: unsubscribe_def sub_at_def Let_def split: option.splits prod.splits if_splits)
next
  case (PubLock room ev)
  obtain rm h2 where e: "ensureRoomLocked (normalizeRoomName L room) (hs_hub s) = (rm, h2)"
    by (cases "ensureRoomLocked (normalizeRoomName L room) (hs_hub s)")
  with assms(1) sub_at_ensure [OF e] PubLock show ?thesis
    by (auto simp: publish_locked_def Let_def sub_at_def split: if_splits)
next
  case (PubSend i)
  with assms(1) show ?thesis by (auto simp: pub_send_def sub_at_def split: prod.splits list.splits if_splits)
next
  case (Recv c)
  with assms(1) show ?thesis by (auto simp: chan_recv_def sub_at_def split: if_splits)
qed

lemma sub_at_step:
  assumes "sub_at (hs_hub (hub_step L s e)) r sid ch" "ch < length (hub_chans (hs_hub s))"
  shows "sub_at (hs_hub s) r sid ch"
proof (cases "\<exists>room now. e = Subscribe room now")
  case True
  with assms sub_at_subscribe show ?thesis by fastforce
next
  case False
  with sub_at_others [OF assms(1)] show ?thesis by blast
qed

lemma ensure_chans: "hub_chans (snd (ensureRoomLocked n h)) = hub_chans h"
  by (simp add: ensureRoomLocked_def Let_def split: option.split)

lemma chans_step: "length (hub_chans (hs_hub s)) \<le> length (hub_chans (hs_hub (hub_step L s e)))"
proof (cases e)
  case (Subscribe room now)
  then show ?thesis by (simp add: subscribe_def Let_def case_prod_beta ensure_chans)
next
  case (PubLock room ev)
  then show ?thesis by (simp add: publish_locked_def Let_def case_prod_beta ensure_chans)
next
  case (Unsubscribe room sid)
  then show ?thesis
    by (auto simp: unsubscribe_def close_chan_def Let_def split: option.splits prod.splits if_splits)
next
  case (PubSend i)
  have "length (snd (try_send c ev cs)) = length cs" for c ev cs by (simp add: try_send_def)
  then have "length cs' = length cs" if "try_send c ev cs = (p, cs')" for c ev cs p cs' using that by (metis snd_conv)
  with PubSend show ?thesis by (auto simp: pub_send_def split: prod.splits list.splits)
next
  case (Recv c)
  then show ?thesis by (simp add: chan_recv_def)
qed

lemma ownedD: "owned ch r s \<Longrightarrow> sub_at (hs_hub s) r' sid ch \<Longrightarrow> r' = r"
  unfolding owned_def by blast

lemma owned_step:
  assumes "owned ch r s"
  shows "owned ch r (hub_step L s e)"
proof -
  have s: "hub_inv (hs_hub s)" "subs_distinct (hs_hub s)" "set (hs_panics s) \<subseteq> {''send on closed channel''}"
    "ch < length (hub_chans (hs_hub s))" using assms by (simp_all add: owned_def)
  have "r' = r" if "sub_at (hs_hub (hub_step L s e)) r' sid ch" for r' sid
    by (rule ownedD [OF assms sub_at_step [OF that s(4)]])
  moreover have "ch < length (hub_chans (hs_hub (hub_step L s e)))" using chans_step [of s L e] s(4) by simp
  ultimately show ?thesis
    using hub_step_inv [OF s(1,3), of L e] subs_step [OF s(2,1), of L e] unfolding owned_def by blast
qed

section \<open>One step moves events along\<close>

lemma sum_list_change:
  fixes f :: "'a \<Rightarrow> 'b :: comm_monoid_add"
  assumes "i < length xs"
  shows "sum_list (map f (xs[i := x])) + f (xs ! i) = sum_list (map f xs) + f x"
  using assms
proof (induction xs arbitrary: i)
  case (Cons y ys)
  show ?case
  proof (cases i)
    case 0
    then show ?thesis by (simp add: ac_simps)
  next
    case (Suc j)
    with Cons have "sum_list (map f (ys[j := x])) + f (ys ! j) = sum_list (map f ys) + f x" by simp
    with Suc show ?thesis by (simp add: add.assoc)
  qed
qed simp

lemma count_distinct: "distinct xs \<Longrightarrow> count_list xs x = (if x \<in> set xs then 1 else 0)"
  by (induction xs) auto

lemma flow_lock:
  assumes "owned ch r s"
  shows "buffered ch (hub_step L s (PubLock room ev)) + pending ch (hub_step L s (PubLock room ev)) \<subseteq>#
    buffered ch s + pending ch s + mset (room_log L r [PubLock room ev])"
proof -
  let ?n = "normalizeRoomName L room"
  obtain rm h2 where e: "ensureRoomLocked ?n (hs_hub s) = (rm, h2)" by (cases "ensureRoomLocked ?n (hs_hub s)")
  let ?chs = "map snd (cr_subscribers rm)"
  have "distinct ?chs" using subs_ensure(2) [OF _ e] assms by (simp add: owned_def)
  moreover have "?n = r" if "ch \<in> set ?chs"
  proof -
    from that obtain sid where "(sid, ch) \<in> set (cr_subscribers rm)" by auto
    with sub_at_ensure [OF e] have "sub_at (hs_hub s) ?n sid ch" by blast
    then show ?thesis by (rule ownedD [OF assms])
  qed
  ultimately have "replicate_mset (count_list ?chs ch) (ev\<lparr>ce_Room := ?n\<rparr>) \<subseteq># mset (room_log L r [PubLock room ev])"
    by (auto simp: count_distinct)
  then show ?thesis
    using ensure_history [OF e] by (simp add: publish_locked_def e Let_def buffered_def pending_def add.assoc)
qed

lemma flow_send:
  assumes "owned ch r s"
  shows "buffered ch (pub_send i s) + pending ch (pub_send i s) \<subseteq># buffered ch s + pending ch s"
proof (cases "i < length (hs_pubs s) \<and> snd (hs_pubs s ! i) \<noteq> []")
  case False
  then have "pub_send i s = s" by (auto simp: pub_send_def split: prod.splits list.splits)
  then show ?thesis by simp
next
  case True
  then obtain ev c chs where j: "i < length (hs_pubs s)" "hs_pubs s ! i = (ev, c # chs)"
    by (cases "hs_pubs s ! i") (auto simp: neq_Nil_conv)
  obtain p cs where t: "try_send c ev (hub_chans (hs_hub s)) = (p, cs)" by (cases "try_send c ev (hub_chans (hs_hub s))")
  let ?rest = "if p = None then chs else []"
  let ?f = "\<lambda>(ev, chs). replicate_mset (count_list chs ch) ev"
  have s': "hs_pubs (pub_send i s) = (hs_pubs s)[i := (ev, ?rest)]" "hub_chans (hs_hub (pub_send i s)) = cs"
    using j t by (simp_all add: pub_send_def note_panic_def split: option.split)
  have pend: "pending ch (pub_send i s) + replicate_mset (count_list (c # chs) ch) ev =
      pending ch s + replicate_mset (count_list ?rest ch) ev"
    using sum_list_change [OF j(1), of ?f "(ev, ?rest)"] j(2) by (simp add: pending_def s')
  have ch: "ch < length (hub_chans (hs_hub s))" using assms by (simp add: owned_def)
  have buf: "buffered ch (pub_send i s) = buffered ch s \<or>
      p = None \<and> c = ch \<and> buffered ch (pub_send i s) = add_mset ev (buffered ch s)"
    using t ch by (cases "c = ch") (auto simp: buffered_def s' try_send_def split: if_splits)
  have rest: "replicate_mset (count_list ?rest ch) ev \<subseteq># replicate_mset (count_list chs ch) ev" by simp
  have full: "replicate_mset (count_list (c # chs) ch) ev =
      (if c = ch then {#ev#} else {#}) + replicate_mset (count_list chs ch) ev" by simp
  from pend rest have "pending ch (pub_send i s) + (if c = ch then {#ev#} else {#}) \<subseteq># pending ch s"
    unfolding full by (metis (no_types, lifting) add.assoc mset_subset_eq_mono_add_left_cancel mset_subset_eq_mono_add_right_cancel)
  then have "pending ch (pub_send i s) \<subseteq># pending ch s" "c = ch \<Longrightarrow> add_mset ev (pending ch (pub_send i s)) \<subseteq># pending ch s"
    by (auto intro: subset_mset.order_trans [OF mset_subset_eq_add_left])
  with buf show ?thesis by auto
qed

lemma buf_close: "ch_buf ((cs[c := (cs ! c)\<lparr>ch_closed := True\<rparr>]) ! ch) = ch_buf (cs ! ch)"
  by (cases "c < length cs"; cases "c = ch") (simp_all add: list_update_beyond)

lemma flow_step:
  assumes "owned ch r s"
  shows "mset (taken1 ch s e) + (buffered ch (hub_step L s e) + pending ch (hub_step L s e)) \<subseteq>#
    buffered ch s + pending ch s + mset (room_log L r [e])"
proof (cases e)
  case (Subscribe room now)
  have "ch < length (hub_chans (hs_hub s))" using assms by (simp add: owned_def)
  then show ?thesis
    by (simp add: Subscribe subscribe_def Let_def case_prod_beta ensure_chans buffered_def pending_def nth_append)
next
  case (Unsubscribe room sid)
  have "ch_buf (hub_chans h' ! ch) = ch_buf (hub_chans h ! ch)" if "unsubscribe n i h = (p, h')" for n i h p h'
    using that by (auto simp: unsubscribe_def close_chan_def Let_def buf_close split: option.splits prod.splits if_splits)
  then show ?thesis by (auto simp: Unsubscribe buffered_def pending_def note_panic_def split: prod.splits option.splits)
next
  case (PubLock room ev)
  with flow_lock [OF assms] show ?thesis by (simp del: hub_step.simps room_log.simps)
next
  case (PubSend i)
  with flow_send [OF assms] show ?thesis by simp
next
  case (Recv c)
  show ?thesis
    by (cases "c = ch \<and> c < length (hub_chans (hs_hub s))"; cases "ch_buf (hub_chans (hs_hub s) ! ch)")
      (use assms in \<open>auto simp: Recv chan_recv_def buffered_def pending_def owned_def\<close>)
qed

lemma flow_run:
  assumes "owned ch r s"
  shows "mset (taken L ch s es) + buffered ch (foldl (hub_step L) s es) \<subseteq>#
    buffered ch s + pending ch s + mset (room_log L r es)"
  using assms
proof (induction es arbitrary: s)
  case (Cons e es)
  let ?s = "hub_step L s e"
  have "mset (taken L ch ?s es) + buffered ch (foldl (hub_step L) ?s es) \<subseteq>#
      buffered ch ?s + pending ch ?s + mset (room_log L r es)"
    by (rule Cons.IH [OF owned_step [OF Cons.prems]])
  moreover have "mset (room_log L r (e # es)) = mset (room_log L r [e]) + mset (room_log L r es)"
    using room_log_append [of L r "[e]" es] by simp
  ultimately show ?case
    using subset_mset.add_mono [OF flow_step [OF Cons.prems, of e L]] by (fastforce simp: ac_simps)
qed simp

section \<open>A new subscription\<close>

definition pubs_ok :: "hub_sys \<Rightarrow> bool" where
  "pubs_ok s \<longleftrightarrow> (\<forall>ev chs c. (ev, chs) \<in> set (hs_pubs s) \<longrightarrow> c \<in> set chs \<longrightarrow> c < length (hub_chans (hs_hub s)))"

lemma pubs_same:
  assumes "pubs_ok s" "hs_pubs (hub_step L s e) = hs_pubs s"
  shows "pubs_ok (hub_step L s e)"
  using assms chans_step [of s L e] unfolding pubs_ok_def by (auto intro: less_le_trans)

lemma pubs_step:
  assumes "pubs_ok s" "hub_inv (hs_hub s)"
  shows "pubs_ok (hub_step L s e)"
proof (cases e)
  case (PubLock room ev)
  obtain rm h2 where e: "ensureRoomLocked (normalizeRoomName L room) (hs_hub s) = (rm, h2)"
    by (cases "ensureRoomLocked (normalizeRoomName L room) (hs_hub s)")
  have "c < length (hub_chans (hs_hub s))" if "c \<in> set (map snd (cr_subscribers rm))" for c
    using that sub_at_ensure [OF e] assms(2) unfolding hub_inv_def by fastforce
  with PubLock assms(1) ensure_history [OF e] show ?thesis
    by (auto simp: pubs_ok_def publish_locked_def e Let_def)
next
  case (PubSend i)
  have "chs \<noteq> [] \<Longrightarrow> \<exists>chs'. (ev, chs') \<in> set (hs_pubs s) \<and> set chs \<subseteq> set chs'"
    if "(ev, chs) \<in> set (hs_pubs (pub_send i s))" for ev chs
    using that by (auto simp: pub_send_def note_panic_def split: if_splits prod.splits list.splits option.splits
        dest!: set_update_subset_insert [THEN subsetD]) (metis nth_mem set_subset_Cons)+
  then have "c < length (hub_chans (hs_hub s))" if "(ev, chs) \<in> set (hs_pubs (pub_send i s))" "c \<in> set chs" for ev chs c
    using that assms(1) unfolding pubs_ok_def by (metis empty_iff empty_set subsetD)
  with chans_step [of s L e] show ?thesis unfolding pubs_ok_def PubSend hub_step.simps by (blast intro: less_le_trans)
qed (use assms(1) in \<open>auto intro!: pubs_same simp del: hub_step.simps\<close>,
  auto simp: chan_recv_def note_panic_def split: prod.splits option.splits)

lemma hub_run_snoc: "hub_run L (es @ [e]) = hub_step L (hub_run L es) e"
  by (simp add: hub_run_def)

lemma hub_run_append: "hub_run L (es @ es') = foldl (hub_step L) (hub_run L es) es'"
  by (simp add: hub_run_def)

lemma hub_run_ok: "subs_distinct (hs_hub (hub_run L es)) \<and> pubs_ok (hub_run L es)"
proof (induction es rule: rev_induct)
  case Nil
  show ?case by (simp add: hub_run_def hub_start_def newChatHub_def subs_distinct_def pubs_ok_def)
next
  case (snoc e es)
  with hub_run_inv [of L es] subs_step pubs_step show ?case by (simp add: hub_run_snoc)
qed

lemma sum_list_zero: "\<forall>x \<in> set xs. f x = {#} \<Longrightarrow> sum_list (map f xs) = {#}"
  by (induction xs) simp_all

lemma pending_fresh:
  assumes "pubs_ok s"
  shows "pending (length (hub_chans (hs_hub s))) s = {#}"
proof -
  have "length (hub_chans (hs_hub s)) \<notin> set chs" if "(ev, chs) \<in> set (hs_pubs s)" for ev chs
    using assms that unfolding pubs_ok_def by blast
  then have "\<forall>x \<in> set (hs_pubs s). (case x of (ev, chs) \<Rightarrow>
      replicate_mset (count_list chs (length (hub_chans (hs_hub s)))) ev) = {#}"
    by (auto simp: count_list_0_iff)
  then show ?thesis unfolding pending_def by (rule sum_list_zero)
qed

lemma subscribe_fresh:
  fixes L es room now
  defines "s \<equiv> hub_run L es" and "s' \<equiv> hub_run L (es @ [Subscribe room now])"
  defines "ch \<equiv> length (hub_chans (hs_hub s))"
  shows "owned ch (normalizeRoomName L room) s'" "buffered ch s' = {#}" "pending ch s' = {#}"
proof -
  let ?n = "normalizeRoomName L room" and ?h = "hs_hub s"
  let ?h1 = "?h\<lparr>hub_chans := hub_chans ?h @ [\<lparr>ch_buf = [], ch_closed = False\<rparr>]\<rparr>"
  obtain rm h2 where e: "ensureRoomLocked ?n ?h1 = (rm, h2)" by (cases "ensureRoomLocked ?n ?h1")
  have chans: "hub_chans (hs_hub s') = hub_chans ?h @ [\<lparr>ch_buf = [], ch_closed = False\<rparr>]"
    using ensure_history [OF e] by (simp add: s'_def hub_run_snoc s_def [symmetric] subscribe_def e Let_def)
  have old: "ch' < ch" if "sub_at ?h r sid ch'" for r sid ch'
    using hub_run_inv [of L es] that unfolding hub_inv_def s_def ch_def by blast
  have s1: "sub_at ?h1 r sid ch' = sub_at ?h r sid ch'" for r sid ch' by (simp add: sub_at_def)
  have "r = ?n" if "sub_at (hs_hub s') r sid ch" for r sid
  proof (rule ccontr)
    assume "r \<noteq> ?n"
    with that have "sub_at h2 r sid ch"
      by (simp add: s'_def hub_run_snoc s_def [symmetric] subscribe_def e Let_def sub_at_def)
    with sub_at_ensure [OF e] s1 old [of r sid ch] show False by simp
  qed
  then show "owned ch ?n s'"
    using hub_run_inv [of L "es @ [Subscribe room now]"] hub_run_ok [of L "es @ [Subscribe room now]"] chans
    unfolding owned_def s'_def [symmetric] by (auto simp: ch_def)
  show "buffered ch s' = {#}" by (simp add: buffered_def chans ch_def)
  have "hs_pubs s' = hs_pubs s" by (simp add: s'_def hub_run_snoc s_def)
  with pending_fresh [of s] hub_run_ok [of L es] show "pending ch s' = {#}" by (simp add: pending_def ch_def s_def)
qed

section \<open>Who closes a channel\<close>

text \<open>The channel is open, and only the given subscription can hold it.\<close>

definition held_open :: "nat \<Rightarrow> string \<Rightarrow> string \<Rightarrow> chatHub \<Rightarrow> bool" where
  "held_open ch r sid h \<longleftrightarrow> ch < length (hub_chans h) \<and> \<not> ch_closed (hub_chans h ! ch) \<and>
     (\<forall>r' sid'. sub_at h r' sid' ch \<longrightarrow> r' = r \<and> sid' = sid)"

lemma closed_step:
  assumes "held_open ch r sid (hs_hub s)"
    and "\<And>room. e = Unsubscribe room sid \<Longrightarrow> normalizeRoomName L room \<noteq> r"
  shows "\<not> ch_closed (hub_chans (hs_hub (hub_step L s e)) ! ch)"
proof (cases e)
  case (Subscribe room now)
  with assms(1) show ?thesis
    by (simp add: held_open_def subscribe_def Let_def case_prod_beta ensure_chans nth_append)
next
  case (Unsubscribe room sid')
  have "sub_at (hs_hub s) (normalizeRoomName L room) sid' c"
    if "hub_rooms (hs_hub s) (normalizeRoomName L room) = Some rm" "map_of (cr_subscribers rm) sid' = Some c" for rm c
    using that by (auto simp: sub_at_def dest: map_of_SomeD)
  moreover have "\<not> sub_at (hs_hub s) (normalizeRoomName L room) sid' ch"
    using assms Unsubscribe unfolding held_open_def by blast
  ultimately show ?thesis
    using assms(1) unfolding Unsubscribe held_open_def
    by (auto simp: unsubscribe_def close_chan_def Let_def nth_update_at split: option.splits prod.splits if_splits)
next
  case (PubLock room ev)
  with assms(1) show ?thesis by (simp add: held_open_def publish_locked_def Let_def case_prod_beta ensure_chans)
next
  case (PubSend i)
  with assms(1) show ?thesis
    by (auto simp: held_open_def pub_send_def try_send_def nth_update_at split: prod.splits list.splits if_splits)
next
  case (Recv c)
  with assms(1) show ?thesis by (auto simp: held_open_def chan_recv_def nth_update_at)
qed

lemma held_open_step:
  assumes "held_open ch r sid (hs_hub s)"
    and "\<And>room. e = Unsubscribe room sid \<Longrightarrow> normalizeRoomName L room \<noteq> r"
  shows "held_open ch r sid (hs_hub (hub_step L s e))"
proof -
  have "ch < length (hub_chans (hs_hub s))" using assms(1) by (simp add: held_open_def)
  with closed_step [OF assms] chans_step [of s L e] sub_at_step assms(1) show ?thesis
    unfolding held_open_def by (meson less_le_trans)
qed

lemma held_open_run:
  assumes "held_open ch r sid (hs_hub s)"
    and "\<And>room. Unsubscribe room sid \<in> set es \<Longrightarrow> normalizeRoomName L room \<noteq> r"
  shows "held_open ch r sid (hs_hub (foldl (hub_step L) s es))"
  using assms
proof (induction es arbitrary: s)
  case (Cons e es)
  have "held_open ch r sid (hs_hub (hub_step L s e))" by (rule held_open_step [OF Cons.prems(1)]) (use Cons.prems(2) in auto)
  with Cons.IH Cons.prems(2) show ?case by simp
qed simp

lemma held_open_subscribe:
  assumes "hub_inv h"
  shows "held_open (length (hub_chans h)) (normalizeRoomName L room) (''sub-'' @ show_int now) (snd (subscribe L now room h))"
proof -
  let ?n = "normalizeRoomName L room" and ?c = "length (hub_chans h)"
  let ?h1 = "h\<lparr>hub_chans := hub_chans h @ [\<lparr>ch_buf = [], ch_closed = False\<rparr>]\<rparr>"
  obtain rm h2 where e: "ensureRoomLocked ?n ?h1 = (rm, h2)" by (cases "ensureRoomLocked ?n ?h1")
  have "\<not> sub_at h r sid ?c" for r sid using assms unfolding hub_inv_def by blast
  then have "\<not> sub_at h2 r sid ?c" "(sid, ?c) \<notin> set (cr_subscribers rm)" for r sid
    using sub_at_ensure [OF e] by (simp_all add: sub_at_def) blast
  then show ?thesis
    using ensure_history [OF e] set_sub_put [of "''sub-'' @ show_int now" ?c "cr_subscribers rm"]
    by (auto simp: held_open_def subscribe_def e Let_def sub_at_def split: if_splits)
qed

lemma taken_append: "taken L ch s (es @ es') = taken L ch s es @ taken L ch (foldl (hub_step L) s es) es'"
  by (induction es arbitrary: s) simp_all

lemma taken_others: "Recv ch \<notin> set es \<Longrightarrow> taken L ch s es = []"
proof (induction es arbitrary: s)
  case (Cons e es)
  then show ?case by (cases e) auto
qed simp

lemma delivered_once:
  "mset (taken L (length (hub_chans (hs_hub (hub_run L es1)))) (hub_run L (es1 @ [Subscribe room now])) es2) +
     mset (ch_buf (hub_chans (hs_hub (hub_run L (es1 @ Subscribe room now # es2))) !
       length (hub_chans (hs_hub (hub_run L es1))))) \<subseteq># mset (room_log L (normalizeRoomName L room) es2)"
proof -
  have "hub_run L (es1 @ Subscribe room now # es2) = foldl (hub_step L) (hub_run L (es1 @ [Subscribe room now])) es2"
    by (simp add: hub_run_def)
  with flow_run [OF subscribe_fresh(1) [of L es1 room now], of L es2] subscribe_fresh(2,3) [of L es1 room now] show ?thesis
    by (simp add: buffered_def)
qed

section \<open>Properties of the deliveries\<close>

text \<open>
  C27: What a chat subscriber receives. Whatever the other sessions and publishers do, in whatever
  interleaving of their sends with the receives, the events that a subscription takes from its channel
  and those still in the buffer are, taken together, among the events published to its room after it
  subscribed, each at most as often as it was published: no duplicates, nothing from before the
  subscription, which the history covers, and nothing from another room.
\<close>

theorem chat_at_most_once:
  "let ch = length (hub_chans (hs_hub (hub_run L es1)));
       s = hub_run L (es1 @ [Subscribe room now]);
       s' = hub_run L (es1 @ Subscribe room now # es2)
   in mset (taken L ch s es2) + mset (ch_buf (hub_chans (hs_hub s') ! ch)) \<subseteq>#
        mset (room_log L (normalizeRoomName L room) es2)"
  using delivered_once [of L es1 room now es2] by (simp add: Let_def)

text \<open>
  A chat session's loop does not end by itself. The loop of the room's stream handler ranges over the
  channel and ends when it is closed; only the unsubscribe function of that same subscription closes it,
  which the handler defers until after the loop.
\<close>

theorem chat_channel_stays_open:
  assumes "\<And>r. Unsubscribe r (''sub-'' @ show_int now) \<in> set es2 \<Longrightarrow> normalizeRoomName L r \<noteq> normalizeRoomName L room"
  shows "\<not> ch_closed (hub_chans (hs_hub (hub_run L (es1 @ Subscribe room now # es2))) !
      length (hub_chans (hs_hub (hub_run L es1))))"
proof -
  have "hub_run L (es1 @ Subscribe room now # es2) = foldl (hub_step L) (hub_step L (hub_run L es1) (Subscribe room now)) es2"
    by (simp add: hub_run_def)
  moreover have "held_open (length (hub_chans (hs_hub (hub_run L es1)))) (normalizeRoomName L room) (''sub-'' @ show_int now)
      (hs_hub (hub_step L (hub_run L es1) (Subscribe room now)))"
    using held_open_subscribe hub_run_inv [of L es1] by simp
  ultimately show ?thesis using held_open_run [OF _ assms] unfolding held_open_def by metis
qed

end
