(* ===== verification/Streaming_Demo.thy ===== *)
theory Streaming_Demo
  imports Handlers Chat_Delivery
begin

text \<open>
  The handlers of examples/streaming-demo/main.go: three streams and the two chat endpoints, over
  the hub of \<open>Chat\<close>, which is a field of the state together with the publishers of other goroutines that
  are on their way. \<open>ticks\<close> are the times a handler receives from a ticker before the deadline; what other
  goroutines do to the hub between the steps of a chat handler is the argument \<open>oth\<close>, and the rounds its loop
  makes the argument \<open>rounds\<close>.
\<close>

record demo_world = world +
  dw_chat :: hub_sys

section \<open>Streams\<close>

definition tick_value :: "nat \<times> int \<Rightarrow> gvalue" where
  "tick_value it =
     GMap [(''seq'', GInt (int (fst it))), (''ts'', GInt (snd it)),
           (''msg'', GStr (''tick #'' @ show_nat (fst it)))]"

definition ticks_handler :: "gvalue msgpack \<Rightarrow> int list \<Rightarrow> (gvalue, 'x world_scheme) HandlerFunc" where
  "ticks_handler M ticks =
     with_stream M 200 (Some [''x-stream'' \<mapsto> ''ticks''])
       (chunk_loop M True 0 (map (\<lambda>it w. tick_value it) (enumerate 0 ticks)))"

text \<open>\<^verbatim>\<open>\u2264\<close> in the messages of the next two is three bytes in UTF-8.\<close>

definition at_most :: "string \<Rightarrow> string" where
  "at_most k = ''n must be '' @ [CHR 0xE2, CHR 0x89, CHR 0xA4] @ '' '' @ k"

definition batch_value :: "nat \<Rightarrow> gvalue" where
  "batch_value i = GMap [(''index'', GInt (int i)), (''value'', GInt (int i * int i))]"

definition batch_handler :: "gvalue msgpack \<Rightarrow> (gvalue, 'x world_scheme) HandlerFunc" where
  "batch_handler M c w =
     (let n = Sscanf_d (Ctx_Param c ''n'') 100
      in if n > 10000 then answer (Ctx_Error M c 400 (at_most ''10000'') []) w
         else with_stream M 200 None
                (chunk_loop M False 0 (map (\<lambda>i w. batch_value i) [0 ..< nat n])) c w)"

definition slow_value :: "int \<Rightarrow> nat \<Rightarrow> gvalue" where
  "slow_value n i =
     GMap [(''seq'', GInt (int i)),
           (''msg'', GStr (''slow chunk '' @ show_nat (i + 1) @ ''/'' @ show_int n))]"

definition slow_handler :: "gvalue msgpack \<Rightarrow> (gvalue, 'x world_scheme) HandlerFunc" where
  "slow_handler M c w =
     (let n = Sscanf_d (Ctx_Param c ''n'') 5
      in if n > 60 then answer (Ctx_Error M c 400 (at_most ''60'') []) w
         else with_stream M 200 None
                (chunk_loop M False Second (map (\<lambda>i w. slow_value n i) [0 ..< nat n])) c w)"

section \<open>The hub between the calls of a handler\<close>

text \<open>
  A handler touches the hub in single steps of \<open>Chat\<close>: the locked sections of subscribe, unsubscribe and publish,
  one send of a publish, one receive. Between any two of its own steps the other goroutines take theirs: an
  arbitrary list of hub events, given for every point of the handler as an argument. They cannot make
  the handler's own sends and receives for it.
\<close>

datatype hub_point =
    Opening \<comment> \<open>after subscribe, while the history is written\<close>
  | Greeting nat \<comment> \<open>in publish of the message that a participant joined, before a send\<close>
  | Waiting nat \<comment> \<open>in the loop, before a receive\<close>
  | Leaving nat \<comment> \<open>in publish of the message that a participant left, before a send\<close>
  | Posting nat \<comment> \<open>in publish of a posted message, before a send\<close>

type_synonym others = "hub_point \<Rightarrow> hub_ev list"

definition others_run :: "golib \<Rightarrow> hub_ev list \<Rightarrow> hub_ev list \<Rightarrow> hub_sys \<Rightarrow> hub_sys" where
  "others_run L own es s = foldl (hub_step L) s (filter (\<lambda>e. e \<notin> set own) es)"

text \<open>
  publish: the locked part makes publisher \<open>i\<close> with the channels to send to, then follow its sends, each after
  whatever the others do. A send on a closed channel ends it with a panic.
\<close>

fun send_loop ::
    "golib \<Rightarrow> (nat \<Rightarrow> hub_ev list) \<Rightarrow> hub_ev list \<Rightarrow> nat \<Rightarrow> chatEvent \<Rightarrow> nat list \<Rightarrow> nat \<Rightarrow> hub_sys \<Rightarrow>
       string option \<times> hub_sys" where
  "send_loop L oth own i ev [] k s = (None, s)"
| "send_loop L oth own i ev (ch # chs) k s =
     (let s1 = others_run L (PubSend i # own) (oth k) s
      in case fst (try_send ch ev (hub_chans (hs_hub s1))) of
           Some p \<Rightarrow> (Some p, pub_send i s1)
         | None \<Rightarrow> send_loop L oth own i ev chs (Suc k) (pub_send i s1))"

definition publish ::
    "golib \<Rightarrow> (nat \<Rightarrow> hub_ev list) \<Rightarrow> hub_ev list \<Rightarrow> string \<Rightarrow> chatEvent \<Rightarrow> hub_sys \<Rightarrow> string option \<times> hub_sys" where
  "publish L oth own room ev s =
     (case publish_locked L room ev (hs_hub s) of
        ((ev', chs), h) \<Rightarrow>
          send_loop L oth own (length (hs_pubs s)) ev' chs 0 (s\<lparr>hs_hub := h, hs_pubs := hs_pubs s @ [(ev', chs)]\<rparr>))"

text \<open>The function subscribe returns; a panic of its close is passed on.\<close>

definition call_unsubscribe :: "golib \<Rightarrow> string \<Rightarrow> string \<Rightarrow> hub_sys \<Rightarrow> string option \<times> hub_sys" where
  "call_unsubscribe L roomName sid s =
     (fst (unsubscribe (normalizeRoomName L roomName) sid (hs_hub s)), hub_step L s (Unsubscribe roomName sid))"

section \<open>Chat\<close>

definition event_value :: "chatEvent \<Rightarrow> gvalue" where
  "event_value e =
     GMap [(''id'', GStr (ce_ID e)), (''kind'', GStr (ce_Kind e)), (''room'', GStr (ce_Room e)),
           (''sender'', GStr (ce_Sender e)), (''clientId'', GStr (ce_ClientID e)),
           (''text'', GStr (ce_Text e)), (''sentAt'', GInt (ce_SentAt e))]"

definition writeChatEvent ::
    "gvalue msgpack \<Rightarrow> gvalue Context \<Rightarrow> chatEvent \<Rightarrow> goerr option \<times> gvalue Context" where
  "writeChatEvent M c ev =
     (case Marshal M (PValue (event_value ev)) of
        Inl err \<Rightarrow> (Some err, c)
      | Inr payload \<Rightarrow>
          (case ctx_sw_Write M c payload of ((_, Some err), c') \<Rightarrow> (Some err, c') | ((_, None), c') \<Rightarrow> (None, c')))"

text \<open>The loop over the history returns at the first event that cannot be written.\<close>

fun write_events ::
    "gvalue msgpack \<Rightarrow> chatEvent list \<Rightarrow> gvalue Context \<Rightarrow> goerr option \<times> gvalue Context" where
  "write_events M [] c = (None, c)"
| "write_events M (ev # evs) c =
     (case writeChatEvent M c ev of
        (Some err, c') \<Rightarrow> (Some err, c')
      | (None, c') \<Rightarrow> write_events M evs c')"

text \<open>The deferred function: a panic of its publish keeps Close from running.\<close>

definition chat_leave ::
    "golib \<Rightarrow> gvalue msgpack \<Rightarrow> others \<Rightarrow> string \<Rightarrow> string \<Rightarrow> goerr option outcome \<Rightarrow> gvalue Context \<Rightarrow>
       'x demo_world_scheme \<Rightarrow> goerr option outcome \<times> gvalue Context \<times> 'x demo_world_scheme" where
  "chat_leave L M oth roomName sid r c w =
     (case call_unsubscribe L roomName sid (dw_chat w) of
        (Some p, s) \<Rightarrow> (Panic p, c, w\<lparr>dw_chat := s\<rparr>)
      | (None, s) \<Rightarrow>
          (case publish L (\<lambda>k. oth (Leaving k)) [] roomName
                  (newSystemEvent (w_now w) (w_now w) roomName ''A participant left the room.'') s of
             (Some p, s') \<Rightarrow> (Panic p, c, w\<lparr>dw_chat := s'\<rparr>)
           | (None, s') \<Rightarrow> (r, snd (ctx_sw_Close M c), w\<lparr>dw_chat := s'\<rparr>)))"

text \<open>
  The handler up to its loop over the channel: \<open>Inl\<close> if it is over before, \<open>Inr\<close> with its room name, subscriber
  ID, channel, Context and the hub otherwise.
\<close>

definition chat_open ::
    "golib \<Rightarrow> gvalue msgpack \<Rightarrow> others \<Rightarrow> gvalue Context \<Rightarrow> 'x demo_world_scheme \<Rightarrow>
       (goerr option outcome \<times> gvalue Context \<times> 'x demo_world_scheme) +
       (string \<times> string \<times> nat \<times> gvalue Context \<times> hub_sys)" where
  "chat_open L M oth c w =
     (let roomName = normalizeRoomName L (Ctx_Param c ''room'');
          ((sid, history, ch), _) = subscribe L (w_now w) roomName (hs_hub (dw_chat w));
          s0 = hub_step L (dw_chat w) (Subscribe roomName (w_now w));
          s1 = others_run L [Recv ch] (oth Opening) s0;
          leave = chat_leave L M oth roomName sid
      in case Ctx_NewStream M c 200 (Some [''x-stream'' \<mapsto> ''chat-room'']) of
           (Some err, c1) \<Rightarrow>
             Inl (case call_unsubscribe L roomName sid s1 of
                    (Some p, s) \<Rightarrow> (Panic p, c1, w\<lparr>dw_chat := s\<rparr>)
                  | (None, s) \<Rightarrow> (Ret (Some err), c1, w\<lparr>dw_chat := s\<rparr>))
         | (None, c1) \<Rightarrow>
             (case write_events M history c1 of
                (Some err, c2) \<Rightarrow> Inl (leave (Ret None) c2 (w\<lparr>dw_chat := s1\<rparr>))
              | (None, c2) \<Rightarrow>
                  (case publish L (\<lambda>k. oth (Greeting k)) [Recv ch] roomName
                          (newSystemEvent (w_now w) (w_now w) roomName ''A participant joined the room.'') s1 of
                     (Some p, s2) \<Rightarrow> Inl (leave (Panic p) c2 (w\<lparr>dw_chat := s2\<rparr>))
                   | (None, s2) \<Rightarrow> Inr (roomName, sid, ch, c2, s2))))"

text \<open>
  The loop over the channel. A round lets the others act and then looks at the channel: an event in its buffer is
  taken and written, a closed and empty channel ends the loop, and an open and empty one blocks, so that the
  round only has made the wait longer. The first \<open>n\<close> rounds are run.
\<close>

fun chat_loop ::
    "golib \<Rightarrow> gvalue msgpack \<Rightarrow> others \<Rightarrow> nat \<Rightarrow> nat \<Rightarrow> nat \<Rightarrow> gvalue Context \<Rightarrow> hub_sys \<Rightarrow>
       goerr option \<times> gvalue Context \<times> hub_sys" where
  "chat_loop L M oth ch 0 k c s = (None, c, s)"
| "chat_loop L M oth ch (Suc n) k c s =
     (let s1 = others_run L [Recv ch] (oth (Waiting k)) s
      in case ch_buf (hub_chans (hs_hub s1) ! ch) of
           [] \<Rightarrow> if ch_closed (hub_chans (hs_hub s1) ! ch) then (None, c, s1)
                 else chat_loop L M oth ch n (Suc k) c s1
         | ev # _ \<Rightarrow>
             (case writeChatEvent M c ev of
                (Some err, c') \<Rightarrow> (Some err, c', hub_step L s1 (Recv ch))
              | (None, c') \<Rightarrow> chat_loop L M oth ch n (Suc k) c' (hub_step L s1 (Recv ch))))"

text \<open>
  The whole handler, when it returns. A session that is still waiting after \<open>n\<close> rounds is ended here as if its
  channel had been closed: the program has these runs only if the channel is closed (a handler that does not return
  is a stream that is not dispatched), so what is shown for all \<open>n\<close> covers them and more.
\<close>

definition chat_stream ::
    "golib \<Rightarrow> gvalue msgpack \<Rightarrow> others \<Rightarrow> nat \<Rightarrow> (gvalue, 'x demo_world_scheme) HandlerFunc" where
  "chat_stream L M oth n c w =
     (case chat_open L M oth c w of
        Inl res \<Rightarrow> res
      | Inr (roomName, sid, ch, c2, s2) \<Rightarrow>
          (case chat_loop L M oth ch n 0 c2 s2 of
             (Some err, c3, s3) \<Rightarrow> chat_leave L M oth roomName sid (Ret None) c3 (w\<lparr>dw_chat := s3\<rparr>)
           | (None, c3, s3) \<Rightarrow>
               chat_leave L M oth roomName sid (Ret None) c3
                 (log_to 0 LevelDebug ''chat subscriber stream ended''
                    [(''room'', LvStr roomName), (''subscriber'', LvStr sid)] (w\<lparr>dw_chat := s3\<rparr>))))"

definition chatPostBody :: gvalue where
  "chatPostBody = GMap [(''sender'', GStr []), (''clientId'', GStr []), (''text'', GStr [])]"

definition chat_post :: "golib \<Rightarrow> gvalue msgpack \<Rightarrow> others \<Rightarrow> (gvalue, 'x demo_world_scheme) HandlerFunc" where
  "chat_post L M oth c w =
     (let roomName = normalizeRoomName L (Ctx_Param c ''room'')
      in case Ctx_Bind M c chatPostBody of
           Inl err \<Rightarrow> answer (Ctx_Error M c 400 ''invalid chat payload'' []) w
         | Inr body \<Rightarrow>
             (let sender = sanitizeChatName (field_str body ''sender'');
                  text = TrimSpace (field_str body ''text'');
                  clientID = TrimSpace (field_str body ''clientId'')
              in if sender = [] then answer (Ctx_Error M c 400 ''sender is required'' []) w
                 else if text = [] then answer (Ctx_Error M c 400 ''text is required'' []) w
                 else if clientID = [] then answer (Ctx_Error M c 400 ''clientId is required'' []) w
                 else
                   (let event = \<lparr>ce_ID = ''msg-'' @ show_int (w_now w), ce_Kind = ''message'', ce_Room = roomName,
                          ce_Sender = sender, ce_ClientID = clientID, ce_Text = text,
                          ce_SentAt = w_now w div 1000000\<rparr>
                    in case publish L (\<lambda>k. oth (Posting k)) [] roomName event (dw_chat w) of
                         (Some p, s) \<Rightarrow> (Panic p, c, w\<lparr>dw_chat := s\<rparr>)
                       | (None, s) \<Rightarrow>
                           answer (Ctx_MsgPack M c 202
                             (GMap [(''accepted'', GBool True), (''id'', GStr (ce_ID event)),
                                    (''room'', GStr roomName)])) (w\<lparr>dw_chat := s\<rparr>))))"

section \<open>The application\<close>

definition ping_handler :: "gvalue msgpack \<Rightarrow> (gvalue, 'w) HandlerFunc" where
  "ping_handler M c w = answer (Ctx_MsgPack M c 200 (gstrings [(''pong'', ''ok'')])) w"

text \<open>What a waiting handler meets is a function of the state in which it starts.\<close>

definition streaming_app ::
    "golib \<Rightarrow> gvalue msgpack \<Rightarrow> ('x demo_world_scheme \<Rightarrow> int list) \<Rightarrow>
       ('x demo_world_scheme \<Rightarrow> others) \<Rightarrow> ('x demo_world_scheme \<Rightarrow> nat) \<Rightarrow>
       (gvalue, 'x demo_world_scheme) App" where
  "streaming_app L M ticks oth rounds =
     (let app = App_Use (App_New M) [Recovery M [], Logger []];
          app = App_GET L app ''/stream/ticks'' (\<lambda>c w. ticks_handler M (ticks w) c w);
          app = App_GET L app ''/stream/batch/:n'' (batch_handler M);
          app = App_GET L app ''/stream/slow/:n'' (slow_handler M);
          app = App_GET L app ''/chat/rooms/:room/stream'' (\<lambda>c w. chat_stream L M (oth w) (rounds w) c w);
          app = App_POST L app ''/chat/rooms/:room/messages'' (\<lambda>c w. chat_post L M (oth w) c w)
      in App_GET L app ''/ping'' (ping_handler M))"

end
