(* ===== verification/Chat_Session.thy ===== *)
theory Chat_Session
  imports Streaming_Demo
begin

text \<open>
  The chat handlers of the streaming demo, in a hub that other goroutines use at the same time. Whatever they do
  is a sequence of the hub's own steps (\<open>hub_moves\<close>), so what \<open>Chat\<close> and \<open>Chat_Delivery\<close> show of such sequences
  holds for the handlers and, through the contract \<open>hub_kept\<close> and the locale \<open>state_contract\<close>, for the
  whole server.
\<close>

section \<open>Every change of the hub is one of its steps\<close>

text \<open>From one state of the hub to another by events of which \<open>P\<close> holds.\<close>

definition hub_moves :: "golib \<Rightarrow> (hub_ev \<Rightarrow> bool) \<Rightarrow> hub_sys \<Rightarrow> hub_sys \<Rightarrow> bool" where
  "hub_moves L P s s' \<longleftrightarrow> (\<exists>es. list_all P es \<and> s' = foldl (hub_step L) s es)"

lemma hub_moves_refl [simp, intro]: "hub_moves L P s s"
  by (auto simp: hub_moves_def intro: exI [where x = "[]"])

lemma hub_moves_trans:
  assumes "hub_moves L P s s'" "hub_moves L P s' s''"
  shows "hub_moves L P s s''"
proof -
  from assms obtain es es' where "list_all P es" "s' = foldl (hub_step L) s es" "list_all P es'"
    "s'' = foldl (hub_step L) s' es'" by (auto simp: hub_moves_def)
  then have "list_all P (es @ es') \<and> s'' = foldl (hub_step L) s (es @ es')" by simp
  then show ?thesis unfolding hub_moves_def by blast
qed

lemma hub_moves_step: "P e \<Longrightarrow> hub_moves L P s (hub_step L s e)"
  by (auto simp: hub_moves_def intro!: exI [where x = "[e]"])

lemma hub_moves_mono:
  assumes "hub_moves L P s s'" "\<And>e. P e \<Longrightarrow> Q e"
  shows "hub_moves L Q s s'"
  using assms by (auto simp: hub_moves_def list_all_iff)


lemma others_moves: "\<forall>e \<in> set es. e \<notin> set own \<longrightarrow> P e \<Longrightarrow> hub_moves L P s (others_run L own es s)"
  by (auto simp: hub_moves_def others_run_def list_all_iff intro!: exI [where x = "filter (\<lambda>e. e \<notin> set own) es"])

text \<open>What a publish of a handler may do: its own steps, and what the others do meanwhile.\<close>

definition publishes :: "(nat \<Rightarrow> hub_ev list) \<Rightarrow> hub_ev list \<Rightarrow> (hub_ev \<Rightarrow> bool) \<Rightarrow> bool" where
  "publishes oth own P \<longleftrightarrow> (\<forall>room ev. P (PubLock room ev)) \<and> (\<forall>i. P (PubSend i)) \<and>
     (\<forall>k. \<forall>e \<in> set (oth k). e \<notin> set own \<longrightarrow> P e)"

lemma send_loop_moves:
  assumes "publishes oth own P"
  shows "hub_moves L P s (snd (send_loop L oth own i ev chs k s))"
proof (induction chs arbitrary: k s)
  case (Cons ch chs)
  let ?s1 = "others_run L (PubSend i # own) (oth k) s"
  have s1: "hub_moves L P s ?s1" by (rule others_moves) (use assms in \<open>simp add: publishes_def\<close>)
  have "hub_moves L P ?s1 (pub_send i ?s1)"
    using hub_moves_step [of P "PubSend i" L ?s1] assms by (simp add: publishes_def)
  with s1 Cons.IH show ?case by (auto simp: Let_def split: option.split intro: hub_moves_trans)
qed simp

lemma publish_moves:
  assumes "publishes oth own P" "publish L oth own room ev s = (p, s')"
  shows "hub_moves L P s s'"
proof -
  obtain ev' chs h where pl: "publish_locked L room ev (hs_hub s) = ((ev', chs), h)"
    by (cases "publish_locked L room ev (hs_hub s)") auto
  have "hub_moves L P s (hub_step L s (PubLock room ev))"
    by (rule hub_moves_step) (use assms(1) in \<open>simp add: publishes_def\<close>)
  with pl have "hub_moves L P s (s\<lparr>hs_hub := h, hs_pubs := hs_pubs s @ [(ev', chs)]\<rparr>)" by simp
  then have "hub_moves L P s (snd (publish L oth own room ev s))"
    using send_loop_moves [OF assms(1)] pl by (auto simp: publish_def intro: hub_moves_trans)
  with assms(2) show ?thesis by simp
qed

text \<open>The hub as \<open>Chat\<close> keeps it: the invariant of its channels, and no panic but a send on a closed channel.\<close>

definition hub_ok :: "hub_sys \<Rightarrow> bool" where
  "hub_ok s \<longleftrightarrow> hub_inv (hs_hub s) \<and> set (hs_panics s) \<subseteq> {''send on closed channel''}"



section \<open>A publish that nobody interrupts\<close>

lemma try_send_open:
  assumes "\<not> ch_closed (cs ! ch)"
  shows "fst (try_send ch ev cs) = None" "length (snd (try_send ch ev cs)) = length cs"
    "ch_closed (snd (try_send ch ev cs) ! i) = ch_closed (cs ! i) \<or> length cs \<le> i"
  using assms by (auto simp: try_send_def nth_update_at split: if_splits)

lemma others_none [simp]: "others_run L own [] s = s"
  by (simp add: others_run_def)

lemma send_loop_open:
  assumes "i < length (hs_pubs s)" "hs_pubs s ! i = (ev, chs)"
    and "list_all (\<lambda>ch. ch < length (hub_chans (hs_hub s)) \<and> \<not> ch_closed (hub_chans (hs_hub s) ! ch)) chs"
  shows "\<exists>s'. send_loop L (\<lambda>k. []) own i ev chs k s = (None, s') \<and> hub_rooms (hs_hub s') = hub_rooms (hs_hub s)"
  using assms
proof (induction chs arbitrary: k s)
  case (Cons ch chs)
  let ?cs = "hub_chans (hs_hub s)"
  have op: "\<not> ch_closed (?cs ! ch)" using Cons.prems(3) by simp
  note t = try_send_open [OF op]
  obtain cs' where ts: "try_send ch ev ?cs = (None, cs')" using t(1) [of ev] by (cases "try_send ch ev ?cs") auto
  let ?s = "s\<lparr>hs_hub := (hs_hub s)\<lparr>hub_chans := cs'\<rparr>, hs_pubs := (hs_pubs s)[i := (ev, chs)]\<rparr>"
  have step: "pub_send i s = ?s" using Cons.prems(1,2) ts by (simp add: pub_send_def note_panic_def)
  have "list_all (\<lambda>ch. ch < length cs' \<and> \<not> ch_closed (cs' ! ch)) chs"
    using Cons.prems(3) t(2) [of ev] t(3) [of ev] ts by (auto simp: list_all_iff) (metis linorder_not_le)
  with Cons.prems(1) have "\<exists>s'. send_loop L (\<lambda>k. []) own i ev chs (Suc k) ?s = (None, s') \<and>
      hub_rooms (hs_hub s') = hub_rooms (hs_hub ?s)" by (intro Cons.IH) simp_all
  with step ts show ?case by simp
qed simp

lemma publish_quiet:
  assumes "hub_inv (hs_hub s)"
  obtains s' where "publish L (\<lambda>k. []) own room ev s = (None, s')"
    "hub_rooms (hs_hub s') = hub_rooms (snd (publish_locked L room ev (hs_hub s)))"
proof -
  let ?n = "normalizeRoomName L room"
  obtain ev' chs h where pl: "publish_locked L room ev (hs_hub s) = ((ev', chs), h)"
    by (cases "publish_locked L room ev (hs_hub s)") auto
  obtain rm h2 where e: "ensureRoomLocked ?n (hs_hub s) = (rm, h2)" by (cases "ensureRoomLocked ?n (hs_hub s)")
  have chs: "chs = map snd (cr_subscribers rm)" and h: "hub_chans h = hub_chans (hs_hub s)"
    using pl e ensure_history [OF e] by (auto simp: publish_locked_def Let_def)
  have "\<exists>sid. sub_at (hs_hub s) ?n sid ch" if "ch \<in> set chs" for ch
    using that sub_at_ensure [OF e] by (auto simp: chs) blast
  with assms have "list_all (\<lambda>ch. ch < length (hub_chans h) \<and> \<not> ch_closed (hub_chans h ! ch)) chs"
    unfolding h hub_inv_def list_all_iff by blast
  then have "\<exists>s'. send_loop L (\<lambda>k. []) own (length (hs_pubs s)) ev' chs 0
      (s\<lparr>hs_hub := h, hs_pubs := hs_pubs s @ [(ev', chs)]\<rparr>) = (None, s') \<and>
      hub_rooms (hs_hub s') = hub_rooms (hs_hub (s\<lparr>hs_hub := h, hs_pubs := hs_pubs s @ [(ev', chs)]\<rparr>))"
    by (intro send_loop_open) simp_all
  with pl that show ?thesis by (auto simp: publish_def)
qed

lemma publish_locked_history:
  "history_of (snd (publish_locked L room ev h)) r =
     (if normalizeRoomName L room = r then trim_history (history_of h r @ [ev\<lparr>ce_Room := r\<rparr>]) else history_of h r)"
  using hub_step_history [of L "\<lparr>hs_hub = h, hs_pubs = [], hs_panics = []\<rparr>" "PubLock room ev" r]
  by (simp add: case_prod_beta)

section \<open>Subscriptions that end\<close>









section \<open>Contracts\<close>

lemma writeChatEvent_reach: "writeChatEvent M c ev = (r, c') \<Longrightarrow> api_reach M c c'"
  by (auto simp: writeChatEvent_def api_reach.start intro: ctx_sw_Write_reach
      split: sum.splits prod.splits option.splits)

lemma write_events_reach: "write_events M evs c = (r, c') \<Longrightarrow> api_reach M c c'"
proof (induction evs arbitrary: c)
  case (Cons ev evs)
  obtain e c1 where w: "writeChatEvent M c ev = (e, c1)" by (cases "writeChatEvent M c ev")
  with Cons show ?case
    by (cases e) (auto intro: writeChatEvent_reach api_reach_trans)
qed (simp add: api_reach.start)

lemma chat_leave_reach: "chat_leave L M oth n sid r c w = (r', c', w') \<Longrightarrow> api_reach M c c'"
  by (auto simp: chat_leave_def api_reach.start split: prod.splits option.splits
      intro!: api_reach_call [where op = OpClose and r = "fst (ctx_sw_Close M c)"])

lemma chat_loop_reach: "chat_loop L M oth ch n k c s = (r, c', s') \<Longrightarrow> api_reach M c c'"
proof (induction n arbitrary: k c s)
  case (Suc n)
  let ?s1 = "others_run L [Recv ch] (oth (Waiting k)) s"
  show ?case
  proof (cases "ch_buf (hub_chans (hs_hub ?s1) ! ch)")
    case Nil
    with Suc show ?thesis by (auto simp: Let_def api_reach.start split: if_splits)
  next
    case (Cons ev evs)
    obtain e c1 where w: "writeChatEvent M c ev = (e, c1)" by (cases "writeChatEvent M c ev")
    note r = writeChatEvent_reach [OF w]
    show ?thesis
    proof (cases e)
      case None
      with Suc.prems Cons w have "api_reach M c1 c'" by (intro Suc.IH) (simp add: Let_def)
      then show ?thesis by (rule api_reach_trans [OF _ r])
    next
      case (Some err)
      with Suc.prems Cons w r show ?thesis by (simp add: Let_def)
    qed
  qed
qed (simp add: api_reach.start)

text \<open>What is known of the handler when it has opened its session, and when it has ended before that.\<close>

lemma chat_open_cases:
  assumes "chat_open L M oth c w = x"
  obtains hist e1 c1 s1 where
    "s1 = others_run L [Recv (length (hub_chans (hs_hub (dw_chat w))))] (oth Opening)
       (hub_step L (dw_chat w) (Subscribe (normalizeRoomName L (Ctx_Param c ''room'')) (w_now w)))"
    "hist = history_of (hs_hub (dw_chat w)) (normalizeRoomName L (normalizeRoomName L (Ctx_Param c ''room'')))"
    "Ctx_NewStream M c 200 (Some [''x-stream'' \<mapsto> ''chat-room'']) = (e1, c1)"
    "(\<exists>err p s. e1 = Some err \<and>
        call_unsubscribe L (normalizeRoomName L (Ctx_Param c ''room'')) (''sub-'' @ show_int (w_now w)) s1 = (p, s) \<and>
        x = Inl (case p of Some v \<Rightarrow> Panic v | None \<Rightarrow> Ret (Some err), c1, w\<lparr>dw_chat := s\<rparr>)) \<or>
     (\<exists>err c2. e1 = None \<and> write_events M hist c1 = (Some err, c2) \<and>
        x = Inl (chat_leave L M oth (normalizeRoomName L (Ctx_Param c ''room'')) (''sub-'' @ show_int (w_now w)) (Ret None) c2
          (w\<lparr>dw_chat := s1\<rparr>))) \<or>
     (\<exists>c2 p s2. e1 = None \<and> write_events M hist c1 = (None, c2) \<and>
        publish L (\<lambda>k. oth (Greeting k)) [Recv (length (hub_chans (hs_hub (dw_chat w))))]
          (normalizeRoomName L (Ctx_Param c ''room''))
          (newSystemEvent (w_now w) (w_now w) (normalizeRoomName L (Ctx_Param c ''room'')) ''A participant joined the room.'')
          s1 = (p, s2) \<and>
        x = (case p of
               Some v \<Rightarrow> Inl (chat_leave L M oth (normalizeRoomName L (Ctx_Param c ''room'')) (''sub-'' @ show_int (w_now w))
                 (Panic v) c2 (w\<lparr>dw_chat := s2\<rparr>))
             | None \<Rightarrow> Inr (normalizeRoomName L (Ctx_Param c ''room''), ''sub-'' @ show_int (w_now w),
                 length (hub_chans (hs_hub (dw_chat w))), c2, s2)))"
proof -
  let ?n = "normalizeRoomName L (Ctx_Param c ''room'')" and ?h = "hs_hub (dw_chat w)"
  obtain sid hist ch h1 where sub: "subscribe L (w_now w) ?n ?h = ((sid, hist, ch), h1)" by (metis prod.exhaust_sel)
  have x: "sid = ''sub-'' @ show_int (w_now w)" "ch = length (hub_chans ?h)"
    using sub by (auto simp: subscribe_def Let_def split: prod.splits)
  have hist: "hist = history_of ?h (normalizeRoomName L ?n)" using subscribe_history [of L "w_now w" ?n ?h] sub by simp
  obtain e1 c1 where ns: "Ctx_NewStream M c 200 (Some [''x-stream'' \<mapsto> ''chat-room'']) = (e1, c1)"
    by (cases "Ctx_NewStream M c 200 (Some [''x-stream'' \<mapsto> ''chat-room''])")
  obtain e2 c2 where w: "write_events M hist c1 = (e2, c2)" by (cases "write_events M hist c1")
  show ?thesis
    by (rule that [OF refl hist ns])
      (use assms ns w in \<open>auto simp: chat_open_def sub x Let_def split: prod.splits option.splits\<close>)
qed

lemma chat_open_within:
  assumes "chat_open L M oth c w = x"
  shows "api_reach M c (case x of Inl res \<Rightarrow> fst (snd res) | Inr (n, sid, ch, c', s) \<Rightarrow> c')"
proof -
  from assms obtain hist e1 c1 s1 where
    ns: "Ctx_NewStream M c 200 (Some [''x-stream'' \<mapsto> ''chat-room'']) = (e1, c1)"
    and x: "(\<exists>err p s. e1 = Some err \<and>
        call_unsubscribe L (normalizeRoomName L (Ctx_Param c ''room'')) (''sub-'' @ show_int (w_now w)) s1 = (p, s) \<and>
        x = Inl (case p of Some v \<Rightarrow> Panic v | None \<Rightarrow> Ret (Some err), c1, w\<lparr>dw_chat := s\<rparr>)) \<or>
     (\<exists>err c2. e1 = None \<and> write_events M hist c1 = (Some err, c2) \<and>
        x = Inl (chat_leave L M oth (normalizeRoomName L (Ctx_Param c ''room'')) (''sub-'' @ show_int (w_now w)) (Ret None) c2
          (w\<lparr>dw_chat := s1\<rparr>))) \<or>
     (\<exists>c2 p s2. e1 = None \<and> write_events M hist c1 = (None, c2) \<and>
        x = (case p of
               Some v \<Rightarrow> Inl (chat_leave L M oth (normalizeRoomName L (Ctx_Param c ''room'')) (''sub-'' @ show_int (w_now w))
                 (Panic v) c2 (w\<lparr>dw_chat := s2\<rparr>))
             | None \<Rightarrow> Inr (normalizeRoomName L (Ctx_Param c ''room''), ''sub-'' @ show_int (w_now w),
                 length (hub_chans (hs_hub (dw_chat w))), c2, s2)))"
    by (rule chat_open_cases) blast
  have r1: "api_reach M c c1"
    using ns by (intro api_reach_call [where op = "OpNewStream 200 (Some [''x-stream'' \<mapsto> ''chat-room''])"]) simp
  have leave: "api_reach M c2 (fst (snd (chat_leave L M oth n sid r c2 v)))" for n sid r c2 and v :: "'a demo_world_scheme"
    by (rule chat_leave_reach [where r' = "fst (chat_leave L M oth n sid r c2 v)" and
          w' = "snd (snd (chat_leave L M oth n sid r c2 v))"]) simp
  have "api_reach M c c2" if "write_events M hist c1 = (e2, c2)" for e2 c2
    using api_reach_trans [OF write_events_reach [OF that] r1] .
  with x r1 show ?thesis by (auto split: option.split intro: api_reach_trans [OF leave])
qed

lemma chat_stream_within: "handler_within (api_reach M) (chat_stream L M oth n)"
  unfolding handler_within_def
proof (intro allI)
  fix c :: "gvalue Context" and w :: "'a demo_world_scheme"
  note opn = chat_open_within [OF refl, of M c L oth w]
  show "api_reach M c (fst (snd (chat_stream L M oth n c w)))"
  proof (cases "chat_open L M oth c w")
    case (Inl res)
    with opn show ?thesis by (simp add: chat_stream_def)
  next
    case (Inr y)
    obtain room sid ch c2 s2 where y: "y = (room, sid, ch, c2, s2)" by (cases y) auto
    obtain e c3 s3 where l: "chat_loop L M oth ch n 0 c2 s2 = (e, c3, s3)" by (metis prod.exhaust_sel)
    have "api_reach M c c3" using api_reach_trans [OF chat_loop_reach [OF l]] opn Inr y by simp
    moreover have "api_reach M c3 (fst (snd (chat_leave L M oth room sid r c3 v)))" for r and v :: "'a demo_world_scheme"
      by (rule chat_leave_reach [where r' = "fst (chat_leave L M oth room sid r c3 v)" and
            w' = "snd (snd (chat_leave L M oth room sid r c3 v))"]) simp
    ultimately show ?thesis
      using Inr y l by (cases e) (auto simp: chat_stream_def intro: api_reach_trans)
  qed
qed

lemma chat_post_within: "handler_within (api_reach M) (chat_post L M oth)"
  by (auto simp: handler_within_def chat_post_def Let_def api_reach.start
      split: sum.split prod.split option.split)

lemma streaming_app_within: "app_within (api_reach M) (streaming_app L M ticks oth rounds)"
proof -
  have "handler_within (api_reach M) (\<lambda>c w. ticks_handler M (ticks w) c w)"
    "handler_within (api_reach M) (batch_handler M)" "handler_within (api_reach M) (slow_handler M)"
    by (simp_all add: handler_within_def ticks_handler_def batch_handler_def slow_handler_def Let_def)
  moreover have "handler_within (api_reach M) (\<lambda>c w. chat_stream L M (oth w) (rounds w) c w)"
    using chat_stream_within unfolding handler_within_def by blast
  moreover have "handler_within (api_reach M) (\<lambda>c w. chat_post L M (oth w) c w)"
    using chat_post_within unfolding handler_within_def by blast
  moreover have "handler_within (api_reach M) (ping_handler M)"
    by (simp add: handler_within_def ping_handler_def)
  ultimately show ?thesis
    unfolding streaming_app_def Let_def App_GET_def App_POST_def
    by (intro api.addRoute_within api.Use_within App_New_within)
      (simp_all add: Recovery_within Logger_within)
qed


















section \<open>The stream of a chat session\<close>

text \<open>A StreamWriter that is open, and the chunks that a list of events becomes.\<close>

definition writer_at :: "string \<Rightarrow> nat \<Rightarrow> gvalue Context \<Rightarrow> bool" where
  "writer_at i n c \<longleftrightarrow> (\<exists>sw. ctx_writer c = Some sw \<and> \<not> sw_closed sw \<and> sw_requestID sw = i \<and> sw_seq sw = word_of_nat n)"

definition chunks_written :: "gvalue msgpack \<Rightarrow> string \<Rightarrow> nat \<Rightarrow> gvalue Context \<Rightarrow> chatEvent list \<Rightarrow> gvalue Context \<Rightarrow> bool" where
  "chunks_written M i n c evs c' \<longleftrightarrow> (\<exists>ds. map (\<lambda>e. Marshal M (PValue (event_value e))) evs = map Inr ds \<and>
     tx (ctx_stream c') = tx (ctx_stream c) @ wire_bytes M (chunk_msgs i n ds))"

lemma WriteFrame_sent: "WriteFrame M s (msg_type m) (msg_payload m) = (None, s') \<Longrightarrow> tx s' = tx s @ wire_bytes M [m]"
  by (elim WriteFrame_ok) (simp add: msg_frame_def)

lemma writeChatEvent_written:
  assumes "writer_at i n c" "writeChatEvent M c ev = (None, c')"
  shows "chunks_written M i n c [ev] c' \<and> writer_at i (Suc n) c'"
proof -
  from assms(1) obtain sw where sw: "ctx_writer c = Some sw" "\<not> sw_closed sw" "sw_requestID sw = i" "sw_seq sw = word_of_nat n"
    by (auto simp: writer_at_def)
  from assms(2) obtain d k where d: "Marshal M (PValue (event_value ev)) = Inr d" "ctx_sw_Write M c d = ((k, None), c')"
    by (auto simp: writeChatEvent_def split: sum.splits prod.splits option.splits)
  let ?m = "data_msg i n d"
  obtain r s' where w: "WriteFrame M (ctx_stream c) (msg_type ?m) (msg_payload ?m) = (r, s')" by fastforce
  with d(2) sw have "r = None" "c' = c\<lparr>ctx_writer := Some (sw\<lparr>sw_seq := sw_seq sw + 1\<rparr>), ctx_stream := s'\<rparr>"
    by (auto simp: ctx_sw_Write_def StreamWriter_Write_def data_msg_def Let_def split: option.splits)
  with WriteFrame_sent [of M "ctx_stream c" ?m s'] w sw d(1) show ?thesis
    by (auto simp: chunks_written_def writer_at_def intro!: exI [where x = "[d]"])
qed

lemma chunk_msgs_append: "chunk_msgs i n (xs @ ys) = chunk_msgs i n xs @ chunk_msgs i (n + length xs) ys"
  by (induction xs arbitrary: n) simp_all

lemma chunks_trans:
  assumes "chunks_written M i n c evs c'" "chunks_written M i (n + length evs) c' evs' c''"
  shows "chunks_written M i n c (evs @ evs') c''"
proof -
  from assms obtain ds ds' where
    ds: "map (\<lambda>e. Marshal M (PValue (event_value e))) evs = map Inr ds"
      "tx (ctx_stream c') = tx (ctx_stream c) @ wire_bytes M (chunk_msgs i n ds)"
      "map (\<lambda>e. Marshal M (PValue (event_value e))) evs' = map Inr ds'"
      "tx (ctx_stream c'') = tx (ctx_stream c') @ wire_bytes M (chunk_msgs i (n + length evs) ds')"
    unfolding chunks_written_def by blast
  have "length evs = length ds" using arg_cong [OF ds(1), of length] by simp
  with ds have "map (\<lambda>e. Marshal M (PValue (event_value e))) (evs @ evs') = map Inr (ds @ ds') \<and>
      tx (ctx_stream c'') = tx (ctx_stream c) @ wire_bytes M (chunk_msgs i n (ds @ ds'))" by (simp add: chunk_msgs_append)
  then show ?thesis unfolding chunks_written_def by blast
qed

lemma chunks_none [simp]: "chunks_written M i n c [] c"
  by (simp add: chunks_written_def)

lemma write_events_written:
  assumes "writer_at i n c" "write_events M evs c = (None, c')"
  shows "chunks_written M i n c evs c' \<and> writer_at i (n + length evs) c'"
  using assms
proof (induction evs arbitrary: n c)
  case (Cons ev evs)
  then obtain c1 where w: "writeChatEvent M c ev = (None, c1)" "write_events M evs c1 = (None, c')"
    by (auto split: prod.splits option.splits)
  note w1 = writeChatEvent_written [OF Cons.prems(1) w(1)]
  with Cons.IH [OF _ w(2), of "Suc n"] have "chunks_written M i (Suc n) c1 evs c'" "writer_at i (Suc n + length evs) c'" by auto
  with chunks_trans [of M i n c "[ev]" c1 evs c'] w1 show ?case by simp
qed simp

text \<open>The loop writes what it takes from the channel.\<close>

lemma chat_loop_written:
  assumes "chat_loop L M oth ch n k c s = (None, c', s')" "writer_at i m c"
  shows "\<exists>es. s' = foldl (hub_step L) s es \<and> chunks_written M i m c (taken L ch s es) c'"
  using assms
proof (induction n arbitrary: k c s m)
  case 0
  then show ?case by (intro exI [where x = "[]"]) simp
next
  case (Suc n)
  let ?es = "filter (\<lambda>e. e \<notin> set [Recv ch]) (oth (Waiting k))"
  let ?s1 = "others_run L [Recv ch] (oth (Waiting k)) s"
  have s1: "?s1 = foldl (hub_step L) s ?es" by (simp add: others_run_def)
  have none: "taken L ch s ?es = []" by (rule taken_others) simp
  show ?case
  proof (cases "ch_buf (hub_chans (hs_hub ?s1) ! ch)")
    case Nil
    show ?thesis
    proof (cases "ch_closed (hub_chans (hs_hub ?s1) ! ch)")
      case True
      with Nil Suc.prems have "s' = ?s1" "c' = c" by (simp_all add: Let_def)
      with s1 none show ?thesis by (intro exI [where x = ?es]) simp
    next
      case False
      with Nil Suc.prems(1) have "chat_loop L M oth ch n (Suc k) c ?s1 = (None, c', s')" by (simp add: Let_def)
      from Suc.IH [OF this Suc.prems(2)] obtain es where
        "s' = foldl (hub_step L) ?s1 es" "chunks_written M i m c (taken L ch ?s1 es) c'" by blast
      with s1 none show ?thesis by (intro exI [where x = "?es @ es"]) (simp add: taken_append)
    qed
  next
    case (Cons ev evs)
    with Suc.prems(1) obtain c1 where w: "writeChatEvent M c ev = (None, c1)"
      "chat_loop L M oth ch n (Suc k) c1 (hub_step L ?s1 (Recv ch)) = (None, c', s')"
      by (auto simp: Let_def simp del: hub_step.simps split: prod.splits option.splits)
    note w1 = writeChatEvent_written [OF Suc.prems(2) w(1)]
    from Suc.IH [OF w(2)] w1 obtain es where es: "s' = foldl (hub_step L) (hub_step L ?s1 (Recv ch)) es"
      "chunks_written M i (Suc m) c1 (taken L ch (hub_step L ?s1 (Recv ch)) es) c'" by blast
    let ?all = "?es @ Recv ch # es"
    have "taken L ch s ?all = [ev] @ taken L ch (hub_step L ?s1 (Recv ch)) es"
      using none s1 Cons by (simp add: taken_append del: hub_step.simps)
    moreover have "s' = foldl (hub_step L) s ?all" using es(1) s1 by (simp del: hub_step.simps)
    ultimately show ?thesis
      using chunks_trans [of M i m c "[ev]" c1 _ c'] w1 es(2) by (intro exI [where x = ?all]) simp
  qed
qed

definition chat_response :: "string \<Rightarrow> msg" where
  "chat_response i = MResp \<lparr>resp_ID = i, resp_Status = 200, resp_Headers = Some [''x-stream'' \<mapsto> ''chat-room''],
     resp_Body = [], resp_Stream = True\<rparr>"

lemma NewStream_written:
  assumes "Ctx_NewStream M c 200 (Some [''x-stream'' \<mapsto> ''chat-room'']) = (None, c1)"
  shows "tx (ctx_stream c1) = tx (ctx_stream c) @ wire_bytes M [chat_response (Ctx_RequestID c)] \<and>
    writer_at (Ctx_RequestID c) 0 c1"
proof -
  let ?m = "chat_response (Ctx_RequestID c)"
  obtain r s' where w: "WriteFrame M (ctx_stream c) (msg_type ?m) (msg_payload ?m) = (r, s')" by fastforce
  with assms have "r = None" "ctx_stream c1 = s'"
    "ctx_writer c1 = Some \<lparr>sw_requestID = Ctx_RequestID c, sw_seq = 0, sw_closed = False\<rparr>"
    by (auto simp: Ctx_NewStream_def ctx_write_def Ctx_RequestID_def chat_response_def split: if_splits option.splits)
  with WriteFrame_sent [of M "ctx_stream c" ?m s'] w show ?thesis by (simp add: writer_at_def)
qed

lemma chat_open_written:
  assumes "chat_open L M oth c w = Inr (room, sid, ch, c1, s1)" "hist = history_of (hs_hub (dw_chat w)) (normalizeRoomName L room)"
  shows "room = normalizeRoomName L (Ctx_Param c ''room'')" "ch = length (hub_chans (hs_hub (dw_chat w)))"
    "\<exists>c0. tx (ctx_stream c0) = tx (ctx_stream c) @ wire_bytes M [chat_response (Ctx_RequestID c)] \<and>
       chunks_written M (Ctx_RequestID c) 0 c0 hist c1"
    "writer_at (Ctx_RequestID c) (length hist) c1"
    "\<exists>es. Recv ch \<notin> set es \<and> s1 = foldl (hub_step L) (hub_step L (dw_chat w) (Subscribe room (w_now w))) es"
proof -
  let ?n = "normalizeRoomName L (Ctx_Param c ''room'')" and ?ch = "length (hub_chans (hs_hub (dw_chat w)))"
  let ?s0 = "hub_step L (dw_chat w) (Subscribe ?n (w_now w))"
  from assms(1) obtain hs e1 c0 s where o: "s = others_run L [Recv ?ch] (oth Opening) ?s0"
    "hs = history_of (hs_hub (dw_chat w)) (normalizeRoomName L ?n)"
    "Ctx_NewStream M c 200 (Some [''x-stream'' \<mapsto> ''chat-room'']) = (e1, c0)" "e1 = None"
    "write_events M hs c0 = (None, c1)" "room = ?n" "ch = ?ch"
    "\<exists>ev. publish L (\<lambda>k. oth (Greeting k)) [Recv ?ch] ?n ev s = (None, s1)"
    by (rule chat_open_cases) (auto split: option.splits)
  show "room = ?n" "ch = ?ch" by (rule o(6), rule o(7))
  have hist: "hist = hs" using assms(2) o(2,6) by simp
  note ns = NewStream_written [OF o(3) [unfolded o(4)]]
  with write_events_written [OF _ o(5), of "Ctx_RequestID c" 0] hist
  show "\<exists>c0. tx (ctx_stream c0) = tx (ctx_stream c) @ wire_bytes M [chat_response (Ctx_RequestID c)] \<and>
       chunks_written M (Ctx_RequestID c) 0 c0 hist c1" "writer_at (Ctx_RequestID c) (length hist) c1" by auto
  have m: "hub_moves L (\<lambda>e. e \<noteq> Recv ?ch) ?s0 s" unfolding o(1) by (rule others_moves) simp
  from o(8) obtain ev where pb: "publish L (\<lambda>k. oth (Greeting k)) [Recv ?ch] ?n ev s = (None, s1)" by blast
  have "hub_moves L (\<lambda>e. e \<noteq> Recv ?ch) s s1" by (rule publish_moves [OF _ pb]) (simp add: publishes_def)
  from hub_moves_trans [OF m this] show "\<exists>es. Recv ch \<notin> set es \<and> s1 = foldl (hub_step L) (hub_step L (dw_chat w) (Subscribe room (w_now w))) es"
    unfolding o(6,7) hub_moves_def list_all_iff by blast
qed

section \<open>Properties of the streaming demo\<close>

text \<open>
  C21: What a chat subscriber sees. Take any earlier life of the hub, anything other goroutines do to it while the
  session is open, and a session that has got into its loop and made any number of rounds without a failed
  write. Its stream then carries the announcing response, the last 120 events published to the room before the
  session subscribed, and the events it has taken from its own channel, one chunk each, in order and numbered
  without gaps. These events were published to the room after it subscribed, and none more often than it was
  published. (There is no end chunk: the loop goes on until a write fails or its channel is closed, and the channel
  is closed only by the session itself after the loop, see \<open>chat_channel_stays_open\<close>.)
\<close>

theorem chat_session_wire:
  assumes "dw_chat w = hub_run L es0" "chat_open L M oth c w = Inr (room, sid, ch, c1, s1)"
    and "chat_loop L M oth ch n 0 c1 s1 = (None, c2, s2)"
  shows "\<exists>history received ds es. s2 = hub_run L (es0 @ Subscribe room (w_now w) # es) \<and>
    history = (let published = room_log L (normalizeRoomName L room) es0 in drop (length published - chatHistoryLimit) published) \<and>
    received = taken L ch (hub_run L (es0 @ [Subscribe room (w_now w)])) es \<and>
    map (\<lambda>e. Marshal M (PValue (event_value e))) (history @ received) = map Inr ds \<and>
    tx (ctx_stream c2) = tx (ctx_stream c) @ wire_bytes M (chat_response (Ctx_RequestID c) # chunk_msgs (Ctx_RequestID c) 0 ds) \<and>
    mset received \<subseteq># mset (room_log L (normalizeRoomName L room) es)"
proof -
  let ?i = "Ctx_RequestID c" and ?hist = "history_of (hs_hub (dw_chat w)) (normalizeRoomName L room)"
  note o = chat_open_written [OF assms(2) refl]
  from o(3) obtain c0 where c0: "tx (ctx_stream c0) = tx (ctx_stream c) @ wire_bytes M [chat_response ?i]"
    "chunks_written M ?i 0 c0 ?hist c1" by blast
  from o(5) obtain es1 where es1: "Recv ch \<notin> set es1"
    "s1 = foldl (hub_step L) (hub_run L (es0 @ [Subscribe room (w_now w)])) es1" by (auto simp: assms(1) hub_run_snoc)
  from chat_loop_written [OF assms(3) o(4)] obtain es2 where es2: "s2 = foldl (hub_step L) s1 es2"
    "chunks_written M ?i (length ?hist) c1 (taken L ch s1 es2) c2" by blast
  let ?es = "es1 @ es2" and ?got = "taken L ch (hub_run L (es0 @ [Subscribe room (w_now w)])) (es1 @ es2)"
  have got: "taken L ch s1 es2 = ?got" using taken_others [OF es1(1)] es1(2) by (simp add: taken_append)
  from chunks_trans [OF c0(2), of "taken L ch s1 es2" c2] es2(2) obtain ds where
    ds: "map (\<lambda>e. Marshal M (PValue (event_value e))) (?hist @ ?got) = map Inr ds"
      "tx (ctx_stream c2) = tx (ctx_stream c0) @ wire_bytes M (chunk_msgs ?i 0 ds)"
    by (auto simp: chunks_written_def got simp del: map_append)
  have "s2 = hub_run L (es0 @ Subscribe room (w_now w) # ?es)" using es1(2) es2(1) by (simp add: hub_run_def)
  moreover have "?hist = (let published = room_log L (normalizeRoomName L room) es0
      in drop (length published - chatHistoryLimit) published)" by (simp add: assms(1) hub_history Let_def)
  moreover have "mset ?got \<subseteq># mset (room_log L (normalizeRoomName L room) ?es)"
    using delivered_once [of L es0 room "w_now w" ?es] unfolding o(2) assms(1) by (rule subset_mset.order_trans [rotated]) simp
  ultimately show ?thesis using ds c0(1) by (intro exI [where x = ?hist] exI [where x = ?got] exI [where x = ds] exI [where x = ?es]) simp
qed

definition demo_state :: demo_world where
  "demo_state = \<lparr>w_now = 5, w_logs = [], dw_chat = hub_start\<rparr>"

lemma demo_hub: "dw_chat demo_state = hub_run L []" "dw_chat demo_state = hub_start" "hub_ok (dw_chat demo_state)"
  by (simp_all add: demo_state_def hub_run_def hub_start_def hub_ok_def newChatHub_def hub_inv_def sub_at_def)

definition room_ctx :: "gvalue Context" where
  "room_ctx = setParams (newContext None sample_req sample_peer fresh_stream) (Some [''room'' \<mapsto> ''a''])"

text \<open>A session in an empty room: its greeting is the one event its first round takes from the channel.\<close>

definition nobody :: others where
  "nobody p = []"

definition demo_opened :: "string \<times> string \<times> nat \<times> gvalue Context \<times> hub_sys" where
  "demo_opened = (case chat_open sample_lib demo_msgpack nobody room_ctx demo_state of Inr x \<Rightarrow> x)"

definition demo_looped :: "goerr option \<times> gvalue Context \<times> hub_sys" where
  "demo_looped = (case demo_opened of (room, sid, ch, c1, s1) \<Rightarrow> chat_loop sample_lib demo_msgpack nobody ch 1 0 c1 s1)"

lemma demo_opened_eval:
  "\<exists>room sid ch c1 s1. chat_open sample_lib demo_msgpack nobody room_ctx demo_state = Inr (room, sid, ch, c1, s1) \<and>
     demo_opened = (room, sid, ch, c1, s1) \<and> fst demo_looped = None \<and> ch_buf (hub_chans (hs_hub s1) ! ch) \<noteq> []"
  by (simp add: demo_opened_def demo_looped_def chat_open_def nobody_def demo_state_def hub_start_def newChatHub_def subscribe_def
      ensureRoomLocked_def Let_def Ctx_NewStream_def ctx_write_def room_ctx_def setParams_def newContext_def WriteFrame_def
      demo_msgpack_def frameLen_def MaxFrameSize_def io_Write_def fresh_stream_def publish_def publish_locked_def try_send_def
      pub_send_def note_panic_def writeChatEvent_def ctx_sw_Write_def StreamWriter_Write_def chan_recv_def others_run_def
      Ctx_Param_def)

theorem chat_session_wire_witness:
  "\<exists>room sid ch c1 s1. demo_opened = (room, sid, ch, c1, s1) \<and>
   (\<exists>history received ds es. snd (snd demo_looped) = hub_run sample_lib ([] @ Subscribe room (w_now demo_state) # es) \<and>
    history = (let published = room_log sample_lib (normalizeRoomName sample_lib room) []
               in drop (length published - chatHistoryLimit) published) \<and>
    received = taken sample_lib ch (hub_run sample_lib ([] @ [Subscribe room (w_now demo_state)])) es \<and>
    map (\<lambda>e. Marshal demo_msgpack (PValue (event_value e))) (history @ received) = map Inr ds \<and>
    tx (ctx_stream (fst (snd demo_looped))) = tx (ctx_stream room_ctx) @
      wire_bytes demo_msgpack (chat_response (Ctx_RequestID room_ctx) # chunk_msgs (Ctx_RequestID room_ctx) 0 ds) \<and>
    mset received \<subseteq># mset (room_log sample_lib (normalizeRoomName sample_lib room) es))"
proof -
  from demo_opened_eval obtain room sid ch c1 s1 where
    o: "chat_open sample_lib demo_msgpack nobody room_ctx demo_state = Inr (room, sid, ch, c1, s1)"
      "demo_opened = (room, sid, ch, c1, s1)" "fst demo_looped = None" by blast
  have l: "chat_loop sample_lib demo_msgpack nobody ch 1 0 c1 s1 = (None, fst (snd demo_looped), snd (snd demo_looped))"
    using o(2,3) by (metis demo_looped_def prod.case prod.collapse)
  from chat_session_wire [OF demo_hub(1) o(1) l] o(2) show ?thesis by blast
qed



text \<open>
  A posted message. A body whose sender, text and client ID are not blank is accepted with status
  202 and becomes the last event of the room's history (which keeps at most 120), with the sender cut
  to 32 bytes and the other fields trimmed; any other body changes nothing and is answered 400. (Here nobody
  interferes with the sends; if somebody does, one of them can panic.)
\<close>

theorem chat_post_spec:
  assumes "hub_inv (hs_hub (dw_chat w))" "\<And>k. oth (Posting k) = []" "Ctx_Bind M c chatPostBody = Inr body"
    and "sender = sanitizeChatName (field_str body ''sender'')" "txt = TrimSpace (field_str body ''text'')"
    and "client = TrimSpace (field_str body ''clientId'')" "n = normalizeRoomName L (Ctx_Param c ''room'')"
    and "ev = \<lparr>ce_ID = ''msg-'' @ show_int (w_now w), ce_Kind = ''message'', ce_Room = normalizeRoomName L n,
      ce_Sender = sender, ce_ClientID = client, ce_Text = txt, ce_SentAt = w_now w div 1000000\<rparr>"
  shows "if sender = [] \<or> txt = [] \<or> client = []
    then \<exists>m. chat_post L M oth c w = answer (Ctx_Error M c 400 m []) w
    else length sender \<le> 32 \<and> (\<exists>s'. chat_post L M oth c w = answer (Ctx_MsgPack M c 202
           (GMap [(''accepted'', GBool True), (''id'', GStr (''msg-'' @ show_int (w_now w))), (''room'', GStr n)]))
           (w\<lparr>dw_chat := s'\<rparr>) \<and>
         history_of (hs_hub s') (normalizeRoomName L n) =
           trim_history (history_of (hs_hub (dw_chat w)) (normalizeRoomName L n) @ [ev]))"
proof (cases "sender = [] \<or> txt = [] \<or> client = []")
  case True
  with assms(3-6) show ?thesis by (auto simp: chat_post_def Let_def)
next
  case False
  let ?ev = "ev\<lparr>ce_Room := n\<rparr>"
  have none: "(\<lambda>k. oth (Posting k)) = (\<lambda>k. [])" by (simp add: assms(2))
  obtain s' where pb: "publish L (\<lambda>k. oth (Posting k)) [] n ?ev (dw_chat w) = (None, s')"
    "hub_rooms (hs_hub s') = hub_rooms (snd (publish_locked L n ?ev (hs_hub (dw_chat w))))"
    using publish_quiet [OF assms(1)] unfolding none by blast
  have "history_of (hs_hub s') (normalizeRoomName L n) =
      history_of (snd (publish_locked L n ?ev (hs_hub (dw_chat w)))) (normalizeRoomName L n)"
    using pb(2) by (simp add: history_of_def)
  also have "\<dots> = trim_history (history_of (hs_hub (dw_chat w)) (normalizeRoomName L n) @ [?ev\<lparr>ce_Room := normalizeRoomName L n\<rparr>])"
    by (simp add: publish_locked_history)
  also have "?ev\<lparr>ce_Room := normalizeRoomName L n\<rparr> = ev" using assms(8) by simp
  finally have "history_of (hs_hub s') (normalizeRoomName L n) =
      trim_history (history_of (hs_hub (dw_chat w)) (normalizeRoomName L n) @ [ev])" .
  moreover have "length sender \<le> 32" by (simp add: assms(4) sanitizeChatName_def Let_def)
  moreover have "chat_post L M oth c w = answer (Ctx_MsgPack M c 202
      (GMap [(''accepted'', GBool True), (''id'', GStr (''msg-'' @ show_int (w_now w))), (''room'', GStr n)]))
      (w\<lparr>dw_chat := s'\<rparr>)"
    using False pb(1) assms(3-8) by (simp add: chat_post_def Let_def)
  ultimately show ?thesis using False by auto
qed

definition demo_post :: gvalue where
  "demo_post = GMap [(''sender'', GStr ''ann''), (''clientId'', GStr ''c1''), (''text'', GStr ''hi'')]"

definition post_msgpack :: "gvalue msgpack" where
  "post_msgpack = demo_msgpack\<lparr>Unmarshal_value := \<lambda>b v. Inr demo_post\<rparr>"

definition post_ctx :: "gvalue Context" where
  "post_ctx = setParams (newContext None (sample_req\<lparr>req_Body := [1]\<rparr>) sample_peer fresh_stream) (Some [''room'' \<mapsto> ''a''])"

theorem chat_post_spec_witness:
  "let sender = sanitizeChatName (field_str demo_post ''sender''); txt = TrimSpace (field_str demo_post ''text'');
       client = TrimSpace (field_str demo_post ''clientId'');
       n = normalizeRoomName sample_lib (Ctx_Param post_ctx ''room'');
       ev = \<lparr>ce_ID = ''msg-'' @ show_int (w_now demo_state), ce_Kind = ''message'',
         ce_Room = normalizeRoomName sample_lib n, ce_Sender = sender, ce_ClientID = client, ce_Text = txt,
         ce_SentAt = w_now demo_state div 1000000\<rparr>
   in if sender = [] \<or> txt = [] \<or> client = []
      then \<exists>m. chat_post sample_lib post_msgpack nobody post_ctx demo_state = answer (Ctx_Error post_msgpack post_ctx 400 m []) demo_state
      else length sender \<le> 32 \<and> (\<exists>s'. chat_post sample_lib post_msgpack nobody post_ctx demo_state =
           answer (Ctx_MsgPack post_msgpack post_ctx 202 (GMap [(''accepted'', GBool True),
             (''id'', GStr (''msg-'' @ show_int (w_now demo_state))), (''room'', GStr n)]))
           (demo_state\<lparr>dw_chat := s'\<rparr>) \<and>
         history_of (hs_hub s') (normalizeRoomName sample_lib n) =
           trim_history (history_of (hs_hub (dw_chat demo_state)) (normalizeRoomName sample_lib n) @ [ev]))"
proof -
  have bind: "Ctx_Bind post_msgpack post_ctx chatPostBody = Inr demo_post"
    by (simp add: Ctx_Bind_def post_msgpack_def post_ctx_def setParams_def newContext_def wrap_err_def)
  have inv: "hub_inv (hs_hub (dw_chat demo_state))" using demo_hub(3) by (simp add: hub_ok_def)
  show ?thesis
    unfolding Let_def by (rule chat_post_spec [OF inv nobody_def bind refl refl refl refl refl])
qed

text \<open>
  The batch stream. For a parameter that is the decimal form of n, 0 <= n <= 10000, the stream
  carries exactly n chunks, the i-th the marshalled pair of i and its square, between the announcing
  response and the end chunk; a larger n (within 64 bits) is refused with status 400 and no stream.
\<close>

theorem batch_stream:
  assumes "Ctx_Param c ''n'' = show_int n" "0 \<le> n" "n < 2 ^ 63" "\<not> ctx_sent c" "healthy (ctx_stream c)"
    and "map (\<lambda>i. chunk_bytes M False (batch_value i)) [0 ..< nat n] = map Inr ds"
    and "n \<le> 10000 \<Longrightarrow> list_all (sendable M) (stream_msgs (Ctx_RequestID c) 200 None ds)"
    and "batch_handler M c w = (r, c', w')"
  shows "if n \<le> 10000
    then r = Ret None \<and> length ds = nat n \<and>
      tx (ctx_stream c') = tx (ctx_stream c) @ wire_bytes M (stream_msgs (Ctx_RequestID c) 200 None ds)
    else (r, c', w') = answer (Ctx_Error M c 400 (at_most ''10000'') []) w"
proof -
  have n: "Sscanf_d (Ctx_Param c ''n'') 100 = n"
    using assms(1-3) Sscanf_nat [of "nat n" 100] by (simp add: show_int_def)
  have vals: "loop_values 0 (map (\<lambda>i w. batch_value i) is) w = map batch_value is" for "is" and w :: "'b world_scheme"
    by (induction "is" arbitrary: w) simp_all
  have len: "length ds = nat n" using arg_cong [OF assms(6), of length] by simp
  show ?thesis
  proof (cases "n \<le> 10000")
    case True
    have "map (chunk_bytes M False) (loop_values 0 (map (\<lambda>i w. batch_value i) [0 ..< nat n]) w) = map Inr ds"
      using assms(6) by (simp add: vals comp_def)
    from stream_handler_wire [OF assms(4,5) this assms(7) [OF True]] obtain c1 w1 where
      "with_stream M 200 None (chunk_loop M False 0 (map (\<lambda>i w. batch_value i) [0 ..< nat n])) c w = (Ret None, c1, w1)"
      "tx (ctx_stream c1) = tx (ctx_stream c) @ wire_bytes M (stream_msgs (Ctx_RequestID c) 200 None ds)" .
    with True n len assms(8) show ?thesis by (simp add: batch_handler_def)
  next
    case False
    with n assms(8) show ?thesis by (simp add: batch_handler_def)
  qed
qed

definition batch_ctx :: "gvalue Context" where
  "batch_ctx = setParams (newContext None sample_req sample_peer fresh_stream) (Some [''n'' \<mapsto> show_int 2])"

theorem batch_stream_witness:
  "if (2::int) \<le> 10000
   then fst (batch_handler demo_msgpack batch_ctx demo_state) = Ret None \<and> length [[1], [1 :: byte]] = nat 2 \<and>
     tx (ctx_stream (fst (snd (batch_handler demo_msgpack batch_ctx demo_state)))) =
       tx (ctx_stream batch_ctx) @ wire_bytes demo_msgpack (stream_msgs (Ctx_RequestID batch_ctx) 200 None [[1], [1]])
   else (fst (batch_handler demo_msgpack batch_ctx demo_state), fst (snd (batch_handler demo_msgpack batch_ctx demo_state)),
       snd (snd (batch_handler demo_msgpack batch_ctx demo_state))) =
     answer (Ctx_Error demo_msgpack batch_ctx 400 (at_most ''10000'') []) demo_state"
proof (rule batch_stream [where w = demo_state])
  let ?r = "batch_handler demo_msgpack batch_ctx demo_state"
  show "?r = (fst ?r, fst (snd ?r), snd (snd ?r))" by simp
  show "map (\<lambda>i. chunk_bytes demo_msgpack False (batch_value i)) [0 ..< nat 2] = map Inr [[1], [1]]"
    by (simp add: chunk_bytes_def demo_msgpack_def upt_rec)
qed (simp_all add: batch_ctx_def setParams_def newContext_def Ctx_Param_def healthy_def fresh_stream_def list_all_iff)







text \<open>
  Subscribers can see messages out of order. publish appends to the history under the lock but sends
  after it, so of two messages published one after the other a subscriber can receive the second first,
  although the room's history holds them in order.
\<close>

theorem chat_delivery_reordered:
  "let s = hub_run L [Subscribe room now, PubLock room a, PubLock room b, PubSend 1, PubSend 0];
       n = normalizeRoomName L room
   in ch_buf (hub_chans (hs_hub s) ! 0) = [b\<lparr>ce_Room := n\<rparr>, a\<lparr>ce_Room := n\<rparr>] \<and>
      history_of (hs_hub s) n = [a\<lparr>ce_Room := n\<rparr>, b\<lparr>ce_Room := n\<rparr>]"
  by (simp add: hub_run_def hub_start_def newChatHub_def subscribe_def ensureRoomLocked_def publish_locked_def
      pub_send_def try_send_def note_panic_def trim_history_def chatHistoryLimit_def history_of_def Let_def)

end
