(* ===== verification/Mutex.thy ===== *)
theory Mutex
  imports Prelude
begin

text \<open>
  Goroutines that share a state behind one sync.Mutex. An operation is the list of statements between
  its Lock and Unlock, each a step on the shared state and the goroutine's own variables. Statements
  of different goroutines interleave in any order; the lock decides only who may enter. The locale
  \<open>critical_section\<close> says that the statements of an operation, run without interruption, are an atomic
  operation, and inside it the interleaved machine is proved linearizable: the operations take effect
  one after the other, in the order in which the lock was taken.
\<close>

section \<open>The interleaved machine\<close>

type_synonym ('s, 'l) stmt = "'s \<times> 'l \<Rightarrow> 's \<times> 'l"

datatype ('op, 's, 'l) routine =
    Wants 'op \<comment> \<open>at its Lock\<close>
  | Holds 'op "('s, 'l) stmt list" 'l \<comment> \<open>inside, with the statements still to run\<close>
  | Released 'op 'l \<comment> \<open>after its Unlock\<close>

record ('op, 's, 'l) locked =
  lk_shared :: 's
  lk_owner :: "nat option"
  lk_routines :: "('op, 's, 'l) routine list"

datatype 'op lk_event = Call 'op | Lock nat | Stmt nat | Unlock nat

text \<open>A statement runs whoever holds the lock: that no two goroutines are inside is proved, not built in.\<close>

fun lk_step ::
    "('op \<Rightarrow> ('s, 'l) stmt list) \<Rightarrow> 'l \<Rightarrow> 'op lk_event \<Rightarrow> ('op, 's, 'l) locked \<Rightarrow> ('op, 's, 'l) locked option" where
  "lk_step body l0 (Call p) st = Some (st\<lparr>lk_routines := lk_routines st @ [Wants p]\<rparr>)"
| "lk_step body l0 (Lock g) st =
     (if g < length (lk_routines st) \<and> lk_owner st = None then
        (case lk_routines st ! g of
           Wants p \<Rightarrow> Some (st\<lparr>lk_owner := Some g, lk_routines := (lk_routines st)[g := Holds p (body p) l0]\<rparr>)
         | _ \<Rightarrow> None)
      else None)"
| "lk_step body l0 (Stmt g) st =
     (if g < length (lk_routines st) then
        (case lk_routines st ! g of
           Holds p (f # fs) l \<Rightarrow>
             (case f (lk_shared st, l) of
                (s, l') \<Rightarrow> Some (st\<lparr>lk_shared := s, lk_routines := (lk_routines st)[g := Holds p fs l']\<rparr>))
         | _ \<Rightarrow> None)
      else None)"
| "lk_step body l0 (Unlock g) st =
     (if g < length (lk_routines st) then
        (case lk_routines st ! g of
           Holds p [] l \<Rightarrow> Some (st\<lparr>lk_owner := None, lk_routines := (lk_routines st)[g := Released p l]\<rparr>)
         | _ \<Rightarrow> None)
      else None)"

fun_cases lk_CallE: "lk_step body l0 (Call p) st = Some st'"

definition lk_start :: "'s \<Rightarrow> ('op, 's, 'l) locked" where
  "lk_start s = \<lparr>lk_shared = s, lk_owner = None, lk_routines = []\<rparr>"

inductive lk_reach ::
    "('op \<Rightarrow> ('s, 'l) stmt list) \<Rightarrow> 'l \<Rightarrow> ('op, 's, 'l) locked \<Rightarrow> ('op, 's, 'l) locked \<Rightarrow> bool"
  for body l0 st where
  start: "lk_reach body l0 st st"
| step: "lk_reach body l0 st st' \<Longrightarrow> lk_step body l0 e st' = Some st'' \<Longrightarrow> lk_reach body l0 st st''"

fun lk_run ::
    "('op \<Rightarrow> ('s, 'l) stmt list) \<Rightarrow> 'l \<Rightarrow> 'op lk_event list \<Rightarrow> ('op, 's, 'l) locked \<Rightarrow> ('op, 's, 'l) locked option" where
  "lk_run body l0 [] st = Some st"
| "lk_run body l0 (e # es) st =
     (case lk_step body l0 e st of None \<Rightarrow> None | Some st' \<Rightarrow> lk_run body l0 es st')"

lemma lk_reach_trans:
  assumes "lk_reach body l0 st' st''" "lk_reach body l0 st st'"
  shows "lk_reach body l0 st st''"
  using assms by (induction rule: lk_reach.induct) (auto intro: lk_reach.step)

lemma lk_run_reach: "lk_run body l0 es st = Some st' \<Longrightarrow> lk_reach body l0 st st'"
proof (induction es arbitrary: st)
  case Nil
  then show ?case by (simp add: lk_reach.start)
next
  case (Cons e es)
  then obtain st1 where s: "lk_step body l0 e st = Some st1" "lk_run body l0 es st1 = Some st'"
    by (auto split: option.splits)
  have "lk_reach body l0 st st1" by (rule lk_reach.step [OF lk_reach.start s(1)])
  with Cons.IH [OF s(2)] show ?case by (rule lk_reach_trans)
qed

section \<open>The atomic specification\<close>

fun run_stmts :: "('s, 'l) stmt list \<Rightarrow> 's \<times> 'l \<Rightarrow> 's \<times> 'l" where
  "run_stmts [] x = x"
| "run_stmts (f # fs) x = run_stmts fs (f x)"

text \<open>One atomic operation after the other; a history lists them with the goroutines that called them.\<close>

fun serial :: "('op \<Rightarrow> 's \<Rightarrow> 's \<times> 'l) \<Rightarrow> (nat \<times> 'op) list \<Rightarrow> 's \<Rightarrow> 's" where
  "serial atomic [] s = s"
| "serial atomic ((g, p) # h) s = serial atomic h (fst (atomic p s))"

lemma serial_append [simp]: "serial atomic (h @ h') s = serial atomic h' (serial atomic h s)"
  by (induction h arbitrary: s) auto

text \<open>
  A history explains a state: who is waiting is not in it, who has the lock is its last entry, and
  who has finished computed what the atomic operation computes at its place in the history.
\<close>

fun routine_ok :: "('op \<Rightarrow> 's \<Rightarrow> 's \<times> 'l) \<Rightarrow> (nat \<times> 'op) list \<Rightarrow> 's \<Rightarrow> nat \<Rightarrow> ('op, 's, 'l) routine \<Rightarrow> bool" where
  "routine_ok atomic h s0 g (Wants p) = (g \<notin> fst ` set h)"
| "routine_ok atomic h s0 g (Holds p fs l) = (\<exists>h1. h = h1 @ [(g, p)])"
| "routine_ok atomic h s0 g (Released p l) =
     (\<exists>h1 h2. h = h1 @ (g, p) # h2 \<and> l = snd (atomic p (serial atomic h1 s0)))"

definition explains ::
    "('op \<Rightarrow> 's \<Rightarrow> 's \<times> 'l) \<Rightarrow> (nat \<times> 'op) list \<Rightarrow> 's \<Rightarrow> ('op, 's, 'l) locked \<Rightarrow> bool" where
  "explains atomic h s0 st \<longleftrightarrow>
     distinct (map fst h) \<and> (\<forall>g \<in> fst ` set h. g < length (lk_routines st)) \<and>
     (\<forall>g < length (lk_routines st). routine_ok atomic h s0 g (lk_routines st ! g)) \<and>
     (lk_owner st = None \<longrightarrow> lk_shared st = serial atomic h s0)"

text \<open>What the lock adds: only its owner is inside, on its way to the atomic result.\<close>

definition guarded ::
    "('op \<Rightarrow> 's \<Rightarrow> 's \<times> 'l) \<Rightarrow> (nat \<times> 'op) list \<Rightarrow> 's \<Rightarrow> ('op, 's, 'l) locked \<Rightarrow> bool" where
  "guarded atomic h s0 st \<longleftrightarrow>
     (\<forall>g < length (lk_routines st). \<forall>p fs l. lk_routines st ! g = Holds p fs l \<longrightarrow>
        lk_owner st = Some g \<and>
        run_stmts fs (lk_shared st, l) = atomic p (serial atomic (butlast h) s0)) \<and>
     (\<forall>g. lk_owner st = Some g \<longrightarrow> g < length (lk_routines st) \<and> (\<exists>p fs l. lk_routines st ! g = Holds p fs l))"

lemma explainsI:
  assumes "distinct (map fst h)" "\<And>g. g \<in> fst ` set h \<Longrightarrow> g < length (lk_routines st)"
    and "\<And>g. g < length (lk_routines st) \<Longrightarrow> routine_ok atomic h s0 g (lk_routines st ! g)"
    and "lk_owner st = None \<Longrightarrow> lk_shared st = serial atomic h s0"
  shows "explains atomic h s0 st"
  unfolding explains_def using assms by blast

lemma released_extend:
  assumes "routine_ok atomic h s0 g (Released p l)"
  shows "routine_ok atomic (h @ h') s0 g (Released p l)"
  using assms by (simp, metis append_Cons append_assoc)

lemma explainsD:
  assumes "explains atomic h s0 st"
  shows "distinct (map fst h)" "g \<in> fst ` set h \<Longrightarrow> g < length (lk_routines st)"
    "g < length (lk_routines st) \<Longrightarrow> routine_ok atomic h s0 g (lk_routines st ! g)"
    "lk_owner st = None \<Longrightarrow> lk_shared st = serial atomic h s0"
  using assms unfolding explains_def by blast+

lemma history_order:
  assumes "h1 @ (g, p) # h2 = k1 @ (g', p') # k2" "g \<noteq> g'"
  shows "(\<exists>m. k1 = h1 @ (g, p) # m) \<or> (\<exists>m. h1 = k1 @ (g', p') # m)"
  using assms by (auto simp: append_eq_append_conv2 Cons_eq_append_conv append_eq_Cons_conv)

lemma distinct_split:
  assumes "distinct (map fst h)" "h = k1 @ (g, p) # k2" "h = h1 @ (g, p') # h2"
  shows "k1 = h1"
proof -
  have "map fst h ! length k1 = g" "map fst h ! length h1 = g"
    using arg_cong [OF assms(2), of "map fst"] arg_cong [OF assms(3), of "map fst"] by (metis length_map list.simps(9)
        map_append nth_append_length fst_conv)+
  moreover have "length k1 < length (map fst h)" "length h1 < length (map fst h)"
    using arg_cong [OF assms(2), of length] arg_cong [OF assms(3), of length] by simp_all
  ultimately have "length k1 = length h1" using nth_eq_iff_index_eq [OF assms(1)] by metis
  with assms(2,3) show ?thesis by simp
qed

lemma guardedI:
  assumes "\<And>g p fs l. g < length (lk_routines st) \<Longrightarrow> lk_routines st ! g = Holds p fs l \<Longrightarrow>
      lk_owner st = Some g \<and> run_stmts fs (lk_shared st, l) = atomic p (serial atomic (butlast h) s0)"
    and "\<And>g. lk_owner st = Some g \<Longrightarrow> g < length (lk_routines st) \<and> (\<exists>p fs l. lk_routines st ! g = Holds p fs l)"
  shows "guarded atomic h s0 st"
  unfolding guarded_def using assms by blast

lemma guardedD:
  assumes "guarded atomic h s0 st"
  shows "g < length (lk_routines st) \<Longrightarrow> lk_routines st ! g = Holds p fs l \<Longrightarrow>
      lk_owner st = Some g \<and> run_stmts fs (lk_shared st, l) = atomic p (serial atomic (butlast h) s0)"
    and "lk_owner st = Some g \<Longrightarrow> g < length (lk_routines st) \<and> (\<exists>p fs l. lk_routines st ! g = Holds p fs l)"
  using assms unfolding guarded_def by blast+

section \<open>The order of the lock\<close>

text \<open>The calls of a run, and the order in which they took the lock: goroutine \<open>g\<close> is the \<open>g\<close>-th call.\<close>

fun calls :: "'op lk_event list \<Rightarrow> 'op list" where
  "calls [] = []"
| "calls (Call p # es) = p # calls es"
| "calls (_ # es) = calls es"

fun locks :: "'op lk_event list \<Rightarrow> nat list" where
  "locks [] = []"
| "locks (Lock g # es) = g # locks es"
| "locks (_ # es) = locks es"

definition lock_order :: "'op lk_event list \<Rightarrow> (nat \<times> 'op) list" where
  "lock_order es = map (\<lambda>g. (g, calls es ! g)) (locks es)"

lemma calls_append [simp]: "calls (es @ es') = calls es @ calls es'"
  by (induction es rule: calls.induct) auto

lemma locks_append [simp]: "locks (es @ es') = locks es @ locks es'"
  by (induction es rule: locks.induct) auto

fun routine_op :: "('op, 's, 'l) routine \<Rightarrow> 'op" where
  "routine_op (Wants p) = p"
| "routine_op (Holds p fs l) = p"
| "routine_op (Released p l) = p"

lemma history_op:
  assumes "explains atomic h s0 st" "(g, p) \<in> set h"
  shows "g < length (lk_routines st) \<and> routine_op (lk_routines st ! g) = p"
proof -
  have "g \<in> fst ` set h" using assms(2) by (metis fst_conv imageI)
  with explainsD(2) [OF assms(1)] have g: "g < length (lk_routines st)" "g \<in> fst ` set h" by simp_all
  from explainsD(3) [OF assms(1) g(1)] g(2) have "(g, routine_op (lk_routines st ! g)) \<in> set h"
    by (cases "lk_routines st ! g") auto
  from eq_key_imp_eq_value [OF explainsD(1) [OF assms(1)] this assms(2)] g(1) show ?thesis by simp
qed

text \<open>The goroutines of a run are its calls.\<close>

lemma lk_run_append:
  "lk_run body l0 (es @ es') st = (case lk_run body l0 es st of None \<Rightarrow> None | Some st' \<Rightarrow> lk_run body l0 es' st')"
  by (induction es arbitrary: st) (auto split: option.splits)

lemma lk_step_ops:
  assumes "lk_step body l0 e st = Some st'"
  shows "map routine_op (lk_routines st') = map routine_op (lk_routines st) @ calls [e]"
proof -
  have upd: "map routine_op (xs[g := r]) = map routine_op xs" if "routine_op r = routine_op (xs ! g)"
    for xs and g and r :: "('a, 'b, 'c) routine"
    using that by (cases "g < length xs") (auto simp: map_update list_update_same_conv list_update_beyond)
  from assms show ?thesis
    by (cases e) (auto split: if_splits routine.splits list.splits prod.splits intro!: upd)
qed

lemma lk_run_ops:
  "lk_run body l0 es (lk_start s0) = Some st \<Longrightarrow> map routine_op (lk_routines st) = calls es"
proof (induction es arbitrary: st rule: rev_induct)
  case Nil
  then show ?case by (auto simp: lk_start_def)
next
  case (snoc e es)
  then obtain st1 where "lk_run body l0 es (lk_start s0) = Some st1" "lk_step body l0 e st1 = Some st"
    by (auto simp: lk_run_append split: option.splits)
  with snoc.IH lk_step_ops show ?case by fastforce
qed

section \<open>Linearizability\<close>

locale critical_section =
  fixes body :: "'op \<Rightarrow> ('s, 'l) stmt list"
    and l0 :: 'l
    and atomic :: "'op \<Rightarrow> 's \<Rightarrow> 's \<times> 'l"
  assumes whole: "run_stmts (body p) (s, l0) = atomic p s"
begin

lemma start_ok: "explains atomic [] s0 (lk_start s0) \<and> guarded atomic [] s0 (lk_start s0)"
  by (simp add: explains_def guarded_def lk_start_def)

lemma call_ok:
  assumes "explains atomic h s0 st" "guarded atomic h s0 st" "lk_step body l0 (Call p) st = Some st'"
  shows "explains atomic h s0 st' \<and> guarded atomic h s0 st'"
proof -
  have st': "st' = st\<lparr>lk_routines := lk_routines st @ [Wants p]\<rparr>" using assms(3) by simp
  have new: "length (lk_routines st) \<notin> fst ` set h" using explainsD(2) [OF assms(1)] by blast
  have "explains atomic h s0 st'"
  proof (rule explainsI)
    show "routine_ok atomic h s0 g (lk_routines st' ! g)" if "g < length (lk_routines st')" for g
      using that new explainsD(3) [OF assms(1), of g] by (auto simp: st' nth_append less_Suc_eq)
  qed (use explainsD [OF assms(1)] in \<open>auto simp: st' less_Suc_eq\<close>)
  moreover have "guarded atomic h s0 st'"
  proof (rule guardedI)
    show "lk_owner st' = Some g \<and> run_stmts fs (lk_shared st', l) = atomic q (serial atomic (butlast h) s0)"
      if "g < length (lk_routines st')" "lk_routines st' ! g = Holds q fs l" for g q fs l
      using that guardedD(1) [OF assms(2)] by (auto simp: st' nth_append less_Suc_eq split: if_splits)
    show "g < length (lk_routines st') \<and> (\<exists>q fs l. lk_routines st' ! g = Holds q fs l)"
      if "lk_owner st' = Some g" for g
      using that guardedD(2) [OF assms(2), of g] by (auto simp: st' nth_append)
  qed
  ultimately show ?thesis by blast
qed

lemma lock_ok:
  assumes "explains atomic h s0 st" "guarded atomic h s0 st" "lk_step body l0 (Lock g) st = Some st'"
  shows "\<exists>p. explains atomic (h @ [(g, p)]) s0 st' \<and> guarded atomic (h @ [(g, p)]) s0 st'"
proof -
  from assms(3) obtain p where g: "g < length (lk_routines st)" "lk_owner st = None" "lk_routines st ! g = Wants p"
    and st': "st' = st\<lparr>lk_owner := Some g, lk_routines := (lk_routines st)[g := Holds p (body p) l0]\<rparr>"
    by (auto split: if_splits routine.splits)
  have free: "\<not> (lk_routines st ! i = Holds q fs l)" if "i < length (lk_routines st)" for i q fs l
    using guardedD(1) [OF assms(2)] g(2) that by fastforce
  have new: "g \<notin> fst ` set h" using explainsD(3) [OF assms(1) g(1)] g(3) by simp
  have shared: "lk_shared st = serial atomic h s0" by (rule explainsD(4) [OF assms(1) g(2)])
  have others: "routine_ok atomic (h @ [(g, p)]) s0 i (lk_routines st ! i)"
    if "i < length (lk_routines st)" "i \<noteq> g" for i
    using explainsD(3) [OF assms(1) that(1)] that(2) free [OF that(1)] released_extend
    by (cases "lk_routines st ! i") (auto simp del: routine_ok.simps(3))
  have "explains atomic (h @ [(g, p)]) s0 st'"
  proof (rule explainsI)
    show "routine_ok atomic (h @ [(g, p)]) s0 i (lk_routines st' ! i)" if "i < length (lk_routines st')" for i
      using that others by (cases "i = g") (simp_all add: st')
  qed (use explainsD(1,2) [OF assms(1)] new g(1) in \<open>auto simp: st'\<close>)
  moreover have "guarded atomic (h @ [(g, p)]) s0 st'"
  proof (rule guardedI)
    show "lk_owner st' = Some i \<and> run_stmts fs (lk_shared st', l) = atomic q (serial atomic (butlast (h @ [(g, p)])) s0)"
      if "i < length (lk_routines st')" "lk_routines st' ! i = Holds q fs l" for i q fs l
      using that free whole [of p "lk_shared st"] by (cases "i = g") (auto simp: st' shared)
  qed (simp add: st' g(1))
  ultimately show ?thesis by blast
qed

lemma holder:
  assumes "explains atomic h s0 st" "guarded atomic h s0 st" "g < length (lk_routines st)"
    and "lk_routines st ! g = Holds p fs l"
  shows "lk_owner st = Some g" "run_stmts fs (lk_shared st, l) = atomic p (serial atomic (butlast h) s0)"
    "\<exists>h1. h = h1 @ [(g, p)]"
    "\<And>i q fs' l'. i < length (lk_routines st) \<Longrightarrow> i \<noteq> g \<Longrightarrow> lk_routines st ! i \<noteq> Holds q fs' l'"
proof -
  show owner: "lk_owner st = Some g" and "run_stmts fs (lk_shared st, l) = atomic p (serial atomic (butlast h) s0)"
    using guardedD(1) [OF assms(2-4)] by blast+
  show "\<exists>h1. h = h1 @ [(g, p)]" using explainsD(3) [OF assms(1,3)] assms(4) by simp
  show "lk_routines st ! i \<noteq> Holds q fs' l'" if "i < length (lk_routines st)" "i \<noteq> g" for i q fs' l'
    using guardedD(1) [OF assms(2) that(1)] owner that(2) by auto
qed

lemma stmt_ok:
  assumes "explains atomic h s0 st" "guarded atomic h s0 st" "lk_step body l0 (Stmt g) st = Some st'"
  shows "explains atomic h s0 st' \<and> guarded atomic h s0 st'"
proof -
  from assms(3) obtain p f fs l s' l' where g: "g < length (lk_routines st)" "lk_routines st ! g = Holds p (f # fs) l"
    "f (lk_shared st, l) = (s', l')"
    and st': "st' = st\<lparr>lk_shared := s', lk_routines := (lk_routines st)[g := Holds p fs l']\<rparr>"
    by (auto split: if_splits routine.splits list.splits prod.splits)
  note h = holder [OF assms(1,2) g(1,2)]
  have "explains atomic h s0 st'"
  proof (rule explainsI)
    show "routine_ok atomic h s0 i (lk_routines st' ! i)" if "i < length (lk_routines st')" for i
      using that explainsD(3) [OF assms(1), of i] h(3) by (cases "i = g") (auto simp: st')
  qed (use explainsD(1,2) [OF assms(1)] h(1) in \<open>auto simp: st'\<close>)
  moreover have "guarded atomic h s0 st'"
  proof (rule guardedI)
    show "lk_owner st' = Some i \<and> run_stmts fs' (lk_shared st', k) = atomic q (serial atomic (butlast h) s0)"
      if "i < length (lk_routines st')" "lk_routines st' ! i = Holds q fs' k" for i q fs' k
      using that g(3) h(1,2,4) by (cases "i = g") (auto simp: st')
  qed (use g(1) h(1) in \<open>auto simp: st'\<close>)
  ultimately show ?thesis by blast
qed

lemma unlock_ok:
  assumes "explains atomic h s0 st" "guarded atomic h s0 st" "lk_step body l0 (Unlock g) st = Some st'"
  shows "explains atomic h s0 st' \<and> guarded atomic h s0 st'"
proof -
  from assms(3) obtain p l where g: "g < length (lk_routines st)" "lk_routines st ! g = Holds p [] l"
    and st': "st' = st\<lparr>lk_owner := None, lk_routines := (lk_routines st)[g := Released p l]\<rparr>"
    by (auto split: if_splits routine.splits list.splits)
  note h = holder [OF assms(1,2) g]
  from h(3) obtain h1 where h1: "h = h1 @ [(g, p)]" by blast
  with h(2) have "(lk_shared st, l) = atomic p (serial atomic h1 s0)" by simp
  then have res: "lk_shared st = serial atomic h s0" "l = snd (atomic p (serial atomic h1 s0))"
    by (simp_all add: h1) (metis fst_conv, metis snd_conv)
  have "explains atomic h s0 st'"
  proof (rule explainsI)
    show "routine_ok atomic h s0 i (lk_routines st' ! i)" if "i < length (lk_routines st')" for i
      using that explainsD(3) [OF assms(1), of i] h1 res(2) by (cases "i = g") (auto simp: st')
  qed (use explainsD(1,2) [OF assms(1)] res(1) in \<open>auto simp: st'\<close>)
  moreover have "guarded atomic h s0 st'"
  proof (rule guardedI)
    show "lk_owner st' = Some i \<and> run_stmts fs' (lk_shared st', k) = atomic q (serial atomic (butlast h) s0)"
      if "i < length (lk_routines st')" "lk_routines st' ! i = Holds q fs' k" for i q fs' k
      using that h(4) by (cases "i = g") (auto simp: st')
  qed (simp add: st')
  ultimately show ?thesis by blast
qed

lemma step_ok:
  assumes "explains atomic h s0 st" "guarded atomic h s0 st" "lk_step body l0 e st = Some st'"
  shows "\<exists>h'. explains atomic (h @ h') s0 st' \<and> guarded atomic (h @ h') s0 st'"
proof (cases e)
  case (Call p)
  with call_ok assms show ?thesis by (metis append_Nil2)
next
  case (Lock g)
  with lock_ok assms show ?thesis by blast
next
  case (Stmt g)
  with stmt_ok assms show ?thesis by (metis append_Nil2)
next
  case (Unlock g)
  with unlock_ok assms show ?thesis by (metis append_Nil2)
qed

text \<open>The history only grows, so an operation called after another has finished comes later in it.\<close>

lemma reach_ok:
  assumes "lk_reach body l0 st st'" "explains atomic h s0 st" "guarded atomic h s0 st"
  shows "\<exists>h'. explains atomic (h @ h') s0 st' \<and> guarded atomic (h @ h') s0 st'"
  using assms(1)
proof (induction rule: lk_reach.induct)
  case start
  with assms(2,3) show ?case by (metis append_Nil2)
next
  case (step st1 e st2)
  then obtain h1 where "explains atomic (h @ h1) s0 st1" "guarded atomic (h @ h1) s0 st1" by blast
  from step_ok [OF this step.hyps(2)] show ?case by (metis append_assoc)
qed

lemma linearizable:
  assumes "lk_reach body l0 (lk_start s0) st" "lk_reach body l0 st st'"
  shows "\<exists>h h'. explains atomic h s0 st \<and> explains atomic (h @ h') s0 st'"
  using reach_ok [OF assms(1)] start_ok [of s0] reach_ok [OF assms(2)] by fastforce

text \<open>The history is the order in which the lock was taken.\<close>

lemma run_ok:
  assumes "lk_run body l0 es (lk_start s0) = Some st"
  shows "explains atomic (lock_order es) s0 st \<and> guarded atomic (lock_order es) s0 st"
  using assms
proof (induction es arbitrary: st rule: rev_induct)
  case Nil
  then show ?case using start_ok [of s0] by (simp add: lock_order_def)
next
  case (snoc e es)
  then obtain st1 where st1: "lk_run body l0 es (lk_start s0) = Some st1" "lk_step body l0 e st1 = Some st"
    by (auto simp: lk_run_append split: option.splits)
  then have ok: "explains atomic (lock_order es) s0 st1" "guarded atomic (lock_order es) s0 st1"
    using snoc.IH by blast+
  have ops: "map routine_op (lk_routines st1) = calls es" by (rule lk_run_ops [OF st1(1)])
  have old: "g < length (calls es)" if "g \<in> set (locks es)" for g
  proof -
    have "g \<in> fst ` set (lock_order es)" using that by (force simp: lock_order_def)
    then show ?thesis using explainsD(2) [OF ok(1)] ops by (metis length_map)
  qed
  show ?case
  proof (cases e)
    case (Call p)
    have "lock_order (es @ [e]) = lock_order es"
      using old by (auto simp: lock_order_def Call nth_append)
    with call_ok [OF ok] st1(2) Call show ?thesis by metis
  next
    case (Lock g)
    from lock_ok [OF ok] st1(2) Lock obtain p where
      p: "explains atomic (lock_order es @ [(g, p)]) s0 st" "guarded atomic (lock_order es @ [(g, p)]) s0 st" by blast
    from history_op [OF p(1), of g p] lk_run_ops [OF snoc.prems] Lock have "calls es ! g = p"
      by (metis append_Nil2 calls.simps(1,3) calls_append in_set_conv_decomp nth_map)
    with p Lock show ?thesis by (simp add: lock_order_def)
  next
    case (Stmt g)
    with stmt_ok [OF ok] st1(2) show ?thesis by (simp add: lock_order_def)
  next
    case (Unlock g)
    with unlock_ok [OF ok] st1(2) show ?thesis by (simp add: lock_order_def)
  qed
qed

text \<open>While the lock is free, the history lists the finished operations and no others.\<close>

lemma quiet_history:
  assumes "explains atomic h s0 st" "guarded atomic h s0 st" "lk_owner st = None"
  shows "(g, p) \<in> set h \<longleftrightarrow> g < length (lk_routines st) \<and> (\<exists>l. lk_routines st ! g = Released p l)"
proof
  assume in_h: "(g, p) \<in> set h"
  then have g: "g < length (lk_routines st)" using explainsD(2) [OF assms(1)] by force
  show "g < length (lk_routines st) \<and> (\<exists>l. lk_routines st ! g = Released p l)"
  proof (cases "lk_routines st ! g")
    case (Wants q)
    with explainsD(3) [OF assms(1) g] in_h show ?thesis by force
  next
    case (Holds q fs l)
    with guardedD(1) [OF assms(2) g] assms(3) show ?thesis by fastforce
  next
    case (Released q l)
    with explainsD(3) [OF assms(1) g] have "(g, q) \<in> set h" by auto
    with in_h explainsD(1) [OF assms(1)] have "p = q" by (metis eq_key_imp_eq_value)
    with Released g show ?thesis by blast
  qed
next
  assume "g < length (lk_routines st) \<and> (\<exists>l. lk_routines st ! g = Released p l)"
  with explainsD(3) [OF assms(1), of g] show "(g, p) \<in> set h" by auto
qed

lemma mutual_exclusion:
  assumes "lk_reach body l0 (lk_start s0) st" "g < length (lk_routines st)" "g' < length (lk_routines st)"
    and "lk_routines st ! g = Holds p fs l" "lk_routines st ! g' = Holds p' fs' l'"
  shows "g = g'"
proof -
  obtain h where "explains atomic h s0 st" "guarded atomic h s0 st"
    using reach_ok [OF assms(1)] start_ok [of s0] by blast
  from holder(4) [OF this assms(2,4,3)] assms(5) show ?thesis by blast
qed

text \<open>A property of the shared state that every atomic operation keeps holds whenever the lock is free.\<close>

lemma invariant:
  assumes "lk_reach body l0 (lk_start s0) st" "lk_owner st = None" "I s0"
    and keep: "\<And>p s. I s \<Longrightarrow> I (fst (atomic p s))"
  shows "I (lk_shared st)"
proof -
  obtain h where "explains atomic h s0 st" using reach_ok [OF assms(1)] start_ok [of s0] by blast
  then have "lk_shared st = serial atomic h s0" using assms(2) by (simp add: explains_def)
  moreover have "I (serial atomic h s)" if "I s" for s
    using that
  proof (induction h arbitrary: s)
    case (Cons e h)
    then show ?case using keep by (cases e) auto
  qed simp
  ultimately show ?thesis using assms(3) by simp
qed

end

end
