(* ===== verification/Hub_Lock.thy ===== *)
theory Hub_Lock
  imports Chat_Delivery Mutex
begin

text \<open>
  The mutex of the chat hub (examples/streaming-demo/main.go), statement by statement. \<open>Chat\<close> takes what
  subscribe, the function it returns, and publish do between Lock and Unlock as one step; here the
  statements of different goroutines interleave. What comes before Lock is local (the normalized name, the
  subscriber ID) or makes a channel nobody else knows yet; the channel is made here by the first statement
  of the section. The loop that copies the map of subscribers is one statement: it only reads it.
\<close>

section \<open>The critical sections\<close>

datatype hub_op =
    HubSubscribe string int \<comment> \<open>room and clock\<close>
  | HubUnsubscribe string string \<comment> \<open>room and subscriber ID\<close>
  | HubPublish string chatEvent

text \<open>The variables \<^verbatim>\<open>ch\<close> and \<^verbatim>\<open>history\<close>, \<^verbatim>\<open>existing\<close>, \<^verbatim>\<open>subscribers\<close>, and the panic of close.\<close>

record hub_vars =
  hv_ch :: nat
  hv_history :: "chatEvent list"
  hv_existing :: "nat option"
  hv_subscribers :: "nat list"
  hv_panic :: "string option"

definition no_hub_vars :: hub_vars where
  "no_hub_vars = \<lparr>hv_ch = 0, hv_history = [], hv_existing = None, hv_subscribers = [], hv_panic = None\<rparr>"

type_synonym hub_stmt = "(chatHub, hub_vars) stmt"

text \<open>An assignment through the pointer to a room that is in the map.\<close>

definition upd_room :: "string \<Rightarrow> (chatRoom \<Rightarrow> chatRoom) \<Rightarrow> chatHub \<Rightarrow> chatHub" where
  "upd_room n f h = (case hub_rooms h n of None \<Rightarrow> h | Some room \<Rightarrow> h\<lparr>hub_rooms := (hub_rooms h)(n \<mapsto> f room)\<rparr>)"

definition subs_of :: "chatHub \<Rightarrow> string \<Rightarrow> (string \<times> nat) list" where
  "subs_of h n = (case hub_rooms h n of None \<Rightarrow> [] | Some room \<Rightarrow> cr_subscribers room)"

definition make_channel :: hub_stmt where
  "make_channel = (\<lambda>(h, l). (h\<lparr>hub_chans := hub_chans h @ [\<lparr>ch_buf = [], ch_closed = False\<rparr>]\<rparr>,
     l\<lparr>hv_ch := length (hub_chans h)\<rparr>))"

definition ensure_room :: "string \<Rightarrow> hub_stmt" where
  "ensure_room n = (\<lambda>(h, l). (snd (ensureRoomLocked n h), l))"

definition put_subscriber :: "string \<Rightarrow> string \<Rightarrow> hub_stmt" where
  "put_subscriber n sid = (\<lambda>(h, l).
     (upd_room n (\<lambda>room. room\<lparr>cr_subscribers := sub_put sid (hv_ch l) (cr_subscribers room)\<rparr>) h, l))"

definition clone_history :: "string \<Rightarrow> hub_stmt" where
  "clone_history n = (\<lambda>(h, l). (h, l\<lparr>hv_history := history_of h n\<rparr>))"

definition find_existing :: "string \<Rightarrow> string \<Rightarrow> hub_stmt" where
  "find_existing n sid = (\<lambda>(h, l). (h, l\<lparr>hv_existing := map_of (subs_of h n) sid\<rparr>))"

definition delete_subscriber :: "string \<Rightarrow> string \<Rightarrow> hub_stmt" where
  "delete_subscriber n sid = (\<lambda>(h, l). (if hv_existing l = None then h
     else upd_room n (\<lambda>room. room\<lparr>cr_subscribers := filter (\<lambda>s. fst s \<noteq> sid) (cr_subscribers room)\<rparr>) h, l))"

definition close_existing :: hub_stmt where
  "close_existing = (\<lambda>(h, l).
     (case hv_existing l of
        None \<Rightarrow> (h, l)
      | Some ch \<Rightarrow> (case close_chan ch (hub_chans h) of (p, cs) \<Rightarrow> (h\<lparr>hub_chans := cs\<rparr>, l\<lparr>hv_panic := p\<rparr>))))"

definition append_history :: "string \<Rightarrow> chatEvent \<Rightarrow> hub_stmt" where
  "append_history n ev = (\<lambda>(h, l). (upd_room n (\<lambda>room. room\<lparr>cr_history := cr_history room @ [ev]\<rparr>) h, l))"

definition cut_history :: "string \<Rightarrow> hub_stmt" where
  "cut_history n = (\<lambda>(h, l). (upd_room n (\<lambda>room. room\<lparr>cr_history := trim_history (cr_history room)\<rparr>) h, l))"

definition copy_subscribers :: "string \<Rightarrow> hub_stmt" where
  "copy_subscribers n = (\<lambda>(h, l). (h, l\<lparr>hv_subscribers := map snd (subs_of h n)\<rparr>))"

fun hub_body :: "golib \<Rightarrow> hub_op \<Rightarrow> hub_stmt list" where
  "hub_body L (HubSubscribe room now) =
     (let n = normalizeRoomName L room
      in [make_channel, ensure_room n, put_subscriber n (''sub-'' @ show_int now), clone_history n])"
| "hub_body L (HubUnsubscribe room sid) =
     (let n = normalizeRoomName L room in [find_existing n sid, delete_subscriber n sid, close_existing])"
| "hub_body L (HubPublish room ev) =
     (let n = normalizeRoomName L room
      in [ensure_room n, append_history n (ev\<lparr>ce_Room := n\<rparr>), cut_history n, copy_subscribers n])"

lemmas hub_stmts = make_channel_def ensure_room_def put_subscriber_def clone_history_def find_existing_def
  delete_subscriber_def close_existing_def append_history_def cut_history_def copy_subscribers_def

section \<open>The atomic operations\<close>

fun hub_atomic :: "golib \<Rightarrow> hub_op \<Rightarrow> chatHub \<Rightarrow> chatHub \<times> hub_vars" where
  "hub_atomic L (HubSubscribe room now) h =
     (case subscribe L now room h of
        ((sid, hist, ch), h') \<Rightarrow> (h', no_hub_vars\<lparr>hv_ch := ch, hv_history := hist\<rparr>))"
| "hub_atomic L (HubUnsubscribe room sid) h =
     (case unsubscribe (normalizeRoomName L room) sid h of
        (p, h') \<Rightarrow> (h', no_hub_vars\<lparr>hv_existing := map_of (subs_of h (normalizeRoomName L room)) sid, hv_panic := p\<rparr>))"
| "hub_atomic L (HubPublish room ev) h =
     (case publish_locked L room ev h of ((ev, chs), h') \<Rightarrow> (h', no_hub_vars\<lparr>hv_subscribers := chs\<rparr>))"

lemma ensured:
  assumes "ensureRoomLocked n h = (room, h')"
  shows "hub_rooms h' n = Some room"
  using assms by (auto simp: ensureRoomLocked_def Let_def split: option.splits)

lemma subscribe_stmts: "run_stmts (hub_body L (HubSubscribe room now)) (h, no_hub_vars) = hub_atomic L (HubSubscribe room now) h"
proof -
  let ?n = "normalizeRoomName L room"
  let ?h1 = "h\<lparr>hub_chans := hub_chans h @ [\<lparr>ch_buf = [], ch_closed = False\<rparr>]\<rparr>"
  obtain rm h2 where e: "ensureRoomLocked ?n ?h1 = (rm, h2)" by (cases "ensureRoomLocked ?n ?h1")
  with ensured [OF e] show ?thesis
    by (simp add: hub_stmts Let_def subscribe_def upd_room_def history_of_def no_hub_vars_def)
qed

lemma publish_stmts: "run_stmts (hub_body L (HubPublish room ev)) (h, no_hub_vars) = hub_atomic L (HubPublish room ev) h"
proof -
  let ?n = "normalizeRoomName L room"
  obtain rm h2 where e: "ensureRoomLocked ?n h = (rm, h2)" by (cases "ensureRoomLocked ?n h")
  with ensured [OF e] show ?thesis
    by (simp add: hub_stmts Let_def publish_locked_def upd_room_def subs_of_def no_hub_vars_def)
qed

lemma unsubscribe_stmts:
  "run_stmts (hub_body L (HubUnsubscribe room sid)) (h, no_hub_vars) = hub_atomic L (HubUnsubscribe room sid) h"
proof (cases "hub_rooms h (normalizeRoomName L room)")
  case (Some rm)
  then show ?thesis
    by (cases "map_of (cr_subscribers rm) sid")
      (simp_all add: hub_stmts Let_def unsubscribe_def upd_room_def subs_of_def no_hub_vars_def split: prod.split)
qed (simp add: hub_stmts Let_def unsubscribe_def subs_of_def no_hub_vars_def)

interpretation hub_lock: critical_section "hub_body L" no_hub_vars "hub_atomic L" for L
proof
  show "run_stmts (hub_body L p) (h, no_hub_vars) = hub_atomic L p h" for p h
    by (cases p) (simp_all only: subscribe_stmts publish_stmts unsubscribe_stmts)
qed

section \<open>Serial runs are runs of the hub\<close>

fun hub_ev_of :: "hub_op \<Rightarrow> hub_ev" where
  "hub_ev_of (HubSubscribe room now) = Subscribe room now"
| "hub_ev_of (HubUnsubscribe room sid) = Unsubscribe room sid"
| "hub_ev_of (HubPublish room ev) = PubLock room ev"

abbreviation hub_evs :: "(nat \<times> hub_op) list \<Rightarrow> hub_ev list" where
  "hub_evs h \<equiv> map (\<lambda>x. hub_ev_of (snd x)) h"

lemma atomic_step: "fst (hub_atomic L p (hs_hub s)) = hs_hub (hub_step L s (hub_ev_of p))"
  by (cases p) (simp_all split: prod.split)

lemma serial_run: "serial (hub_atomic L) h newChatHub = hs_hub (hub_run L (hub_evs h))"
proof (induction h rule: rev_induct)
  case Nil
  show ?case by (simp add: hub_run_def hub_start_def)
next
  case (snoc x h)
  obtain g p where "x = (g, p)" by (cases x)
  with snoc atomic_step [of L p] show ?case by (simp add: hub_run_snoc)
qed

section \<open>A subscription lasts\<close>

lemma map_of_sub_put: "map_of (sub_put k v m) x = (if x = k then Some v else map_of m x)"
  by (induction k v m rule: sub_put.induct) auto

lemma map_of_delete: "x \<noteq> k \<Longrightarrow> map_of (filter (\<lambda>s. fst s \<noteq> k) m) x = map_of m x"
  by (induction m) auto

lemma subs_of_ensure: "subs_of (snd (ensureRoomLocked n h)) r = subs_of h r"
  "ensureRoomLocked n h = (room, h') \<Longrightarrow> cr_subscribers room = subs_of h n"
  by (auto simp: ensureRoomLocked_def subs_of_def Let_def split: option.splits)

lemma subs_of_subscribe:
  "subs_of (snd (subscribe L now room h)) r =
     (if r = normalizeRoomName L room then sub_put (''sub-'' @ show_int now) (length (hub_chans h)) (subs_of h r)
      else subs_of h r)"
proof -
  let ?n = "normalizeRoomName L room"
  let ?h1 = "h\<lparr>hub_chans := hub_chans h @ [\<lparr>ch_buf = [], ch_closed = False\<rparr>]\<rparr>"
  obtain rm h2 where e: "ensureRoomLocked ?n ?h1 = (rm, h2)" by (cases "ensureRoomLocked ?n ?h1")
  have "subs_of ?h1 r = subs_of h r" for r by (simp add: subs_of_def)
  with subs_of_ensure(1) [of ?n ?h1 r] subs_of_ensure(2) [OF e] e show ?thesis
    by (auto simp: subscribe_def Let_def subs_of_def)
qed

lemma subs_of_publish: "subs_of (snd (publish_locked L room ev h)) r = subs_of h r"
proof -
  let ?n = "normalizeRoomName L room"
  obtain rm h2 where e: "ensureRoomLocked ?n h = (rm, h2)" by (cases "ensureRoomLocked ?n h")
  with subs_of_ensure(1) [of ?n h r] subs_of_ensure(2) [OF e] show ?thesis
    by (auto simp: publish_locked_def Let_def subs_of_def)
qed

lemma subs_of_unsubscribe:
  "r \<noteq> n \<or> sid \<noteq> sid' \<Longrightarrow> map_of (subs_of (snd (unsubscribe n sid' h)) r) sid = map_of (subs_of h r) sid"
  by (auto simp: unsubscribe_def subs_of_def Let_def map_of_delete split: option.split prod.split)

text \<open>The operations that end a subscription: its own unsubscribe, or a new one with the same ID.\<close>

fun ends_sub :: "golib \<Rightarrow> string \<Rightarrow> int \<Rightarrow> hub_op \<Rightarrow> bool" where
  "ends_sub L n now (HubSubscribe room now') = (normalizeRoomName L room = n \<and> now' = now)"
| "ends_sub L n now (HubUnsubscribe room sid) = (normalizeRoomName L room = n \<and> sid = ''sub-'' @ show_int now)"
| "ends_sub L n now (HubPublish room ev) = False"

lemma atomic_keeps_sub:
  assumes "\<not> ends_sub L n now p"
  shows "map_of (subs_of (fst (hub_atomic L p h)) n) (''sub-'' @ show_int now) = map_of (subs_of h n) (''sub-'' @ show_int now)"
  using assms
proof (cases p)
  case (HubSubscribe room now')
  with assms show ?thesis using subs_of_subscribe [of L now' room h n]
    by (auto simp: map_of_sub_put split: prod.split)
next
  case (HubUnsubscribe room sid)
  with assms show ?thesis using subs_of_unsubscribe [of n "normalizeRoomName L room" "''sub-'' @ show_int now" sid h]
    by (auto split: prod.split)
next
  case (HubPublish room ev)
  then show ?thesis using subs_of_publish [of L room ev h n] by (auto split: prod.split)
qed

lemma serial_keeps_sub:
  assumes "\<And>g p. (g, p) \<in> set hist \<Longrightarrow> \<not> ends_sub L n now p"
  shows "map_of (subs_of (serial (hub_atomic L) hist h) n) (''sub-'' @ show_int now) =
    map_of (subs_of h n) (''sub-'' @ show_int now)"
  using assms
proof (induction hist arbitrary: h)
  case (Cons x hist)
  obtain g p where x: "x = (g, p)" by (cases x)
  with Cons.prems have "\<not> ends_sub L n now p" by auto
  from Cons.IH [of "fst (hub_atomic L p h)"] atomic_keeps_sub [OF this, of h] Cons.prems show ?case by (auto simp: x)
qed simp

text \<open>What the two operations answer at their places in a history.\<close>

lemma subscribe_vars:
  assumes "snd (hub_atomic L (HubSubscribe room now) h) = l"
  shows "hv_history l = history_of h (normalizeRoomName L room)"
    "map_of (subs_of (fst (hub_atomic L (HubSubscribe room now) h)) (normalizeRoomName L room)) (''sub-'' @ show_int now) = Some (hv_ch l)"
proof -
  let ?n = "normalizeRoomName L room"
  let ?h1 = "h\<lparr>hub_chans := hub_chans h @ [\<lparr>ch_buf = [], ch_closed = False\<rparr>]\<rparr>"
  obtain rm h2 where e: "ensureRoomLocked ?n ?h1 = (rm, h2)" by (cases "ensureRoomLocked ?n ?h1")
  have "history_of ?h1 ?n = history_of h ?n" by (simp add: history_of_def)
  with ensure_history [OF e] assms e show "hv_history l = history_of h ?n"
    by (auto simp: subscribe_def Let_def)
  have "hv_ch l = length (hub_chans h)" using assms e by (auto simp: subscribe_def Let_def)
  with subs_of_subscribe [of L now room h ?n]
  show "map_of (subs_of (fst (hub_atomic L (HubSubscribe room now) h)) ?n) (''sub-'' @ show_int now) = Some (hv_ch l)"
    by (auto simp: map_of_sub_put split: prod.split)
qed

lemma publish_vars:
  assumes "snd (hub_atomic L (HubPublish room ev) h) = l"
  shows "hv_subscribers l = map snd (subs_of h (normalizeRoomName L room))"
proof -
  let ?n = "normalizeRoomName L room"
  obtain rm h2 where e: "ensureRoomLocked ?n h = (rm, h2)" by (cases "ensureRoomLocked ?n h")
  with assms subs_of_ensure(2) [OF e] show ?thesis by (auto simp: publish_locked_def Let_def)
qed

lemma subscribed_at_publish:
  assumes "h = h1 @ (g, HubSubscribe room now) # m @ (g', HubPublish room' ev) # h2"
    and "\<And>k p. (k, p) \<in> set m \<Longrightarrow> \<not> ends_sub L (normalizeRoomName L room) now p"
    and "normalizeRoomName L room' = normalizeRoomName L room"
    and "l = snd (hub_atomic L (HubSubscribe room now) (serial (hub_atomic L) h1 s0))"
    and "l' = snd (hub_atomic L (HubPublish room' ev) (serial (hub_atomic L) (h1 @ (g, HubSubscribe room now) # m) s0))"
  shows "hv_ch l \<in> set (hv_subscribers l')"
proof -
  let ?n = "normalizeRoomName L room" and ?sid = "''sub-'' @ show_int now"
  let ?s = "serial (hub_atomic L) (h1 @ (g, HubSubscribe room now) # m) s0"
  have "map_of (subs_of ?s ?n) ?sid = Some (hv_ch l)"
    using serial_keeps_sub [OF assms(2)] subscribe_vars(2) [OF assms(4) [symmetric]] by simp
  from imageI [OF map_of_SomeD [OF this], of snd] have "hv_ch l \<in> set (map snd (subs_of ?s ?n))" by simp
  with publish_vars [OF assms(5) [symmetric]] assms(3) show ?thesis by simp
qed

section \<open>Properties of the hub under its mutex\<close>

text \<open>
  C26: A chat session misses nothing. Take any run of subscribing, leaving and publishing goroutines, with any
  interleaving of their statements. In the order in which the mutex was taken (\<open>lock_order\<close>), which contains every
  finished operation, the history a finished subscribe returned is the last 120 events published to the room
  before it; and every finished publish to the room after it has the channel of the subscription among those
  it sends to, unless in between the subscription was ended by its own unsubscribe or replaced by another
  subscribe of the room at the same nanosecond.
\<close>

theorem chat_no_gap:
  assumes "lk_run (hub_body L) no_hub_vars es (lk_start newChatHub) = Some st"
    and "g < length (lk_routines st)" "lk_routines st ! g = Released (HubSubscribe room now) l"
  shows "\<exists>h1 h2. lock_order es = h1 @ (g, HubSubscribe room now) # h2 \<and>
     (\<forall>g' < length (lk_routines st). \<forall>p l'. lk_routines st ! g' = Released p l' \<longrightarrow> (g', p) \<in> set (lock_order es)) \<and>
     hv_history l = (let before = room_log L (normalizeRoomName L room) (hub_evs h1)
                     in drop (length before - chatHistoryLimit) before) \<and>
     (\<forall>m g' room' ev h3 l'. h2 = m @ (g', HubPublish room' ev) # h3 \<longrightarrow>
        lk_routines st ! g' = Released (HubPublish room' ev) l' \<longrightarrow>
        normalizeRoomName L room' = normalizeRoomName L room \<longrightarrow>
        (\<forall>i p. (i, p) \<in> set m \<longrightarrow> \<not> ends_sub L (normalizeRoomName L room) now p) \<longrightarrow>
        hv_ch l \<in> set (hv_subscribers l'))"
proof -
  let ?h = "lock_order es"
  have h: "explains (hub_atomic L) ?h newChatHub st" using hub_lock.run_ok [OF assms(1)] by blast
  from explainsD(3) [OF h assms(2)] assms(3) obtain h1 h2 where d: "?h = h1 @ (g, HubSubscribe room now) # h2"
    "l = snd (hub_atomic L (HubSubscribe room now) (serial (hub_atomic L) h1 newChatHub))" by auto
  have pubs: "hv_ch l \<in> set (hv_subscribers l')"
    if m: "h2 = m @ (g', HubPublish room' ev) # h3" "\<And>i p. (i, p) \<in> set m \<Longrightarrow> \<not> ends_sub L (normalizeRoomName L room) now p"
      and r: "lk_routines st ! g' = Released (HubPublish room' ev) l'"
        "normalizeRoomName L room' = normalizeRoomName L room" for m g' room' ev h3 l'
  proof -
    have at: "?h = (h1 @ (g, HubSubscribe room now) # m) @ (g', HubPublish room' ev) # h3" using d(1) m(1) by simp
    have "g' < length (lk_routines st)" by (rule conjunct1 [OF history_op [OF h, of g' "HubPublish room' ev"]]) (simp add: at)
    from explainsD(3) [OF h this] r(1) obtain k1 k2 where k: "?h = k1 @ (g', HubPublish room' ev) # k2"
      "l' = snd (hub_atomic L (HubPublish room' ev) (serial (hub_atomic L) k1 newChatHub))" by auto
    have "k1 = h1 @ (g, HubSubscribe room now) # m"
      by (rule distinct_split [OF explainsD(1) [OF h] k(1) at])
    with k(2) have pub: "l' = snd (hub_atomic L (HubPublish room' ev)
        (serial (hub_atomic L) (h1 @ (g, HubSubscribe room now) # m) newChatHub))" by (simp only:)
    have "?h = h1 @ (g, HubSubscribe room now) # m @ (g', HubPublish room' ev) # h3" using d(1) m(1) by simp
    from subscribed_at_publish [OF this m(2) r(2) d(2) pub] show ?thesis .
  qed
  have hist: "hv_history l = (let before = room_log L (normalizeRoomName L room) (hub_evs h1)
      in drop (length before - chatHistoryLimit) before)"
    using subscribe_vars(1) [OF d(2) [symmetric]] hub_history [of L "hub_evs h1" "normalizeRoomName L room"]
    by (simp add: serial_run Let_def)
  have finished: "(g', p) \<in> set ?h" if "g' < length (lk_routines st)" "lk_routines st ! g' = Released p l'" for g' p l'
    using explainsD(3) [OF h that(1)] that(2) by auto
  show ?thesis
    by (rule exI [where x = h1], rule exI [where x = h2], intro conjI allI impI)
      (rule d(1), rule finished, assumption+, rule hist, rule pubs, assumption, blast, assumption+)
qed

text \<open>A session subscribes while a message for its room waits for the lock.\<close>

definition hello_event :: chatEvent where
  "hello_event = \<lparr>ce_ID = ''msg-1'', ce_Kind = ''message'', ce_Room = ''lobby'', ce_Sender = ''Zoe'', ce_ClientID = ''c1'',
     ce_Text = ''hi'', ce_SentAt = 0\<rparr>"

definition sub_and_pub :: "(hub_op, chatHub, hub_vars) locked" where
  "sub_and_pub = the (lk_run (hub_body sample_lib) no_hub_vars
     [Call (HubSubscribe ''lobby'' 7), Lock 0, Stmt 0, Call (HubPublish ''lobby'' hello_event), Stmt 0, Stmt 0, Stmt 0,
      Unlock 0, Lock 1, Stmt 1, Stmt 1, Stmt 1, Stmt 1, Unlock 1] (lk_start newChatHub))"

lemma sub_and_pub_eval:
  "lk_run (hub_body sample_lib) no_hub_vars
     [Call (HubSubscribe ''lobby'' 7), Lock 0, Stmt 0, Call (HubPublish ''lobby'' hello_event), Stmt 0, Stmt 0, Stmt 0,
      Unlock 0, Lock 1, Stmt 1, Stmt 1, Stmt 1, Stmt 1, Unlock 1] (lk_start newChatHub) = Some sub_and_pub"
  "lk_routines sub_and_pub = [Released (HubSubscribe ''lobby'' 7) no_hub_vars,
     Released (HubPublish ''lobby'' hello_event) (no_hub_vars\<lparr>hv_subscribers := [0]\<rparr>)]"
  by (simp_all add: sub_and_pub_def lk_start_def newChatHub_def hub_stmts Let_def ensureRoomLocked_def upd_room_def
      subs_of_def history_of_def no_hub_vars_def)

lemma sub_and_pub_order:
  "lock_order [Call (HubSubscribe ''lobby'' 7), Lock 0, Stmt 0, Call (HubPublish ''lobby'' hello_event), Stmt 0, Stmt 0,
     Stmt 0, Unlock 0, Lock 1, Stmt 1, Stmt 1, Stmt 1, Stmt 1, Unlock 1] =
   [] @ (0, HubSubscribe ''lobby'' 7) # [(1, HubPublish ''lobby'' hello_event)]"
  by (simp add: lock_order_def)

theorem chat_no_gap_witness:
  "hv_history no_hub_vars = [] \<and> hv_ch no_hub_vars \<in> set (hv_subscribers (no_hub_vars\<lparr>hv_subscribers := [0]\<rparr>))"
proof -
  have r: "0 < length (lk_routines sub_and_pub)" "lk_routines sub_and_pub ! 0 = Released (HubSubscribe ''lobby'' 7) no_hub_vars"
    "lk_routines sub_and_pub ! 1 = Released (HubPublish ''lobby'' hello_event) (no_hub_vars\<lparr>hv_subscribers := [0]\<rparr>)"
    by (simp_all add: sub_and_pub_eval(2))
  from chat_no_gap [OF sub_and_pub_eval(1) r(1,2)] obtain h1 h2 where
    h: "[] @ (0, HubSubscribe ''lobby'' 7) # [(1, HubPublish ''lobby'' hello_event)] = h1 @ (0, HubSubscribe ''lobby'' 7) # h2"
    and hist: "hv_history no_hub_vars = (let before = room_log sample_lib (normalizeRoomName sample_lib ''lobby'') (hub_evs h1)
                     in drop (length before - chatHistoryLimit) before)"
    and pub: "\<And>m g' room' ev h3 l'. h2 = m @ (g', HubPublish room' ev) # h3 \<Longrightarrow>
        lk_routines sub_and_pub ! g' = Released (HubPublish room' ev) l' \<Longrightarrow>
        normalizeRoomName sample_lib room' = normalizeRoomName sample_lib ''lobby'' \<Longrightarrow>
        (\<forall>i p. (i, p) \<in> set m \<longrightarrow> \<not> ends_sub sample_lib (normalizeRoomName sample_lib ''lobby'') 7 p) \<Longrightarrow>
        hv_ch no_hub_vars \<in> set (hv_subscribers l')"
    unfolding sub_and_pub_order by blast
  from h have "h1 = []" "h2 = [] @ (1, HubPublish ''lobby'' hello_event) # []" by (auto simp: Cons_eq_append_conv)
  with hist pub [OF this(2) r(3)] show ?thesis by simp
qed

end
