(* ===== verification/Client.thy ===== *)
theory Client
  imports Dispatch
begin

text \<open>
  framework/client.go: a request over one stream of a QUIC connection. The connection is
  the parameter \<open>net\<close>: from the bytes the client has written on the stream, the bytes that come
  back on it and the error at their end. \<open>open_stream\<close> is the result of OpenStreamSync, \<open>now\<close> the
  value of \<^verbatim>\<open>time.Now().UnixNano()\<close>.
\<close>

section \<open>Requests\<close>

text \<open>The \<^verbatim>\<open>body interface{}\<close> argument: nil, a byte slice, or any other value.\<close>

datatype 'v body = BNil | BBytes bytes | BValue 'v

type_synonym network = "bytes \<Rightarrow> bytes \<times> goerr"

definition await_reply :: "network \<Rightarrow> gostream \<Rightarrow> gostream" where
  "await_reply net s = s\<lparr>rx := rx s @ fst (net (tx s)), rend := snd (net (tx s))\<rparr>"

definition client_request :: "int \<Rightarrow> string \<Rightarrow> string \<Rightarrow> gomap \<Rightarrow> bytes \<Rightarrow> Request" where
  "client_request now method path headers body =
     \<lparr>req_ID = ''req-'' @ show_int now, req_Method = method, req_Path = path,
      req_Headers = headers, req_Body = body, req_Stream = False\<rparr>"

definition body_bytes :: "'v msgpack \<Rightarrow> 'v body \<Rightarrow> goerr + bytes" where
  "body_bytes M body =
     (case body of
        BNil \<Rightarrow> Inr []
      | BBytes b \<Rightarrow> Inr b
      | BValue v \<Rightarrow> wrap_err ''quicframe: marshal body: '' (Marshal M (PValue v)))"

text \<open>The part after the write: one frame is read and interpreted.\<close>

definition client_receive :: "'v msgpack \<Rightarrow> gostream \<Rightarrow> (goerr + Response) outcome" where
  "client_receive M s =
     (case fst (ReadFrame s) of
        Inl err \<Rightarrow> Ret (Inl err)
      | Inr (ft, data) \<Rightarrow>
          if ft = FrameTypeError then
            (case DecodeError M data of
               Inl err \<Rightarrow> Panic ''runtime error: invalid memory address or nil pointer dereference''
             | Inr errFrame \<Rightarrow>
                 Ret (Inl (Err (''quicframe: server error '' @ show_int (ef_Code errFrame) @
                     '': '' @ ef_Message errFrame))))
          else if ft \<noteq> FrameTypeResponse then
            Ret (Inl (Err (''unexpected frame type: '' @ show_nat (unat ft))))
          else Ret (DecodeResponse M data))"

definition RequestWithHeaders ::
    "'v msgpack \<Rightarrow> goerr + gostream \<Rightarrow> network \<Rightarrow> int \<Rightarrow> string \<Rightarrow> string \<Rightarrow> gomap \<Rightarrow> 'v body \<Rightarrow>
       (goerr + Response) outcome" where
  "RequestWithHeaders M open_stream net now method path headers body =
     (case open_stream of
        Inl err \<Rightarrow> Ret (Inl err)
      | Inr stream \<Rightarrow>
          (case body_bytes M body of
             Inl err \<Rightarrow> Ret (Inl err)
           | Inr b \<Rightarrow>
               (case WriteFrame M stream FrameTypeRequest
                       (PRequest (client_request now method path headers b)) of
                  (Some err, s) \<Rightarrow> Ret (Inl err)
                | (None, s) \<Rightarrow> client_receive M (await_reply net s))))"

definition Client_Request ::
    "'v msgpack \<Rightarrow> goerr + gostream \<Rightarrow> network \<Rightarrow> int \<Rightarrow> string \<Rightarrow> string \<Rightarrow> 'v body \<Rightarrow>
       (goerr + Response) outcome" where
  "Client_Request M open_stream net now method path body =
     RequestWithHeaders M open_stream net now method path None body"

text \<open>One tick of WatchCertFile: the pinned hashes and the last hash seen.\<close>

definition watch_tick :: "goerr + string \<Rightarrow> string list \<times> string \<Rightarrow> string list \<times> string" where
  "watch_tick hash st =
     (case hash of
        Inl err \<Rightarrow> st
      | Inr h \<Rightarrow> if h \<noteq> snd st then ([h], h) else st)"

section \<open>A server behind the connection\<close>

text \<open>
  The stream as the server's goroutine sees it when the client has written \<open>req\<close> and closes its
  side, and the connection that such a server makes.
\<close>

definition server_stream :: "bytes \<Rightarrow> gostream" where
  "server_stream req = \<lparr>rx = req, rend = io_EOF, tx = [], wfail = None\<rparr>"

definition served_by ::
    "golib \<Rightarrow> 'v msgpack \<Rightarrow> ('v, 'x world_scheme) App \<Rightarrow> gocontext option \<Rightarrow> peer \<Rightarrow>
       'x world_scheme \<Rightarrow> network" where
  "served_by L M a ctx peer w req =
     (tx (fst (snd (dispatchStream L M a ctx peer (server_stream req) w))), io_EOF)"

section \<open>What the client makes of a reply\<close>

fun client_view :: "'v msgpack \<Rightarrow> msg list \<Rightarrow> (goerr + Response) outcome" where
  "client_view M [] = Ret (Inl (Wrap ''quicframe/protocol: read header: '' io_EOF))"
| "client_view M (MResp r # _) = Ret (DecodeResponse M (snd (msg_frame M (MResp r))))"
| "client_view M (MErr e # _) =
     (case DecodeError M (snd (msg_frame M (MErr e))) of
        Inl err \<Rightarrow> Panic ''runtime error: invalid memory address or nil pointer dereference''
      | Inr ef \<Rightarrow> Ret (Inl (Err (''quicframe: server error '' @ show_int (ef_Code ef) @ '': '' @
                    ef_Message ef))))"
| "client_view M (MData k # _) = Ret (Inl (Err ''unexpected frame type: 3''))"
| "client_view M (MEnd k # _) = Ret (Inl (Err ''unexpected frame type: 4''))"

lemma show_nat_34: "show_nat 3 = ''3''" "show_nat 4 = ''4''"
  by code_simp+

lemma client_receive_view:
  assumes "msgs_below_4GiB M ms" "list_all (sendable M) ms"
    and "rx s = wire_bytes M ms" "rend s = io_EOF"
  shows "client_receive M s = client_view M ms"
proof (cases ms)
  case Nil
  with assms show ?thesis
    by (simp add: client_receive_def ReadFrame_def io_ReadFull_def)
next
  case (Cons m ms')
  then have "ReadFrame s = (Inr (msg_frame M m), s\<lparr>rx := wire_bytes M ms'\<rparr>)"
    using assms sendable_fits [of M m] ReadFrame_encode [of "fst (msg_frame M m)" "snd (msg_frame M m)" s]
    by (simp add: msgs_below_4GiB_def)
  with Cons show ?thesis
    by (cases m) (simp_all add: client_receive_def msg_frame_def FrameType_defs show_nat_34)
qed

text \<open>
  A client whose stream some dispatcher has answered: \<open>net\<close> brings back what that dispatcher wrote,
  whenever and in whatever state of the server it ran.
\<close>

lemma client_meets_dispatch:
  assumes "app_within (api_reach M) a" "list_all quiet (app_afterMiddleware a)"
    and "body_bytes M body = Inr b" "req = client_request now method path headers b"
    and "Marshal M (PRequest req) = Inr enc" "Unmarshal_Request M enc = Inr req"
    and "1 + length enc \<le> unat MaxFrameSize"
    and "dispatchStream L M a ctx peer (server_stream (encode_frame (FrameTypeRequest, enc))) w = (r, s', w')"
    and "net (encode_frame (FrameTypeRequest, enc)) = (tx s', io_EOF)"
  shows "\<exists>rep. reply_shape (req_ID req) rep \<and> tx s' = wire_bytes M (reply_msgs (req_ID req) rep) \<and>
    (msgs_below_4GiB M (reply_msgs (req_ID req) rep) \<longrightarrow>
       RequestWithHeaders M (Inr fresh_stream) net now method path headers body =
         client_view M (reply_msgs (req_ID req) rep))"
proof -
  let ?f = "encode_frame (FrameTypeRequest, enc)"
  have fits: "frame_fits (FrameTypeRequest, enc)"
    using assms(7) by (simp add: frame_fits_def unat_MaxFrameSize)
  have read: "ReadFrame (server_stream ?f) = (Inr (FrameTypeRequest, enc), (server_stream ?f)\<lparr>rx := []\<rparr>)"
    by (rule ReadFrame_encode [OF fits]) (simp add: server_stream_def)
  have dec: "DecodeRequest M enc = Inr req" by (simp add: DecodeRequest_def wrap_err_def assms(6))
  have h: "healthy ((server_stream ?f)\<lparr>rx := []\<rparr>)" by (simp add: server_stream_def healthy_def)
  have "dispatchRequest L M a ctx peer ((server_stream ?f)\<lparr>rx := []\<rparr>) req w = (r, s', w')"
    using dispatchStream_request [OF read dec, of L a ctx peer w] assms(8) by simp
  from dispatchRequest_reply [OF assms(1,2) h this] obtain rep where rep: "reply_shape (req_ID req) rep"
      "list_all (sendable M) (reply_msgs (req_ID req) rep)" "tx s' = wire_bytes M (reply_msgs (req_ID req) rep)"
    by (auto simp: server_stream_def)
  have wr: "WriteFrame M fresh_stream FrameTypeRequest (PRequest req) = (None, fresh_stream\<lparr>tx := ?f\<rparr>)"
    using WriteFrame_healthy [of fresh_stream M "PRequest req" enc FrameTypeRequest] assms(5)
      frame_fits_frameLen(1) [OF fits]
    by (simp add: fresh_stream_def healthy_def)
  have "RequestWithHeaders M (Inr fresh_stream) net now method path headers body =
      client_view M (reply_msgs (req_ID req) rep)" if "msgs_below_4GiB M (reply_msgs (req_ID req) rep)"
  proof -
    have "client_receive M (await_reply net (fresh_stream\<lparr>tx := ?f\<rparr>)) = client_view M (reply_msgs (req_ID req) rep)"
      by (rule client_receive_view [OF that rep(2)])
        (simp_all add: await_reply_def assms(9) rep(3) fresh_stream_def)
    then show ?thesis using wr assms(3,4) by (simp add: RequestWithHeaders_def)
  qed
  with rep show ?thesis by auto
qed

section \<open>Properties of the client\<close>

text \<open>
  A request over the wire. For a client on a fresh stream of a connection to a server whose App
  keeps to the Context's calls, and a MessagePack library that reads back the request it wrote,
  RequestWithHeaders returns (or panics with) exactly what the client makes of the first frame of a
  well-shaped reply to this request; the reply is the one the server's dispatcher wrote.
\<close>

theorem request_over_the_wire:
  assumes "app_within (api_reach M) a" "list_all quiet (app_afterMiddleware a)"
    and "body_bytes M body = Inr b" "req = client_request now method path headers b"
    and "Marshal M (PRequest req) = Inr enc" "Unmarshal_Request M enc = Inr req"
    and "1 + length enc \<le> unat MaxFrameSize"
  shows "\<exists>rep. reply_shape (req_ID req) rep \<and>
    fst (served_by L M a ctx peer w (encode_frame (FrameTypeRequest, enc))) =
      wire_bytes M (reply_msgs (req_ID req) rep) \<and>
    (msgs_below_4GiB M (reply_msgs (req_ID req) rep) \<longrightarrow>
       RequestWithHeaders M (Inr fresh_stream) (served_by L M a ctx peer w) now method path headers body =
         client_view M (reply_msgs (req_ID req) rep))"
proof -
  let ?f = "encode_frame (FrameTypeRequest, enc)"
  obtain r s' w' where d: "dispatchStream L M a ctx peer (server_stream ?f) w = (r, s', w')"
    by (cases "dispatchStream L M a ctx peer (server_stream ?f) w")
  then have "served_by L M a ctx peer w ?f = (tx s', io_EOF)" by (simp add: served_by_def)
  with client_meets_dispatch [OF assms d] show ?thesis by simp
qed

definition id_msgpack :: "Request \<Rightarrow> string msgpack" where
  "id_msgpack req = sample_msgpack\<lparr>Unmarshal_Request := \<lambda>bs. Inr req\<rparr>"

theorem request_over_the_wire_witness:
  "\<exists>rep. reply_shape (req_ID (client_request 5 ''GET'' ''/a'' None [])) rep \<and>
    fst (served_by sample_lib (id_msgpack (client_request 5 ''GET'' ''/a'' None []))
        (App_New (id_msgpack (client_request 5 ''GET'' ''/a'' None []))) None sample_peer sample_world
        (encode_frame (FrameTypeRequest, str_bytes ''/a''))) =
      wire_bytes (id_msgpack (client_request 5 ''GET'' ''/a'' None []))
        (reply_msgs (req_ID (client_request 5 ''GET'' ''/a'' None [])) rep) \<and>
    (msgs_below_4GiB (id_msgpack (client_request 5 ''GET'' ''/a'' None []))
        (reply_msgs (req_ID (client_request 5 ''GET'' ''/a'' None [])) rep) \<longrightarrow>
       RequestWithHeaders (id_msgpack (client_request 5 ''GET'' ''/a'' None [])) (Inr fresh_stream)
         (served_by sample_lib (id_msgpack (client_request 5 ''GET'' ''/a'' None []))
            (App_New (id_msgpack (client_request 5 ''GET'' ''/a'' None []))) None sample_peer sample_world)
         5 ''GET'' ''/a'' None BNil =
         client_view (id_msgpack (client_request 5 ''GET'' ''/a'' None []))
           (reply_msgs (req_ID (client_request 5 ''GET'' ''/a'' None [])) rep))"
  by (rule request_over_the_wire [where b = "[]"])
    (simp_all add: App_New_within, simp_all add: App_New_def body_bytes_def client_request_def
      id_msgpack_def sample_msgpack_def str_bytes_def unat_MaxFrameSize)

text \<open>
  Request IDs. Two requests get the same ID exactly when the clock read the same nanosecond.
\<close>

theorem request_ids_follow_the_clock:
  "req_ID (client_request t m p h b) = req_ID (client_request t' m' p' h' b') \<longleftrightarrow> t = t'"
  by (simp add: client_request_def)

text \<open>
  C38: A broken error frame crashes the caller. If the first frame the client receives is an error
  frame whose payload does not decode, RequestWithHeaders dereferences the nil frame: it panics
  instead of returning an error.
\<close>

theorem bad_error_frame_panics:
  assumes "body_bytes M body = Inr b" "Marshal M (PRequest (client_request now method path headers b)) = Inr enc"
    and "1 + length enc \<le> unat MaxFrameSize"
    and "fst (net (encode_frame (FrameTypeRequest, enc))) = encode_frame (FrameTypeError, bad) @ rest"
    and "1 + length bad \<le> unat MaxFrameSize" "Unmarshal_ErrorFrame M bad = Inl e"
  shows "is_panic (RequestWithHeaders M (Inr fresh_stream) net now method path headers body)"
proof -
  let ?f = "encode_frame (FrameTypeRequest, enc)"
  have fits: "frame_fits (FrameTypeRequest, enc)" "frame_fits (FrameTypeError, bad)"
    using assms(3,5) by (simp_all add: frame_fits_def unat_MaxFrameSize)
  have wr: "WriteFrame M fresh_stream FrameTypeRequest (PRequest (client_request now method path headers b)) =
      (None, fresh_stream\<lparr>tx := ?f\<rparr>)"
    using WriteFrame_healthy [of fresh_stream M _ enc FrameTypeRequest] assms(2)
      frame_fits_frameLen(1) [OF fits(1)]
    by (simp add: fresh_stream_def healthy_def)
  have "rx (await_reply net (fresh_stream\<lparr>tx := ?f\<rparr>)) = encode_frame (FrameTypeError, bad) @ rest"
    using assms(4) by (simp add: await_reply_def fresh_stream_def)
  from ReadFrame_encode [OF fits(2) this] assms(1,6) wr show ?thesis
    by (simp add: RequestWithHeaders_def client_receive_def DecodeError_def wrap_err_def)
qed

theorem bad_error_frame_panics_witness:
  "is_panic (RequestWithHeaders (sample_msgpack\<lparr>Unmarshal_ErrorFrame := \<lambda>bs. Inl io_EOF\<rparr>) (Inr fresh_stream)
     (\<lambda>bs. (encode_frame (FrameTypeError, [1]), io_EOF)) 5 ''GET'' ''/a'' None BNil)"
  by (rule bad_error_frame_panics [where b = "[]" and enc = "str_bytes ''/a''" and bad = "[1]" and rest = "[]"
        and e = io_EOF])
    (simp_all add: body_bytes_def client_request_def sample_msgpack_def unat_MaxFrameSize str_bytes_def)

end
