(* ===== verification/Client_State.thy ===== *)
theory Client_State
  imports Client Cert_Util
begin

text \<open>
  The certificate watcher of framework/client.go. The file system may be another one at every tick
  of the ticker; the hash is over the bytes of the file, as in the source.
\<close>

definition calculateCertHash :: "'k x509_lib \<Rightarrow> gofs \<Rightarrow> string \<Rightarrow> goerr + string" where
  "calculateCertHash lib fs certFile =
     (case os_ReadFile fs certFile of
        Inl err \<Rightarrow> Inl err
      | Inr data \<Rightarrow> Inr (hex_encode (Sum256 lib data)))"

text \<open>The loop over the ticks, with the variable lastHash.\<close>

fun watch_loop ::
    "'k x509_lib \<Rightarrow> string \<Rightarrow> gofs list \<Rightarrow> string \<Rightarrow> 'c Client \<Rightarrow> 'c Client" where
  "watch_loop lib certFile [] lastHash c = c"
| "watch_loop lib certFile (fs # ticks) lastHash c =
     (case watch_tick (calculateCertHash lib fs certFile) (cl_hashes c, lastHash) of
        (hashes, lastHash') \<Rightarrow> watch_loop lib certFile ticks lastHash' (c\<lparr>cl_hashes := hashes\<rparr>))"

definition WatchCertFile :: "'k x509_lib \<Rightarrow> string \<Rightarrow> gofs list \<Rightarrow> 'c Client \<Rightarrow> 'c Client" where
  "WatchCertFile lib certFile ticks c = watch_loop lib certFile ticks [] c"

text \<open>What the ticks could read, in order.\<close>

definition readings :: "string \<Rightarrow> gofs list \<Rightarrow> bytes list" where
  "readings certFile ticks = [b. Inr b \<leftarrow> map (\<lambda>fs. os_ReadFile fs certFile) ticks]"

lemma readings_simps [simp]:
  "readings f [] = []"
  "readings f (fs # ticks) = (case os_ReadFile fs f of Inl e \<Rightarrow> readings f ticks | Inr b \<Rightarrow> b # readings f ticks)"
  by (simp_all add: readings_def split: sum.split)

lemma watch_loop_hashes:
  assumes "\<And>d. Sum256 lib d \<noteq> []" "lastHash = [] \<or> cl_hashes c = [lastHash]"
  shows "watch_loop lib f ticks lastHash c =
    c\<lparr>cl_hashes := (if readings f ticks = [] then cl_hashes c else [hex_encode (Sum256 lib (last (readings f ticks)))])\<rparr>"
  using assms(2)
proof (induction ticks arbitrary: lastHash c)
  case (Cons fs ticks)
  show ?case
  proof (cases "os_ReadFile fs f")
    case (Inl e)
    with Cons show ?thesis by (simp add: watch_tick_def calculateCertHash_def)
  next
    case (Inr b)
    let ?h = "hex_encode (Sum256 lib b)"
    have "?h \<noteq> []" using assms(1) [of b] by (cases "Sum256 lib b") (simp_all add: hex_encode_def)
    with Cons.prems have t: "watch_tick (Inr ?h) (cl_hashes c, lastHash) = ([?h], ?h)"
      by (auto simp: watch_tick_def)
    from Cons.IH [of ?h "c\<lparr>cl_hashes := [?h]\<rparr>"] t Inr show ?thesis
      by (simp add: calculateCertHash_def)
  qed
qed simp

text \<open>
  The watcher pins the latest certificate. After any ticks, with the file readable at some and not
  at others, the client's hashes are the one hash of the content last read, and as before when none
  was; the connection is untouched.
\<close>

theorem watch_pins_latest:
  assumes "\<And>d. Sum256 lib d \<noteq> []"
  shows "WatchCertFile lib f ticks c =
    c\<lparr>cl_hashes := (if readings f ticks = [] then cl_hashes c else [hex_encode (Sum256 lib (last (readings f ticks)))])\<rparr>"
  unfolding WatchCertFile_def by (rule watch_loop_hashes [OF assms]) simp

theorem watch_pins_latest_witness:
  "WatchCertFile ((one_cert_lib 0 1 []) \<lparr>Sum256 := \<lambda>d. [1]\<rparr>) ''c'' [empty_fs\<lparr>fs_files := [''c'' \<mapsto> [2]]\<rparr>, empty_fs]
     (NewClientFromConn ()) =
   (NewClientFromConn ())\<lparr>cl_hashes := (if readings ''c'' [empty_fs\<lparr>fs_files := [''c'' \<mapsto> [2]]\<rparr>, empty_fs] = []
     then cl_hashes (NewClientFromConn ())
     else [hex_encode (Sum256 ((one_cert_lib 0 1 []) \<lparr>Sum256 := \<lambda>d. [1]\<rparr>)
       (last (readings ''c'' [empty_fs\<lparr>fs_files := [''c'' \<mapsto> [2]]\<rparr>, empty_fs])))])\<rparr>"
  by (rule watch_pins_latest) simp

end
