(* ===== verification/Example_Server.thy ===== *)
theory Example_Server
  imports Handlers "HOL-Library.AList"
begin

text \<open>
  cmd/example/main.go and examples/mtls-pki/main.go: the routes of two servers, one behind JWT and a
  rate limit, one behind mutual TLS. The clock readings of the handlers are \<^verbatim>\<open>time.Now()\<close> of the state;
  \<open>ticks\<close> are the times the /events handler receives from its ticker before its deadline.
\<close>

section \<open>Handlers of cmd/example\<close>

definition ex_ping :: "gvalue msgpack \<Rightarrow> (gvalue, 'w) HandlerFunc" where
  "ex_ping M c w = answer (Ctx_MsgPack M c 200 (gstrings [(''pong'', ''ok'')])) w"

definition ex_info :: "gvalue msgpack \<Rightarrow> (gvalue, 'x world_scheme) HandlerFunc" where
  "ex_info M c w =
     answer (Ctx_MsgPack M c 200
       (GMap [(''framework'', GStr ''QuicFrame''), (''transport'', GStr ''QUIC/1''),
              (''encoding'', GStr ''MsgPack''), (''time'', GInt (w_now w))])) w"

definition ex_users :: "gvalue msgpack \<Rightarrow> (gvalue, 'w) HandlerFunc" where
  "ex_users M c w =
     answer (Ctx_MsgPack M c 200
       (GMap [(''users'', GList
                [gstrings [(''id'', ''1''), (''name'', ''Alice''), (''role'', ''admin'')],
                 gstrings [(''id'', ''2''), (''name'', ''Bob''), (''role'', ''user'')]]),
              (''total'', GInt 2)])) w"

definition ex_user :: "gvalue msgpack \<Rightarrow> (gvalue, 'w) HandlerFunc" where
  "ex_user M c w =
     answer (Ctx_MsgPack M c 200 (gstrings [(''id'', Ctx_Param c ''id''), (''name'', ''Alice'')])) w"

text \<open>
  POST binds into a nil map. Bind leaves it nil when the body is empty, and a MessagePack nil decodes to
  it; an assignment to a nil map panics. A target of this type holds a map or nil.
\<close>

definition map_put :: "gvalue \<Rightarrow> string \<Rightarrow> gvalue \<Rightarrow> gvalue outcome" where
  "map_put m k v =
     (case m of
        GMap kvs \<Rightarrow> Ret (GMap (AList.update k v kvs))
      | _ \<Rightarrow> Panic ''assignment to entry in nil map'')"

definition ex_create :: "gvalue msgpack \<Rightarrow> (gvalue, 'x world_scheme) HandlerFunc" where
  "ex_create M c w =
     (case Ctx_Bind M c GNil of
        Inl err \<Rightarrow> answer (Ctx_Error M c 400 (''invalid body: '' @ err_text err) []) w
      | Inr payload \<Rightarrow>
          (case map_put payload ''id'' (GStr (show_int (w_now w))) of
             Panic v \<Rightarrow> (Panic v, c, w)
           | Ret payload' \<Rightarrow> answer (Ctx_MsgPack M c 201 payload') w))"

definition ex_delete :: "gvalue msgpack \<Rightarrow> (gvalue, 'w) HandlerFunc" where
  "ex_delete M c w = answer (Ctx_NoContent M c) w"

definition ex_upload :: "gvalue msgpack \<Rightarrow> logger \<Rightarrow> (gvalue, 'x world_scheme) HandlerFunc" where
  "ex_upload M lg c w =
     (let body = Ctx_Body c;
          w' = log_to lg LevelInfo ''upload received'' [(''bytes'', LvInt (int (length body)))] w;
          preview = (if length body > 8 then take 8 body else body)
      in answer (Ctx_MsgPack M c 200
           (GMap [(''received_bytes'', GInt (int (length body))), (''preview_hex'', GStr (hex_encode preview))])) w')"

definition count_value :: "int \<Rightarrow> nat \<Rightarrow> 'x world_scheme \<Rightarrow> gvalue" where
  "count_value count i w =
     GMap [(''seq'', GInt (int i)),
           (''data'', GStr (''chunk '' @ show_nat (i + 1) @ '' of '' @ show_int count)),
           (''ts'', GInt (w_now w))]"

definition ex_count :: "gvalue Context \<Rightarrow> int" where
  "ex_count c = (let count = Sscanf_d (Ctx_Param c ''count'') 5 in if count > 100 then 100 else count)"

definition ex_stream :: "gvalue msgpack \<Rightarrow> (gvalue, 'x world_scheme) HandlerFunc" where
  "ex_stream M c w =
     with_stream M 200 (Some [''x-format'' \<mapsto> ''msgpack-stream''])
       (\<lambda>c w. chunk_loop M True (100 * 1000000) (map (count_value (ex_count c)) [0 ..< nat (ex_count c)]) c w) c w"

definition event_tick :: "nat \<times> int \<Rightarrow> gvalue" where
  "event_tick it = GMap [(''event'', GStr ''tick''), (''seq'', GInt (int (fst it))), (''ts'', GInt (snd it))]"

definition ex_events :: "gvalue msgpack \<Rightarrow> int list \<Rightarrow> (gvalue, 'x world_scheme) HandlerFunc" where
  "ex_events M ticks =
     with_stream M 200 None (chunk_loop M True 0 (map (\<lambda>it w. event_tick it) (enumerate 0 ticks)))"

definition ex_files :: "gvalue msgpack \<Rightarrow> (gvalue, 'w) HandlerFunc" where
  "ex_files M c w =
     answer (Ctx_MsgPack M c 200 (gstrings [(''path'', Ctx_Param c ''path''), (''note'', ''demo placeholder'')])) w"

definition envOr :: "(string \<rightharpoonup> string) \<Rightarrow> string \<Rightarrow> string \<Rightarrow> string" where
  "envOr env key fallback =
     (case env key of Some v \<Rightarrow> if v \<noteq> [] then v else fallback | None \<Rightarrow> fallback)"

definition example_app ::
    "golib \<Rightarrow> gvalue msgpack \<Rightarrow> 'l limiter_lib \<Rightarrow> nat \<Rightarrow> string jwt_parser \<Rightarrow> (string \<rightharpoonup> string) \<Rightarrow> logger \<Rightarrow>
       (('l, 'x) rl_world_scheme \<Rightarrow> int list) \<Rightarrow> (gvalue, ('l, 'x) rl_world_scheme) App" where
  "example_app L M lib tid parse env lg ticks =
     (let app = App_SetLogger (App_New M) lg;
          app = App_Use app [Recovery M [Some lg], Logger [Some lg], RateLimitSimple M lib tid 500];
          app = App_GET L app ''/ping'' (ex_ping M);
          app = App_GET L app ''/info'' (ex_info M);
          jwtSecret = envOr env ''JWT_SECRET'' ''change-me-in-production'';
          api = App_Group ''/api/v1'' [JWTSimple M parse jwtSecret];
          app = Group_GET L app api ''/users'' (ex_users M);
          app = Group_GET L app api ''/users/:id'' (ex_user M);
          app = Group_POST L app api ''/users'' (ex_create M);
          app = Group_DELETE L app api ''/users/:id'' (ex_delete M);
          app = Group_POST L app api ''/upload'' (ex_upload M lg);
          app = App_GET L app ''/stream/:count'' (ex_stream M);
          app = App_GET L app ''/events'' (\<lambda>c w. ex_events M (ticks w) c w)
      in App_GET L app ''/files/*path'' (ex_files M))"

section \<open>examples/mtls-pki\<close>

text \<open>The verb \<^verbatim>\<open>%s\<close> on the value of a local; MTLSAuth stores a string, a missing local prints as below.\<close>

definition local_text :: "'v localval option \<Rightarrow> string" where
  "local_text v = (case v of Some (LString s) \<Rightarrow> s | _ \<Rightarrow> ''%!s(<nil>)'')"

definition secure_handler :: "'v msgpack \<Rightarrow> ('v, 'w) HandlerFunc" where
  "secure_handler M c w =
     answer (Ctx_Send M c 200
       (str_bytes (''Hello, '' @ local_text (Ctx_Get c ''node_id'') @ ''! Access granted via mTLS.''))) w"

definition mtls_app :: "golib \<Rightarrow> 'v msgpack \<Rightarrow> ('v, 'x world_scheme) App" where
  "mtls_app L M =
     (let app = App_Use (App_New M) [MTLSAuth M];
          app = App_Use app [Logger []]
      in App_GET L app ''/secure'' (secure_handler M))"

section \<open>The tables\<close>

abbreviation st :: "string \<Rightarrow> segment" where "st v \<equiv> \<lparr>seg_kind = segStatic, seg_value = v\<rparr>"
abbreviation pm :: "string \<Rightarrow> segment" where "pm v \<equiv> \<lparr>seg_kind = segParam, seg_value = v\<rparr>"

lemma example_patterns:
  "parsePattern ''/ping'' = [st ''ping'']" "parsePattern ''/info'' = [st ''info'']"
  "parsePattern (''/api/v1'' @ ''/users'') = [st ''api'', st ''v1'', st ''users'']"
  "parsePattern (''/api/v1'' @ ''/users/:id'') = [st ''api'', st ''v1'', st ''users'', pm ''id'']"
  "parsePattern (''/api/v1'' @ ''/upload'') = [st ''api'', st ''v1'', st ''upload'']"
  "parsePattern ''/stream/:count'' = [st ''stream'', pm ''count'']" "parsePattern ''/events'' = [st ''events'']"
  "parsePattern ''/files/*path'' = [st ''files'', \<lparr>seg_kind = segWildcard, seg_value = ''path''\<rparr>]"
  "parsePattern ''/secure'' = [st ''secure'']"
  by code_simp+

lemma example_methods:
  "ToUpper L ''GET'' = ''GET''" "ToUpper L ''POST'' = ''POST''" "ToUpper L ''DELETE'' = ''DELETE''"
  by (simp_all add: ToUpper_def is_ascii_def upper_char_def)

definition example_secret :: "(string \<rightharpoonup> string) \<Rightarrow> string" where
  "example_secret env = envOr env ''JWT_SECRET'' ''change-me-in-production''"

lemmas example_defs = App_GET_def Group_GET_def Group_POST_def Group_DELETE_def Group_handle_def App_Group_def
  addRoute_def App_Use_def App_New_def App_SetLogger_def Router_add_def newRouter_def

lemma example_app_fields:
  "app_middleware (example_app L M lib tid parse env lg ticks) =
     [Recovery M [Some lg], Logger [Some lg], RateLimitSimple M lib tid 500]"
  "app_afterMiddleware (example_app L M lib tid parse env lg ticks) = []"
  "r_NotFound (app_router (example_app L M lib tid parse env lg ticks)) =
     error_handler M 404 (\<lambda>c. ''no route for '' @ Ctx_Method c @ '' '' @ Ctx_Path c)"
  "r_MethodNotAllowed (app_router (example_app L M lib tid parse env lg ticks)) =
     error_handler M 405 (\<lambda>c. ''method '' @ Ctx_Method c @ '' not allowed on '' @ Ctx_Path c)"
  "r_routes (app_router (example_app L M lib tid parse env lg ticks)) =
     (let jwt = JWTSimple M parse (example_secret env) in
      [\<lparr>rt_method = ''GET'', rt_segments = [st ''ping''], rt_handler = ex_ping M\<rparr>,
       \<lparr>rt_method = ''GET'', rt_segments = [st ''info''], rt_handler = ex_info M\<rparr>,
       \<lparr>rt_method = ''GET'', rt_segments = [st ''api'', st ''v1'', st ''users''], rt_handler = jwt (ex_users M)\<rparr>,
       \<lparr>rt_method = ''GET'', rt_segments = [st ''api'', st ''v1'', st ''users'', pm ''id''], rt_handler = jwt (ex_user M)\<rparr>,
       \<lparr>rt_method = ''POST'', rt_segments = [st ''api'', st ''v1'', st ''users''], rt_handler = jwt (ex_create M)\<rparr>,
       \<lparr>rt_method = ''DELETE'', rt_segments = [st ''api'', st ''v1'', st ''users'', pm ''id''], rt_handler = jwt (ex_delete M)\<rparr>,
       \<lparr>rt_method = ''POST'', rt_segments = [st ''api'', st ''v1'', st ''upload''], rt_handler = jwt (ex_upload M lg)\<rparr>,
       \<lparr>rt_method = ''GET'', rt_segments = [st ''stream'', pm ''count''], rt_handler = ex_stream M\<rparr>,
       \<lparr>rt_method = ''GET'', rt_segments = [st ''events''], rt_handler = \<lambda>c w. ex_events M (ticks w) c w\<rparr>,
       \<lparr>rt_method = ''GET'', rt_segments = [st ''files'', \<lparr>seg_kind = segWildcard, seg_value = ''path''\<rparr>],
        rt_handler = ex_files M\<rparr>])"
  by (simp_all add: example_app_def example_defs example_methods example_patterns [simplified] example_secret_def Let_def)

section \<open>Contracts\<close>

lemma example_handlers:
  "handler_within (api_reach M) (ex_ping M)" "handler_within (api_reach M) (ex_info M)"
  "handler_within (api_reach M) (ex_users M)" "handler_within (api_reach M) (ex_user M)"
  "handler_within (api_reach M) (ex_create M)" "handler_within (api_reach M) (ex_delete M)"
  "handler_within (api_reach M) (ex_upload M lg)" "handler_within (api_reach M) (ex_files M)"
  "handler_within (api_reach M) (\<lambda>c w. ex_events M (ticks w) c w)"
  by (simp_all add: handler_within_def ex_ping_def ex_info_def ex_users_def ex_user_def ex_create_def ex_delete_def
      ex_upload_def ex_files_def ex_events_def Let_def api_reach.start split: sum.split outcome.split)

lemma ex_stream_within: "handler_within (api_reach M) (ex_stream M)"
proof -
  have "handler_within (api_reach M) (\<lambda>c w. chunk_loop M True (100 * 1000000)
      (map (count_value (ex_count c)) [0 ..< nat (ex_count c)]) c w)"
    using chunk_loop_within unfolding handler_within_def by blast
  from with_stream_within [OF this] show ?thesis
    by (simp add: ex_stream_def [abs_def])
qed

lemma example_app_within: "app_within (api_reach M) (example_app L M lib tid parse env lg ticks)"
proof -
  have new: "app_within (api_reach M) (App_SetLogger (App_New M) lg)"
    using App_New_within [of M] by (simp add: app_within_def App_SetLogger_def)
  show ?thesis
    unfolding example_app_def Let_def App_GET_def Group_GET_def Group_POST_def Group_DELETE_def Group_handle_def
    by (intro api.addRoute_within api.Use_within new)
      (simp_all add: example_handlers ex_stream_within App_Group_def Recovery_within Logger_within
        RateLimitSimple_def RateLimit_within JWTSimple_def JWT_within)
qed

section \<open>Properties of the example servers\<close>

text \<open>
  C30: The API group of the example server is guarded. Whatever path under /api/v1 and whatever method a
  request uses, without a Bearer token that is valid, signed with the configured secret and of
  algorithm HS256 the routed handler is a plain refusal (401, or 404 or 405 when there is no such
  route): no handler of the group runs.
\<close>

theorem example_api_guarded:
  assumes "parser_verifies signs parse" "splitPath path = ''api'' # ''v1'' # rest"
    and "\<And>str tok. Ctx_GetHeader c ''authorization'' = ''Bearer '' @ str \<Longrightarrow> tok_Alg tok = ''HS256'' \<Longrightarrow>
      \<not> (signs (example_secret env) str tok \<and> tok_Valid tok)"
  shows "\<exists>code msg. code \<in> {401, 404, 405} \<and>
    fst (Router_match L (app_router (example_app L M lib tid parse env lg ticks)) method path) c w =
      error_handler M code msg c w"
proof -
  let ?a = "example_app L M lib tid parse env lg ticks"
  have guarded: "\<exists>h. rt_handler rt = JWTSimple M parse (example_secret env) h"
    if "rt \<in> set (r_routes (app_router ?a))" "pattern_accepts (rt_segments rt) (''api'' # ''v1'' # rest)" for rt
    using that unfolding example_app_fields Let_def
    by (auto simp: pattern_accepts_simps seg_accepts_def)
  have refused: "\<exists>msg. JWTSimple M parse (example_secret env) h c w = error_handler M 401 msg c w" for h
    using JWT_cases [OF assms(1), of c "\<lparr>jc_SigningKey = example_secret env, jc_SigningMethod = Some ''HS256'',
      jc_TokenHeader = [], jc_ContextKey = [], jc_NewClaims = None\<rparr>" M h w] assms(3)
    by (auto simp: JWTSimple_def JWT_setDefaults_def)
  show ?thesis
  proof (cases "route_lookup L (r_routes (app_router ?a)) (method, path)")
    case None
    then show ?thesis by (auto simp: Router_match_lookup example_app_fields(3,4))
  next
    case (Some rt)
    then have "rt \<in> set (r_routes (app_router ?a))" "pattern_accepts (rt_segments rt) (''api'' # ''v1'' # rest)"
      using find_SomeD [OF Some [unfolded route_lookup_def]] assms(2) by (simp_all add: route_hit_def)
    from guarded [OF this] obtain h where "rt_handler rt = JWTSimple M parse (example_secret env) h" by blast
    with Some refused [of h] show ?thesis by (auto simp: Router_match_lookup)
  qed
qed

theorem example_api_guarded_witness:
  "\<exists>code msg. code \<in> {401, 404, 405} \<and>
    fst (Router_match sample_lib (app_router (example_app sample_lib demo_msgpack demo_limiter 0 sample_parser Map.empty 0
        (\<lambda>w. []))) ''DELETE'' ''/api/v1/users/7'')
      (newContext None sample_req sample_peer fresh_stream)
      \<lparr>w_now = 0, w_logs = [], rl_tables = \<lambda>_. Map.empty\<rparr> =
    error_handler demo_msgpack code msg (newContext None sample_req sample_peer fresh_stream)
      \<lparr>w_now = 0, w_logs = [], rl_tables = \<lambda>_. Map.empty\<rparr>"
proof (rule example_api_guarded [OF sample_parser_verifies])
  show "splitPath ''/api/v1/users/7'' = ''api'' # ''v1'' # [''users'', ''7'']" by code_simp
qed (simp add: Ctx_GetHeader_def newContext_def sample_req_def)

lemma JWTSimple_admits:
  assumes "gomap_get (req_Headers (ctx_Request c)) ''authorization'' = ''Bearer '' @ str"
    and "parse str (MapClaims Map.empty) (\<lambda>t. if tok_Alg t \<noteq> ''HS256''
      then Inl (Err (''unexpected signing method: '' @ tok_HeaderAlg t)) else Inr k) = (Some tok, None)"
    and "tok_Valid tok"
  shows "JWTSimple M parse k next c w = next (Ctx_Set c jwtLocalsKey (LToken tok)) w"
proof -
  have "jwt_keyfunc \<lparr>jc_SigningKey = k, jc_SigningMethod = Some ''HS256'', jc_TokenHeader = ''authorization'',
      jc_ContextKey = jwtLocalsKey, jc_NewClaims = Some (MapClaims Map.empty)\<rparr> =
    (\<lambda>t. if tok_Alg t \<noteq> ''HS256'' then Inl (Err (''unexpected signing method: '' @ tok_HeaderAlg t)) else Inr k)"
    by (auto simp: jwt_keyfunc_def)
  with assms show ?thesis
    by (simp add: JWTSimple_def JWT_def JWT_setDefaults_def Ctx_GetHeader_request HasPrefix_def Let_def)
qed

lemma example_create_route:
  assumes "route_request L (example_app L M lib tid parse env lg ticks) ctx peer s req = (h, c)"
    and "req_Method req = ''POST''" "req_Path req = ''/api/v1/users''"
  shows "h = applyMiddleware (JWTSimple M parse (example_secret env) (ex_create M))
    [Recovery M [Some lg], Logger [Some lg], RateLimitSimple M lib tid 500]"
proof -
  have sp: "splitPath ''/api/v1/users'' = [''api'', ''v1'', ''users'']" by code_simp
  have "plain_path ''/api/v1/users''" by code_simp
  then have url: "request_url L req = \<lparr>url_Path = ''/api/v1/users'', url_RawQuery = []\<rparr>"
    using url_Parse_plain(1) assms(3) by (simp add: request_url_def)
  show ?thesis
    using route_request_ctx(10) [OF assms(1)] assms(2) url
    by (simp add: example_app_fields Router_match_def sp matchSegments_def example_methods Let_def)
qed

text \<open>
  C39: An empty body crashes the create handler. POST /api/v1/users with a valid token, within the rate limit,
  and an empty body
  leaves the handler's map nil, the assignment of the ID panics, and the client gets an error of status
  500 where a bad request is meant to be answered 400.
\<close>

theorem example_empty_post_fails:
  assumes "a = example_app L M lib tid parse env lg ticks"
    and "req_Method req = ''POST''" "req_Path req = ''/api/v1/users''" "req_Body req = []" "healthy s"
    and "route_request L a ctx peer s req = (h, c)" "fst (charge lib tid 500 c w)"
    and "gomap_get (req_Headers req) ''authorization'' = ''Bearer '' @ str"
    and "parse str (MapClaims Map.empty) (\<lambda>t. if tok_Alg t \<noteq> ''HS256''
      then Inl (Err (''unexpected signing method: '' @ tok_HeaderAlg t)) else Inr (example_secret env)) = (Some tok, None)"
    and "tok_Valid tok"
    and "ef = \<lparr>ef_ID = req_ID req, ef_Code = 500,
      ef_Message = ''internal server error: assignment to entry in nil map'', ef_Data = []\<rparr>" "sendable M (MErr ef)"
  shows "tx (fst (snd (dispatchRequest L M a ctx peer s req w))) = tx s @ wire_bytes M [MErr ef]"
proof -
  obtain w1 where ch: "charge lib tid 500 c w = (True, w1)" using assms(7) by (cases "charge lib tid 500 c w") auto
  have ctx: "\<not> ctx_sent c" "ctx_stream c = s" "ctx_Request c = req"
    using route_request_ctx [OF assms(6)] by simp_all
  let ?c = "Ctx_Set c jwtLocalsKey (LToken tok)"
  note rt = assms(6) [unfolded example_create_route [OF assms(6) [unfolded assms(1)] assms(2,3)]]
  have "JWTSimple M parse (example_secret env) (ex_create M) c w1 =
      (Panic ''assignment to entry in nil map'', ?c, w1)"
    using JWTSimple_admits [of c str parse "example_secret env" tok M "ex_create M" w1] assms(4,8-10) ctx(3)
    by (simp add: ex_create_def Ctx_Bind_def map_put_def Ctx_Set_def)
  note pd = stack_panic_dispatch [OF rt ch this]
  have "Ctx_Error M ?c 500 (''internal server error: '' @ ''assignment to entry in nil map'') [] =
      (None, ?c\<lparr>ctx_sent := True, ctx_stream := s\<lparr>tx := tx s @ wire_bytes M [MErr ef]\<rparr>\<rparr>)"
    using WriteFrame_msg [OF assms(5), of M "MErr ef"] assms(11,12) ctx
    by (simp add: Ctx_Error_def WriteError_def Ctx_Set_def Let_def)
  from pd [OF _ this] assms(1) show ?thesis by (auto simp: example_app_fields)
qed

definition create_req :: Request where
  "create_req = \<lparr>req_ID = ''r1'', req_Method = ''POST'', req_Path = ''/api/v1/users'',
     req_Headers = Some [''authorization'' \<mapsto> ''Bearer change-me-in-production''], req_Body = [], req_Stream = False\<rparr>"

definition limited_start :: "unit rl_world" where
  "limited_start = \<lparr>w_now = 0, w_logs = [], rl_tables = \<lambda>_. Map.empty\<rparr>"

definition demo_example :: "(gvalue, unit rl_world) App" where
  "demo_example = example_app sample_lib demo_msgpack demo_limiter 0 sample_parser Map.empty 0 (\<lambda>w. [])"

theorem example_empty_post_fails_witness:
  "tx (fst (snd (dispatchRequest sample_lib demo_msgpack demo_example None sample_peer fresh_stream create_req
      limited_start))) =
   tx fresh_stream @ wire_bytes demo_msgpack [MErr \<lparr>ef_ID = req_ID create_req, ef_Code = 500,
      ef_Message = ''internal server error: assignment to entry in nil map'', ef_Data = []\<rparr>]"
proof (rule example_empty_post_fails [OF demo_example_def])
  let ?rr = "route_request sample_lib demo_example None sample_peer fresh_stream create_req"
  show "?rr = (fst ?rr, snd ?rr)" by simp
  show "fst (charge demo_limiter 0 500 (snd ?rr) limited_start)"
    using demo_charge [of 0 500 "snd ?rr" limited_start] by auto
  show "gomap_get (req_Headers create_req) ''authorization'' = ''Bearer '' @ ''change-me-in-production''"
    by (simp add: create_req_def)
  show "sample_parser ''change-me-in-production'' (MapClaims Map.empty) (\<lambda>t. if tok_Alg t \<noteq> ''HS256''
      then Inl (Err (''unexpected signing method: '' @ tok_HeaderAlg t)) else Inr (example_secret Map.empty)) =
    (Some \<lparr>tok_Alg = ''HS256'', tok_HeaderAlg = ''HS256'', tok_Claims = MapClaims Map.empty, tok_Valid = True\<rparr>, None)"
    by (simp add: sample_parser_def example_secret_def envOr_def)
qed (simp_all add: create_req_def healthy_def fresh_stream_def)

text \<open>
  The counted stream of the example server. For a parameter that is the decimal form of n, n >= 0
  (within 64 bits), the stream has min n 100 chunks, the i-th saying \<^verbatim>\<open>chunk i+1 of\<close> that number and carrying
  the time after i pauses of 100 ms, between the announcing response and the end chunk.
\<close>

theorem example_stream_bounded:
  assumes "Ctx_Param c ''count'' = show_int n" "0 \<le> n" "n < 2 ^ 63" "\<not> ctx_sent c" "healthy (ctx_stream c)"
    and "map (\<lambda>i. chunk_bytes M True (count_value (min n 100) i (w\<lparr>w_now := w_now w + int i * 100000000\<rparr>)))
      [0 ..< nat (min n 100)] = map Inr ds"
    and "list_all (sendable M) (stream_msgs (Ctx_RequestID c) 200 (Some [''x-format'' \<mapsto> ''msgpack-stream'']) ds)"
    and "ex_stream M c w = (r, c', w')"
  shows "r = Ret None \<and> length ds = nat (min n 100) \<and> tx (ctx_stream c') = tx (ctx_stream c) @
    wire_bytes M (stream_msgs (Ctx_RequestID c) 200 (Some [''x-format'' \<mapsto> ''msgpack-stream'']) ds)"
proof -
  have count: "ex_count c = min n 100"
    using assms(1-3) Sscanf_nat [of "nat n" 5] by (simp add: ex_count_def show_int_def Let_def)
  have vals: "loop_values 100000000 (map (count_value m) [k ..< k + l]) v =
      map (\<lambda>i. count_value m i (v\<lparr>w_now := w_now v + (int i - int k) * 100000000\<rparr>)) [k ..< k + l]"
    for m k l and v :: "'b world_scheme"
  proof (induction l arbitrary: k v)
    case (Suc l)
    have "[k ..< k + Suc l] = k # [Suc k ..< Suc k + l]" by (simp add: upt_conv_Cons)
    with Suc.IH [of "Suc k" "Sleep 100000000 v"] show ?case
      by (simp add: Sleep_def count_value_def algebra_simps)
  qed simp
  have "map (chunk_bytes M True) (loop_values 100000000 (map (count_value (min n 100)) [0 ..< nat (min n 100)]) w) = map Inr ds"
    using assms(6) vals [of "min n 100" 0 "nat (min n 100)" w] by (simp add: comp_def)
  from stream_handler_wire [OF assms(4,5) this assms(7)] obtain c1 w1 where
    "with_stream M 200 (Some [''x-format'' \<mapsto> ''msgpack-stream''])
       (chunk_loop M True 100000000 (map (count_value (min n 100)) [0 ..< nat (min n 100)])) c w = (Ret None, c1, w1)"
    "tx (ctx_stream c1) = tx (ctx_stream c) @
       wire_bytes M (stream_msgs (Ctx_RequestID c) 200 (Some [''x-format'' \<mapsto> ''msgpack-stream'']) ds)" .
  moreover have "ex_stream M c w = with_stream M 200 (Some [''x-format'' \<mapsto> ''msgpack-stream''])
       (chunk_loop M True 100000000 (map (count_value (min n 100)) [0 ..< nat (min n 100)])) c w"
  proof -
    have "ex_count c1 = ex_count c" if "Ctx_NewStream M c 200 (Some [''x-format'' \<mapsto> ''msgpack-stream'']) = (e, c1)" for e c1
      using Ctx_NewStream_kept [OF that] by (simp add: ex_count_def Ctx_Param_def ctx_kept_def)
    with count show ?thesis by (auto simp: ex_stream_def with_stream_def split: prod.split option.split)
  qed
  moreover have "length ds = nat (min n 100)" using arg_cong [OF assms(6), of length] by simp
  ultimately show ?thesis using assms(8) by simp
qed

definition count_ctx :: "gvalue Context" where
  "count_ctx = setParams (newContext None sample_req sample_peer fresh_stream) (Some [''count'' \<mapsto> show_int 2])"

theorem example_stream_bounded_witness:
  "fst (ex_stream demo_msgpack count_ctx sample_world) = Ret None \<and> length [[1], [1 :: byte]] = nat (min 2 100) \<and>
   tx (ctx_stream (fst (snd (ex_stream demo_msgpack count_ctx sample_world)))) = tx (ctx_stream count_ctx) @
     wire_bytes demo_msgpack (stream_msgs (Ctx_RequestID count_ctx) 200 (Some [''x-format'' \<mapsto> ''msgpack-stream''])
       [[1], [1]])"
proof (rule example_stream_bounded [where w = sample_world])
  let ?r = "ex_stream demo_msgpack count_ctx sample_world"
  show "?r = (fst ?r, fst (snd ?r), snd (snd ?r))" by simp
  show "map (\<lambda>i. chunk_bytes demo_msgpack True (count_value (min 2 100) i
      (sample_world\<lparr>w_now := w_now sample_world + int i * 100000000\<rparr>))) [0 ..< nat (min 2 100)] = map Inr [[1], [1]]"
    by (simp add: chunk_bytes_def demo_msgpack_def upt_rec)
qed (simp_all add: count_ctx_def setParams_def newContext_def Ctx_Param_def healthy_def fresh_stream_def list_all_iff)

text \<open>
  The mutual TLS example. GET /secure is answered 200 with a greeting that names the common name of
  the peer's first certificate when the request came over native QUIC with a certificate whose common
  name is not empty, and refused with 401 otherwise; the state is unchanged but for the log.
\<close>

theorem mtls_secure_answer:
  assumes "a = mtls_app L M" "req_Method req = ''GET''" "req_Path req = ''/secure''" "healthy s"
    and "dispatchRequest L M a ctx peer s req w = (r, s', w')"
    and "cn = (case PeerCertificates peer of [] \<Rightarrow> [] | crt # _ \<Rightarrow> cert_CommonName crt)"
    and "ok = MResp \<lparr>resp_ID = req_ID req, resp_Status = 200, resp_Headers = Some Map.empty,
      resp_Body = str_bytes (''Hello, '' @ cn @ ''! Access granted via mTLS.''), resp_Stream = False\<rparr>"
    and "ko = MErr \<lparr>ef_ID = req_ID req, ef_Code = 401, ef_Message = (if PeerCertificates peer = []
      then ''mTLS: missing peer certificates'' else ''mTLS: identity missing in certificate''), ef_Data = []\<rparr>"
    and "sendable M ok" "sendable M ko"
  shows "r = Ret () \<and> tx s' = tx s @ wire_bytes M [if cn = [] then ko else ok] \<and>
    (\<exists>logs. w' = w\<lparr>w_logs := w_logs w @ logs\<rparr>)"
proof -
  have sp: "splitPath ''/secure'' = [''secure'']" by code_simp
  have "plain_path ''/secure''" by code_simp
  then have url: "request_url L req = \<lparr>url_Path = ''/secure'', url_RawQuery = []\<rparr>"
    using url_Parse_plain(1) assms(3) by (simp add: request_url_def)
  obtain h c where rr: "route_request L a ctx peer s req = (h, c)" by (cases "route_request L a ctx peer s req")
  have h: "h = MTLSAuth M (Logger [] (secure_handler M))"
    using route_request_ctx(10) [OF rr] assms(1,2) url
    by (simp add: mtls_app_def example_defs Router_match_def sp example_patterns matchSegments_def example_methods Let_def)
  have ctx: "\<not> ctx_sent c" "ctx_stream c = s" "ctx_Request c = req" "ctx_conn c = peer" "ctx_resHeaders c = None"
    using route_request_ctx [OF rr] by simp_all
  have after: "app_afterMiddleware a = []" by (simp add: assms(1) mtls_app_def example_defs Let_def)
  let ?n = "Ctx_Set c ''node_id'' (LString cn)"
  show ?thesis
  proof (cases "cn = []")
    case True
    have "h c w = error_handler M 401 (\<lambda>_. if PeerCertificates peer = [] then ''mTLS: missing peer certificates''
        else ''mTLS: identity missing in certificate'') c w"
      using True assms(6) ctx(4)
      by (auto simp: h MTLSAuth_def Ctx_PeerCertificates_def StatusUnauthorized_def Let_def split: list.splits)
    also have "\<dots> = (Ret None, c\<lparr>ctx_sent := True, ctx_stream := s\<lparr>tx := tx s @ wire_bytes M [ko]\<rparr>\<rparr>, w)"
      using assms(4,8,10) ctx by (simp add: error_handler_sendable)
    finally have "dispatchRequest L M a ctx peer s req w = (Ret (), s\<lparr>tx := tx s @ wire_bytes M [ko]\<rparr>, w)"
      using dispatchRequest_answered [OF rr _ after] by simp
    with True assms(5) show ?thesis by (auto intro: exI [where x = "[]"])
  next
    case False
    have send: "Ctx_Send M ?n 200 (str_bytes (''Hello, '' @ cn @ ''! Access granted via mTLS.'')) =
        (None, ?n\<lparr>ctx_sent := True, ctx_stream := s\<lparr>tx := tx s @ wire_bytes M [ok]\<rparr>\<rparr>)"
      using writeResponse_sendable [of ?n M 200 None] assms(4,7,9) ctx
      by (simp add: Ctx_Send_def Ctx_Set_def send_resp_def merge_headers_def gomap_copy_def)
    have "h c w = Logger [] (secure_handler M) ?n w"
      using False assms(6) ctx(4)
      by (auto simp: h MTLSAuth_def Ctx_PeerCertificates_def Let_def split: list.splits)
    then obtain attrs where "h c w = (Ret None, ?n\<lparr>ctx_sent := True, ctx_stream := s\<lparr>tx := tx s @ wire_bytes M [ok]\<rparr>\<rparr>,
        log_to 0 LevelInfo ''request'' attrs w)"
      using send by (simp add: Logger_def secure_handler_def answer_def local_text_def Ctx_Get_def Ctx_Set_def
          pick_logger_def Let_def)
    then have "dispatchRequest L M a ctx peer s req w =
        (Ret (), s\<lparr>tx := tx s @ wire_bytes M [ok]\<rparr>, log_to 0 LevelInfo ''request'' attrs w)"
      using dispatchRequest_answered [OF rr _ after] by simp
    with False assms(5) show ?thesis by (auto simp: log_to_def)
  qed
qed

theorem mtls_secure_answer_witness:
  "let d = dispatchRequest sample_lib demo_msgpack (mtls_app sample_lib demo_msgpack) None sample_peer fresh_stream
       (sample_req\<lparr>req_Path := ''/secure''\<rparr>) sample_world
   in fst d = Ret () \<and> tx (fst (snd d)) = tx fresh_stream @ wire_bytes demo_msgpack
       [if ([] :: string) = [] then MErr \<lparr>ef_ID = ''r1'', ef_Code = 401, ef_Message = ''mTLS: missing peer certificates'', ef_Data = []\<rparr>
        else MResp \<lparr>resp_ID = ''r1'', resp_Status = 200, resp_Headers = Some Map.empty,
          resp_Body = str_bytes (''Hello, '' @ [] @ ''! Access granted via mTLS.''), resp_Stream = False\<rparr>] \<and>
     (\<exists>logs. snd (snd d) = sample_world\<lparr>w_logs := w_logs sample_world @ logs\<rparr>)"
  unfolding Let_def
  by (rule mtls_secure_answer [OF refl, where peer = sample_peer and ctx = None and req = "sample_req\<lparr>req_Path := ''/secure''\<rparr>"
        and L = sample_lib])
    (simp_all add: sample_req_def sample_peer_def PeerCertificates_def healthy_def fresh_stream_def)

end
