(* ===== verification/Drain.thy ===== *)
theory Drain
  imports Conn
begin

text \<open>
  Draining a server (framework/app.go, Shutdown and the goroutines it waits on). Once no new
  connections and streams arrive, every step that remains is the end of an accept loop, the start of
  a counted stream, the return of its handler, or its close; each uses up one unit of a finite amount of work.
  Two of them need not come: an accept loop waits until its connection is gone, and a handler may never
  return. What stops the others is shown to be the WaitGroup at exactly the number of these.
\<close>

section \<open>The work that remains\<close>

fun drain_event :: "sv_event \<Rightarrow> bool" where
  "drain_event (SpawnStream i) = True"
| "drain_event (ConnEnd i) = True"
| "drain_event (Dispatch j) = True"
| "drain_event (CloseStream j) = True"
| "drain_event _ = False"

text \<open>A counted stream has four steps to come: its start, dispatch and close, and its accept loop's end.\<close>

fun conn_work :: "conn_phase \<Rightarrow> nat" where
  "conn_work Spawned = 0"
| "conn_work Accepting = 1"
| "conn_work (Counted s) = 4"
| "conn_work (ConnDone x) = 0"

fun stream_work :: "stream_phase \<Rightarrow> nat" where
  "stream_work Running = 2"
| "stream_work Dispatched = 1"
| "stream_work Closed = 0"

definition drain_work :: "'x server \<Rightarrow> nat" where
  "drain_work sv =
     sum_list (map (conn_work \<circ> cn_phase) (sv_conns sv)) +
     sum_list (map (stream_work \<circ> st_phase) (sv_streams sv))"

lemma drain_work_wg [simp]: "drain_work (wg_Done sv) = drain_work sv"
  by (simp add: drain_work_def wg_Done_def)

lemma drain_work_phase:
  assumes "i < length (sv_conns sv)"
  shows "drain_work (set_phase i p sv) + conn_work (cn_phase (sv_conns sv ! i)) = drain_work sv + conn_work p"
  using weight_update [OF assms, of "conn_work \<circ> cn_phase" "(sv_conns sv ! i)\<lparr>cn_phase := p\<rparr>"]
  by (simp add: drain_work_def set_phase_def)

lemma drain_work_stream:
  assumes "j < length (sv_streams sv)"
  shows "drain_work (sv\<lparr>sv_streams := (sv_streams sv)[j := t]\<rparr>) + stream_work (st_phase (sv_streams sv ! j)) =
    drain_work sv + stream_work (st_phase t)"
  using weight_update [OF assms, of "stream_work \<circ> st_phase" t] by (simp add: drain_work_def)

lemma drain_work_spawn:
  "drain_work (sv\<lparr>sv_streams := sv_streams sv @ [t]\<rparr>) = drain_work sv + stream_work (st_phase t)"
  by (simp add: drain_work_def)

lemma drain_work_cong:
  "sv_conns sv' = sv_conns sv \<Longrightarrow> sv_streams sv' = sv_streams sv \<Longrightarrow> drain_work sv' = drain_work sv"
  by (simp add: drain_work_def)

section \<open>Every step uses up one unit\<close>

lemma conn_spawn_work:
  assumes "conn_spawn i sv = Some sv'"
  shows "drain_work sv' + 1 = drain_work sv"
proof -
  from assms obtain s where i: "i < length (sv_conns sv)" "cn_phase (sv_conns sv ! i) = Counted s"
    and sv': "sv' = set_phase i Accepting (sv\<lparr>sv_streams := sv_streams sv @
        [\<lparr>st_conn = i, st_in = s, st_stream = s, st_phase = Running\<rparr>]\<rparr>)"
    by (auto simp: conn_spawn_def split: if_splits conn_phase.splits)
  let ?sv = "sv\<lparr>sv_streams := sv_streams sv @ [\<lparr>st_conn = i, st_in = s, st_stream = s, st_phase = Running\<rparr>]\<rparr>"
  have "drain_work (set_phase i Accepting ?sv) + 4 = drain_work ?sv + 1"
    using drain_work_phase [of i ?sv Accepting] i by simp
  with sv' show ?thesis by (simp add: drain_work_spawn)
qed

lemma conn_end_work:
  assumes "conn_end i sv = Some sv'"
  shows "drain_work sv' + 1 = drain_work sv"
  using assms drain_work_phase [of i sv "ConnDone x" for x] by (auto simp: conn_end_def Let_def split: if_splits)

lemma stream_dispatch_work:
  assumes "stream_dispatch L M a j sv = Some sv'"
  shows "drain_work sv' + 1 = drain_work sv"
proof -
  let ?t = "sv_streams sv ! j"
  from assms obtain s where j: "j < length (sv_streams sv)" "st_phase ?t = Running"
    and sv': "sv_conns sv' = sv_conns sv" "sv_streams sv' = (sv_streams sv)[j := ?t\<lparr>st_stream := s, st_phase := Dispatched\<rparr>]"
    by (auto simp: stream_dispatch_def Let_def split: if_splits prod.splits)
  let ?sv = "sv\<lparr>sv_streams := (sv_streams sv)[j := ?t\<lparr>st_stream := s, st_phase := Dispatched\<rparr>]\<rparr>"
  have "drain_work sv' = drain_work ?sv" by (rule drain_work_cong) (simp_all add: sv')
  with drain_work_stream [OF j(1), of "?t\<lparr>st_stream := s, st_phase := Dispatched\<rparr>"] j(2) show ?thesis by simp
qed

lemma stream_close_work:
  assumes "stream_close j sv = Some sv'"
  shows "drain_work sv' + 1 = drain_work sv"
  using assms drain_work_stream [of j sv "(sv_streams sv ! j)\<lparr>st_phase := Closed\<rparr>"]
  by (auto simp: stream_close_def split: if_splits)

lemma drain_step_work:
  assumes "drain_event e" "sv_step L M a e sv = Some sv'"
  shows "drain_work sv' + 1 = drain_work sv"
  using assms conn_spawn_work conn_end_work stream_dispatch_work stream_close_work by (cases e) fastforce+

lemma drain_run_work:
  assumes "list_all drain_event es" "sv_run L M a es sv = Some sv'"
  shows "length es + drain_work sv' = drain_work sv"
  using assms
proof (induction es arbitrary: sv)
  case Nil
  then show ?case by simp
next
  case (Cons e es)
  then obtain sv1 where "sv_step L M a e sv = Some sv1" "sv_run L M a es sv1 = Some sv'" "drain_event e"
    "list_all drain_event es" by (auto split: if_splits option.splits)
  with Cons.IH drain_step_work show ?case by fastforce
qed

section \<open>Where a draining server stops\<close>

lemma drain_work_zero: "drain_work sv = 0 \<longleftrightarrow> in_flight sv = 0"
proof -
  have "conn_work p = 0 \<longleftrightarrow> conn_weight p = 0" for p by (cases p) auto
  moreover have "stream_work p = 0 \<longleftrightarrow> stream_weight p = 0" for p by (cases p) (auto simp: stream_weight_def)
  ultimately show ?thesis by (simp add: drain_work_def in_flight_def)
qed

text \<open>The steps that are still taken when the handlers of the streams in \<open>B\<close> never return.\<close>

definition drains :: "(nat \<Rightarrow> bool) \<Rightarrow> sv_event \<Rightarrow> bool" where
  "drains B e \<longleftrightarrow> drain_event e \<and> (\<forall>j. e = Dispatch j \<longrightarrow> \<not> B j)"

text \<open>The accept loops whose connection is still there, and the handlers in \<open>B\<close> that are running.\<close>

definition idle_conns :: "'x server \<Rightarrow> nat" where
  "idle_conns sv = length (filter (\<lambda>c. cn_phase c = Accepting \<and> \<not> cn_lost c) (sv_conns sv))"

definition stuck_handlers :: "(nat \<Rightarrow> bool) \<Rightarrow> 'x server \<Rightarrow> nat" where
  "stuck_handlers B sv =
     length (filter (\<lambda>j. B j \<and> st_phase (sv_streams sv ! j) = Running) [0 ..< length (sv_streams sv)])"

lemma sum_list_filter:
  assumes "\<And>x. x \<in> set xs \<Longrightarrow> f x = (if P x then 1 else 0 :: nat)"
  shows "sum_list (map f xs) = length (filter P xs)"
  using assms by (induction xs) auto

lemma stopped_conn:
  assumes "\<And>e. drains B e \<Longrightarrow> sv_step L M a e sv = None" "c \<in> set (sv_conns sv)"
  shows "conn_weight (cn_phase c) = (if cn_phase c = Accepting \<and> \<not> cn_lost c then 1 else 0)"
proof -
  from assms(2) obtain i where i: "i < length (sv_conns sv)" "c = sv_conns sv ! i" by (auto simp: in_set_conv_nth)
  have "conn_end i sv = None" "conn_spawn i sv = None"
    using assms(1) [of "ConnEnd i"] assms(1) [of "SpawnStream i"] by (simp_all add: drains_def)
  with i show ?thesis
    by (cases "cn_phase c") (auto simp: conn_end_def conn_spawn_def Let_def split: if_splits)
qed

lemma stopped_stream:
  assumes "\<And>e. drains B e \<Longrightarrow> sv_step L M a e sv = None" "j < length (sv_streams sv)"
  shows "stream_weight (st_phase (sv_streams sv ! j)) = (if B j \<and> st_phase (sv_streams sv ! j) = Running then 1 else 0)"
proof -
  have d: "\<not> B j \<Longrightarrow> stream_dispatch L M a j sv = None" and c: "stream_close j sv = None"
    using assms(1) [of "Dispatch j"] assms(1) [of "CloseStream j"] by (simp_all add: drains_def)
  have "stream_dispatch L M a j sv \<noteq> None" if "st_phase (sv_streams sv ! j) = Running"
    using that assms(2) by (simp add: stream_dispatch_def Let_def split: prod.split)
  with d c assms(2) show ?thesis
    by (cases "st_phase (sv_streams sv ! j)") (auto simp: stream_close_def stream_weight_def)
qed

lemma stopped_count:
  assumes "\<And>e. drains B e \<Longrightarrow> sv_step L M a e sv = None"
  shows "in_flight sv = idle_conns sv + stuck_handlers B sv"
proof -
  have "sum_list (map (conn_weight \<circ> cn_phase) (sv_conns sv)) = idle_conns sv"
    unfolding idle_conns_def by (rule sum_list_filter) (simp add: stopped_conn [OF assms])
  moreover have "sum_list (map (stream_weight \<circ> st_phase) (sv_streams sv)) =
      sum_list (map (\<lambda>j. stream_weight (st_phase (sv_streams sv ! j))) [0 ..< length (sv_streams sv)])"
    by (rule arg_cong [where f = sum_list], rule nth_equalityI) simp_all
  moreover have "\<dots> = stuck_handlers B sv"
    unfolding stuck_handlers_def by (rule sum_list_filter) (simp add: stopped_stream [OF assms])
  ultimately show ?thesis by (simp add: in_flight_def)
qed

lemma sv_run_append:
  "sv_run L M a es sv = Some sv1 \<Longrightarrow> sv_run L M a (es @ es') sv = sv_run L M a es' sv1"
  by (induction es arbitrary: sv) (auto split: if_splits option.splits)

text \<open>Every run of these steps can be continued until none is possible.\<close>

lemma drain_to_stop:
  assumes "app_middleware a = Recovery M ls # mw" "list_all no_panic (app_afterMiddleware a)"
    and "sv_reach L M a (server_start w) sv"
  shows "\<exists>es sv'. list_all (drains B) es \<and> sv_run L M a es sv = Some sv' \<and>
    (\<forall>e. drains B e \<longrightarrow> sv_step L M a e sv' = None)"
  using assms(3)
proof (induction "drain_work sv" arbitrary: sv rule: less_induct)
  case less
  show ?case
  proof (cases "\<forall>e. drains B e \<longrightarrow> sv_step L M a e sv = None")
    case True
    then show ?thesis by (intro exI [where x = "[]"] exI [where x = sv]) simp
  next
    case False
    then obtain e sv1 where e: "drains B e" "sv_step L M a e sv = Some sv1" by (metis option.exhaust)
    have ok: "sv_crash sv = None" by (rule recovered_no_crash [OF assms(1,2) less.prems])
    then have "sv_reach L M a (server_start w) sv1" by (rule sv_reach.step [OF less.prems _ e(2)])
    moreover have "drain_work sv1 < drain_work sv" using drain_step_work [OF _ e(2)] e(1) by (simp add: drains_def)
    ultimately obtain es sv' where "list_all (drains B) es" "sv_run L M a es sv1 = Some sv'"
      "\<forall>e. drains B e \<longrightarrow> sv_step L M a e sv' = None" using less.hyps by blast
    with e ok show ?thesis by (intro exI [where x = "e # es"] exI [where x = sv']) simp
  qed
qed

section \<open>Shutdown returns\<close>

text \<open>
  C14: Draining ends, and where. Take any reachable state of a server with Recovery as the first middleware
  and after-middleware that does not panic, and let only the goroutines already started or counted go on,
  in any order, where the handlers of the streams in \<open>B\<close> never return and a connection is only lost
  if it was lost before. They take at most \<open>drain_work\<close> steps. When none of them can go on, the WaitGroup is
  exactly the number of accept loops waiting on a connection that is still there plus the number of handlers in
  \<open>B\<close> that are running; Shutdown can return just when both are zero. And they do get there: every such run
  can be continued to a state in which none can go on. So with every connection gone and handlers that return,
  Shutdown returns, and one open idle connection or one blocked handler keeps it waiting.
\<close>

theorem drain_terminates:
  assumes "app_middleware a = Recovery M ls # mw" "list_all no_panic (app_afterMiddleware a)"
    and "sv_reach L M a (server_start w) sv" "list_all (drains B) es" "sv_run L M a es sv = Some sv1"
  shows "length es \<le> drain_work sv \<and>
    ((\<forall>e. drains B e \<longrightarrow> sv_step L M a e sv1 = None) \<longrightarrow>
       sv_wg sv1 = idle_conns sv1 + stuck_handlers B sv1 \<and>
       (Shutdown sv1 \<noteq> None \<longleftrightarrow> idle_conns sv1 = 0 \<and> stuck_handlers B sv1 = 0)) \<and>
    (\<exists>es' sv2. list_all (drains B) es' \<and> sv_run L M a (es @ es') sv = Some sv2 \<and>
       (\<forall>e. drains B e \<longrightarrow> sv_step L M a e sv2 = None))"
proof (intro conjI impI)
  have r1: "sv_reach L M a (server_start w) sv1"
    by (rule sv_reach_trans [OF sv_run_reach [OF assms(5)] assms(3)])
  have "list_all drain_event es" using assms(4) by (auto simp: list_all_iff drains_def)
  from drain_run_work [OF this assms(5)] show "length es \<le> drain_work sv" by simp
  from drain_to_stop [OF assms(1,2) r1] obtain es' sv2 where "list_all (drains B) es'"
    "sv_run L M a es' sv1 = Some sv2" "\<forall>e. drains B e \<longrightarrow> sv_step L M a e sv2 = None" by blast
  with sv_run_append [OF assms(5)] show "\<exists>es' sv2. list_all (drains B) es' \<and> sv_run L M a (es @ es') sv = Some sv2 \<and>
      (\<forall>e. drains B e \<longrightarrow> sv_step L M a e sv2 = None)" by metis
  assume stop: "\<forall>e. drains B e \<longrightarrow> sv_step L M a e sv1 = None"
  then show wg: "sv_wg sv1 = idle_conns sv1 + stuck_handlers B sv1"
    using wg_inv_reach [OF r1] stopped_count by (metis wg_inv_def)
  then show "Shutdown sv1 \<noteq> None \<longleftrightarrow> idle_conns sv1 = 0 \<and> stuck_handlers B sv1 = 0" by (simp add: Shutdown_def)
qed

text \<open>A stream with a handler that never returns, on a connection that is gone.\<close>

definition drain_sample :: "world server" where
  "drain_sample = the (sv_run sample_lib sample_msgpack panicking_app
     [Upgrade sample_peer None, AcceptStream 0 sample_stream, ConnLost 0] (server_start sample_world))"

definition drain_stopped :: "world server" where
  "drain_stopped = the (sv_run sample_lib sample_msgpack panicking_app [SpawnStream 0, ConnEnd 0] drain_sample)"

lemma drain_sample_evals:
  "sv_run sample_lib sample_msgpack panicking_app [Upgrade sample_peer None, AcceptStream 0 sample_stream, ConnLost 0]
     (server_start sample_world) = Some drain_sample"
  "sv_run sample_lib sample_msgpack panicking_app [SpawnStream 0, ConnEnd 0] drain_sample = Some drain_stopped"
  "drain_work drain_sample = 4" "idle_conns drain_stopped = 0" "stuck_handlers (\<lambda>j. True) drain_stopped = 1"
  by (simp_all add: drain_sample_def drain_stopped_def sv_simps drain_work_def idle_conns_def stuck_handlers_def Let_def)

lemma drain_stopped_stuck: "drains (\<lambda>j. True) e \<Longrightarrow> sv_step sample_lib sample_msgpack panicking_app e drain_stopped = None"
  by (cases e) (auto simp: drains_def drain_stopped_def drain_sample_def sv_simps stream_close_def Let_def)

theorem drain_terminates_witness:
  "length [SpawnStream 0, ConnEnd 0] \<le> drain_work drain_sample \<and> sv_wg drain_stopped = 1 \<and> Shutdown drain_stopped = None"
proof -
  have reach: "sv_reach sample_lib sample_msgpack panicking_app (server_start sample_world) drain_sample"
    by (rule sv_run_reach [OF drain_sample_evals(1)])
  have app: "app_middleware panicking_app = Recovery sample_msgpack [] # [\<lambda>next c w. (Panic ''boom'', c, w)]"
    "list_all no_panic (app_afterMiddleware panicking_app)"
    by (simp_all add: panicking_app_def App_Use_def App_New_def)
  have es: "list_all (drains (\<lambda>j. True)) [SpawnStream 0, ConnEnd 0]" by (simp add: drains_def)
  have "\<forall>e. drains (\<lambda>j. True) e \<longrightarrow> sv_step sample_lib sample_msgpack panicking_app e drain_stopped = None"
    using drain_stopped_stuck by blast
  with drain_terminates [OF app reach es drain_sample_evals(2)] show ?thesis
    by (simp add: drain_sample_evals(4,5))
qed

end
