(* ===== verification/Startup.thy ===== *)
theory Startup
  imports Client_State Example_Server Drain
begin

text \<open>
  How the programs start and stop: the part of each main function after its routes
  (examples/basic-server, examples/streaming-demo, cmd/example and examples/mtls-pki). What the
  listeners report back is the parameter \<open>listeners\<close>, a function of the TLS configuration they are given, in
  the order in which the reports arrive; the goroutine that waits for a signal is the event Cancel of the
  server. Records that handlers and listeners log in between are not part of the result here.
\<close>

text \<open>A main function that has ended, with its exit code, or that waits.\<close>

datatype main_end = Exited int | Blocked

section \<open>The demo servers\<close>

definition serve_dev ::
    "'k x509_lib \<Rightarrow> (tls_config \<Rightarrow> (bool \<times> goerr option) list) \<Rightarrow> string \<Rightarrow> string \<Rightarrow> string \<Rightarrow> string \<Rightarrow>
       string \<Rightarrow> (string \<times> logval) list \<Rightarrow> int \<times> int \<times> int \<times> nat \<Rightarrow> gofs \<Rightarrow> 'x world_scheme \<Rightarrow>
       main_end \<times> gofs \<times> 'x world_scheme" where
  "serve_dev lib listeners certFile keyFile native wt msg extra i fs w =
     (case i of (t0, t1, t2, rnd) \<Rightarrow>
        (case LoadOrCreateSelfSigned lib fs certFile keyFile [''localhost'', ''127.0.0.1''] t0 t1 t2 rnd of
           (Inl err, fs') \<Rightarrow> (Exited 1, fs', log_to 0 LevelError ''tls'' [(''err'', LvErr (Some err))] w)
         | (Inr tlsCfg, fs') \<Rightarrow>
             (case CertificateSHA256Hex lib (Some tlsCfg) of
                Inl err \<Rightarrow> (Exited 1, fs', log_to 0 LevelError ''tls cert hash'' [(''err'', LvErr (Some err))] w)
              | Inr certHash \<Rightarrow>
                  (let w' = log_to 0 LevelInfo msg
                         ([(''native'', LvStr native), (''webtransport'', LvStr wt), (''cert_file'', LvStr certFile),
                           (''webtransport_cert_sha256'', LvStr certHash)] @ extra) w
                   in case ListenAddr wt (listeners tlsCfg) of
                        None \<Rightarrow> (Blocked, fs', w')
                      | Some None \<Rightarrow> (Exited 0, fs', w')
                      | Some (Some err) \<Rightarrow>
                          (Exited 1, fs', log_to 0 LevelError ''server error'' [(''err'', LvErr (Some err))] w')))))"

definition basic_main ::
    "'k x509_lib \<Rightarrow> (tls_config \<Rightarrow> (bool \<times> goerr option) list) \<Rightarrow> int \<times> int \<times> int \<times> nat \<Rightarrow> gofs \<Rightarrow>
       'x world_scheme \<Rightarrow> main_end \<times> gofs \<times> 'x world_scheme" where
  "basic_main lib listeners i fs w =
     (let certDir = path_Join [''.local'', ''certs'', ''basic-server''];
          certFile = path_Join [certDir, ''localhost-cert.pem''];
          keyFile = path_Join [certDir, ''localhost-key.pem'']
      in serve_dev lib listeners certFile keyFile '':4433'' '':4434'' ''basic server listening'' [] i fs w)"

definition streaming_main ::
    "'k x509_lib \<Rightarrow> (tls_config \<Rightarrow> (bool \<times> goerr option) list) \<Rightarrow> int \<times> int \<times> int \<times> nat \<Rightarrow> gofs \<Rightarrow>
       'x world_scheme \<Rightarrow> main_end \<times> gofs \<times> 'x world_scheme" where
  "streaming_main lib listeners i fs w =
     (let certDir = path_Join [''.local'', ''certs'', ''streaming-demo''];
          certFile = path_Join [certDir, ''localhost-cert.pem''];
          keyFile = path_Join [certDir, ''localhost-key.pem'']
      in serve_dev lib listeners certFile keyFile '':4435'' '':4436'' ''streaming demo listening''
           [(''chat_stream'', LvStr ''/chat/rooms/lounge/stream''), (''chat_post'', LvStr ''/chat/rooms/lounge/messages'')]
           i fs w)"

section \<open>cmd/example\<close>

text \<open>The state \<open>sv\<close> is the server's when ListenAddr has returned and Shutdown looks at the WaitGroup.\<close>

definition example_main ::
    "'k x509_lib \<Rightarrow> (string \<rightharpoonup> string) \<Rightarrow> logger \<Rightarrow> (string \<Rightarrow> string \<Rightarrow> tls_config \<Rightarrow> (bool \<times> goerr option) list) \<Rightarrow>
       'y server \<Rightarrow> int \<times> int \<times> nat \<Rightarrow> 'x world_scheme \<Rightarrow> main_end \<times> 'x world_scheme" where
  "example_main lib env lg listeners sv i w =
     (case i of (t1, t2, rnd) \<Rightarrow>
        (case SelfSigned lib [''localhost'', ''127.0.0.1''] t1 t2 rnd of
           Inl err \<Rightarrow> (Exited 1, log_to lg LevelError ''tls setup failed'' [(''err'', LvErr (Some err))] w)
         | Inr tlsCfg \<Rightarrow>
             (let nativeAddr = envOr env ''NATIVE_ADDR'' '':4433'';
                  wtAddr = envOr env ''WT_ADDR'' '':4434'';
                  w' = log_to lg LevelInfo ''QuicFrame example server starting''
                         [(''native_addr'', LvStr nativeAddr), (''webtransport_addr'', LvStr wtAddr)] w
              in case ListenAddr wtAddr (listeners nativeAddr wtAddr tlsCfg) of
                   None \<Rightarrow> (Blocked, w')
                 | Some (Some err) \<Rightarrow>
                     (Exited 1, log_to lg LevelError ''server exited with error'' [(''err'', LvErr (Some err))] w')
                 | Some None \<Rightarrow>
                     (case Shutdown sv of
                        None \<Rightarrow> (Blocked, w')
                      | Some sv' \<Rightarrow> (Exited 0, log_to lg LevelInfo ''server stopped cleanly'' [] w')))))"

section \<open>examples/mtls-pki\<close>

text \<open>What it prints, and whether its context is done; \<^verbatim>\<open>log.Fatal\<close> prints the error and exits.\<close>

definition mtls_main :: "('v, 'w) App \<Rightarrow> bool \<Rightarrow> gofs \<Rightarrow> main_end \<times> string list \<times> gofs" where
  "mtls_main a ctxDone fs =
     (let out = [''Starting QuicFrame server with automated PKI on :4433...'']
      in case os_MkdirAll fs ''./.certs'' of
           (Some err, fs') \<Rightarrow> (Exited 1, out @ [err_text err], fs')
         | (None, fs') \<Rightarrow>
             (let out = out @ (case App_ListenWithPKI a '':4433'' [] ''satellite-01'' [''localhost''] of
                                 None \<Rightarrow> []
                               | Some err \<Rightarrow> [''Server error: '' @ err_text err]);
                  out = out @ [CHR 0x0A # ''--- Client Simulation ---'']
              in if ctxDone then (Exited 0, out @ [''Shutting down...''], fs') else (Blocked, out, fs')))"

section \<open>Properties of start-up and stop\<close>

lemma basic_paths:
  "path_Join [path_Join [''.local'', ''certs'', ''basic-server''], ''localhost-cert.pem''] =
     ''.local/certs/basic-server/localhost-cert.pem''"
  "path_Join [path_Join [''.local'', ''certs'', ''basic-server''], ''localhost-key.pem''] =
     ''.local/certs/basic-server/localhost-key.pem''"
  by code_simp+

lemma leaf_hash: "CertificateSHA256Hex lib (Some (tls13_config [der])) = Inr (hex_encode (Sum256 lib der))"
  by (simp add: CertificateSHA256Hex_def CertificateSHA256_def leaf_of_def tls13_config_def)

lemma watch_one:
  assumes "\<And>d. Sum256 lib d \<noteq> []" "os_ReadFile fs f = Inr b"
  shows "cl_hashes (WatchCertFile lib f (replicate (Suc n) fs) c) = [hex_encode (Sum256 lib b)]"
proof -
  have "readings f (replicate (Suc n) fs) = replicate (Suc n) b" by (induction n) (simp_all add: assms(2))
  with watch_loop_hashes [OF assms(1), of "[]" c f "replicate (Suc n) fs"] show ?thesis
    by (simp add: WatchCertFile_def del: replicate_Suc)
qed

text \<open>
  C40: The fingerprint of the basic server. On a first start with a working disk, the server logs the SHA-256
  of the certificate it gives to its listeners, and that certificate is the one in its file. A client that
  watches this file with WatchCertFile, however often it looks, pins one value: the SHA-256 of the file's
  text. That text, PEM, is longer than the certificate it encodes, so the pinned hash is of another string than
  the announced one, and the two could agree only if SHA-256 had a collision there.
\<close>

theorem announced_hash_not_pinned:
  assumes "x509_faithful lib" "\<And>d. Sum256 lib d \<noteq> []"
    and "\<And>der. length der < length (pem_Encode lib ''CERTIFICATE'' der)"
    and "cf = ''.local/certs/basic-server/localhost-cert.pem''" "kf = ''.local/certs/basic-server/localhost-key.pem''"
    and "path_ok fs cf" "path_ok fs kf" "load_self_signed lib cf kf fs = None"
    and "\<not> isl (fst (create_self_signed lib fs cf kf [''localhost'', ''127.0.0.1''] t1 t2 rnd))"
    and "basic_main lib listeners (t0, t1, t2, rnd) fs w = (r, fs', w')"
  shows "\<exists>der pem. os_ReadFile fs' cf = Inr pem \<and> pem = pem_Encode lib ''CERTIFICATE'' der \<and> pem \<noteq> der \<and>
    w_logs w' ! length (w_logs w) = Log 0 LevelInfo ''basic server listening''
      [(''native'', LvStr '':4433''), (''webtransport'', LvStr '':4434''), (''cert_file'', LvStr cf),
       (''webtransport_cert_sha256'', LvStr (hex_encode (Sum256 lib der)))] \<and>
    (r = Blocked \<longleftrightarrow> ListenAddr '':4434'' (listeners (tls13_config [der])) = None) \<and>
    cl_hashes (WatchCertFile lib cf (replicate (Suc n) fs') c) = [hex_encode (Sum256 lib pem)]"
proof -
  let ?hosts = "[''localhost'', ''127.0.0.1'']"
  obtain cfg fs1 where cr: "create_self_signed lib fs cf kf ?hosts t1 t2 rnd = (Inr cfg, fs1)"
    using assms(9) by (cases "create_self_signed lib fs cf kf ?hosts t1 t2 rnd") (auto simp: isl_def, metis sum.exhaust)
  have "cf \<noteq> kf" by (simp add: assms(4,5))
  from created_certificate [OF assms(1) this assms(6,7) cr] obtain der where
    der: "cfg = tls13_config [der]" "os_ReadFile fs1 cf = Inr (pem_Encode lib ''CERTIFICATE'' der)" by blast
  have "LoadOrCreateSelfSigned lib fs cf kf ?hosts t0 t1 t2 rnd = (Inr cfg, fs1)"
    using assms(8) cr by (simp add: LoadOrCreateSelfSigned_def)
  moreover have "serve_dev lib listeners cf kf '':4433'' '':4434'' ''basic server listening'' [] (t0, t1, t2, rnd) fs w = (r, fs', w')"
    using assms(10) by (simp only: basic_main_def Let_def basic_paths assms(4,5))
  ultimately have main: "fs' = fs1" "r = Blocked \<longleftrightarrow> ListenAddr '':4434'' (listeners (tls13_config [der])) = None"
    "w_logs w' ! length (w_logs w) = Log 0 LevelInfo ''basic server listening''
      [(''native'', LvStr '':4433''), (''webtransport'', LvStr '':4434''), (''cert_file'', LvStr cf),
       (''webtransport_cert_sha256'', LvStr (hex_encode (Sum256 lib der)))]"
    by (auto simp: serve_dev_def der(1) leaf_hash log_to_def nth_append Let_def split: option.splits)
  from watch_one [OF assms(2) der(2), of n c] main(1) have
    "cl_hashes (WatchCertFile lib cf (replicate (Suc n) fs') c) = [hex_encode (Sum256 lib (pem_Encode lib ''CERTIFICATE'' der))]"
    by simp
  moreover have "pem_Encode lib ''CERTIFICATE'' der \<noteq> der" using assms(3) [of der] by (metis less_irrefl)
  ultimately show ?thesis using main(2,3) der(2) [folded main(1)]
    by - (rule exI [where x = der], rule exI [where x = "pem_Encode lib ''CERTIFICATE'' der"], intro conjI refl)
qed

text \<open>A library whose PEM form is the content with a byte in front.\<close>

definition pem_lib :: "unit x509_lib" where
  "pem_lib = (one_cert_lib (0 - Minute) (1 + webTransportDevCertValidity) [])
     \<lparr>pem_Encode := \<lambda>ty b. 0 # b, pem_Decode := \<lambda>b. Some (tl b), X509KeyPair := \<lambda>c k. Inr [tl c], Sum256 := \<lambda>d. 9 # d\<rparr>"

definition basic_boot :: "main_end \<times> gofs \<times> world" where
  "basic_boot = basic_main pem_lib (\<lambda>cfg. []) (0, 0, 1, 7) empty_fs sample_world"

theorem announced_hash_not_pinned_witness:
  "\<exists>der pem. os_ReadFile (fst (snd basic_boot)) ''.local/certs/basic-server/localhost-cert.pem'' = Inr pem \<and>
    pem = pem_Encode pem_lib ''CERTIFICATE'' der \<and> pem \<noteq> der \<and>
    w_logs (snd (snd basic_boot)) ! length (w_logs sample_world) = Log 0 LevelInfo ''basic server listening''
      [(''native'', LvStr '':4433''), (''webtransport'', LvStr '':4434''),
       (''cert_file'', LvStr ''.local/certs/basic-server/localhost-cert.pem''),
       (''webtransport_cert_sha256'', LvStr (hex_encode (Sum256 pem_lib der)))] \<and>
    (fst basic_boot = Blocked \<longleftrightarrow> ListenAddr '':4434'' [] = None) \<and>
    cl_hashes (WatchCertFile pem_lib ''.local/certs/basic-server/localhost-cert.pem''
      (replicate (Suc 2) (fst (snd basic_boot))) (NewClientFromConn ())) = [hex_encode (Sum256 pem_lib pem)]"
proof (rule announced_hash_not_pinned [OF _ _ _ refl refl])
  let ?cf = "''.local/certs/basic-server/localhost-cert.pem''" and ?kf = "''.local/certs/basic-server/localhost-key.pem''"
  show "x509_faithful pem_lib" by (simp add: x509_faithful_def pem_lib_def one_cert_lib_def)
  show "Sum256 pem_lib d \<noteq> []" "length d < length (pem_Encode pem_lib ''CERTIFICATE'' d)" for d
    by (simp_all add: pem_lib_def)
  show "path_ok empty_fs ?cf" "path_ok empty_fs ?kf" by (simp_all add: path_ok_def empty_fs_def)
  show "load_self_signed pem_lib ?cf ?kf empty_fs = None" by (simp add: load_self_signed_def os_Stat_def empty_fs_def)
  have d: "Dir ?cf = ''.local/certs/basic-server''" "Dir ?kf = ''.local/certs/basic-server''" by code_simp+
  have p: "parents ''.local/certs/basic-server'' = [''.local'', ''.local/certs'']" by code_simp
  show "\<not> isl (fst (create_self_signed pem_lib empty_fs ?cf ?kf [''localhost'', ''127.0.0.1''] 0 1 7))"
    unfolding create_self_signed_def d
    by (simp add: generateSelfSignedPEM_def pem_lib_def one_cert_lib_def dev_template_def add_host_def
        p os_MkdirAll_def os_WriteFile_def empty_fs_def FromFiles_def LoadX509KeyPair_def os_ReadFile_def)
  show "basic_main pem_lib (\<lambda>cfg. []) (0, 0, 1, 7) empty_fs sample_world =
      (fst basic_boot, fst (snd basic_boot), snd (snd basic_boot))"
    by (simp add: basic_boot_def)
qed

text \<open>
  The example server stops only when it is drained. When the main function of cmd/example ends with exit
  code 0, every stream goroutine of the server had finished and no connection handler was in its accept
  loop.
\<close>

theorem example_stops_drained:
  assumes "sv_reach L M a (server_start w0) sv" "example_main lib env lg listeners sv i w = (Exited 0, w')"
  shows "list_all (\<lambda>t. st_phase t = Closed) (sv_streams sv) \<and> drain_work sv = 0"
proof -
  from assms(2) obtain sv' where "Shutdown sv = Some sv'"
    by (auto simp: example_main_def Let_def split: prod.splits sum.splits option.splits)
  then have "sv_wg sv = 0" by (simp add: Shutdown_def split: if_splits)
  with wg_inv_reach [OF assms(1)] have "in_flight sv = 0" by (simp add: wg_inv_def)
  then show ?thesis
    by (auto simp: drain_work_zero in_flight_def list_all_iff stream_weight_def split: if_splits)
qed

theorem example_stops_drained_witness:
  "list_all (\<lambda>t. st_phase t = Closed) (sv_streams (sample_run [AcceptConn sample_peer None, ConnStart 0, ConnLost 0, ConnEnd 0])) \<and>
   drain_work (sample_run [AcceptConn sample_peer None, ConnStart 0, ConnLost 0, ConnEnd 0]) = 0"
proof (rule example_stops_drained)
  let ?sv = "sample_run [AcceptConn sample_peer None, ConnStart 0, ConnLost 0, ConnEnd 0]"
  show "sv_reach sample_lib sample_msgpack sample_app (server_start sample_world) ?sv"
    by (rule sample_run_reach) (simp add: sv_simps)
  have "sv_wg ?sv = 0" by (simp add: sample_run_def sv_simps)
  moreover have "SelfSigned dev_lib [''localhost'', ''127.0.0.1''] 0 1 7 = Inr (tls13_config [[1]])"
    by (simp add: SelfSigned_def generateSelfSignedPEM_def dev_lib_def one_cert_lib_def dev_template_def add_host_def)
  ultimately show "example_main dev_lib Map.empty 0 (\<lambda>n t cfg. [(False, None)]) ?sv (0, 1, 7) sample_world =
      (Exited 0, snd (example_main dev_lib Map.empty 0 (\<lambda>n t cfg. [(False, None)]) ?sv (0, 1, 7) sample_world))"
    by (simp add: example_main_def envOr_def ListenAddr_def Shutdown_def Let_def)
qed

end
