(* ===== verification/Users_Lock.thy ===== *)
theory Users_Lock
  imports Basic_Server Mutex
begin

text \<open>
  The mutex of examples/basic-server/main.go, statement by statement. \<open>Basic_Server\<close> treats what a
  handler does between Lock and Unlock as one step; here the statements of different handlers
  interleave, and the lock is what keeps them apart. The loops over the slice are single statements:
  they only read it.
\<close>

section \<open>The critical sections\<close>

datatype users_op =
    PostUser string \<comment> \<open>POST /users, with the name from the body\<close>
  | ListUsers \<comment> \<open>copyUsers\<close>
  | FindUser string \<comment> \<open>GET /users/:id\<close>

text \<open>The variables a handler reads and writes inside: \<^verbatim>\<open>user\<close>, \<^verbatim>\<open>cloned\<close> and the user the loop found.\<close>

record users_vars =
  uv_user :: user
  uv_cloned :: "user list"
  uv_found :: "user option"

definition no_vars :: users_vars where
  "no_vars = \<lparr>uv_user = [], uv_cloned = [], uv_found = None\<rparr>"

type_synonym users_shared = "int \<times> user list" \<comment> \<open>nextID and users\<close>

definition make_user :: "string \<Rightarrow> (users_shared, users_vars) stmt" where
  "make_user name = (\<lambda>((nextID, users), l).
     ((nextID, users), l\<lparr>uv_user := [(''id'', show_int nextID), (''name'', name)]\<rparr>))"

definition incr_nextID :: "(users_shared, users_vars) stmt" where
  "incr_nextID = (\<lambda>((nextID, users), l). ((nextID + 1, users), l))"

definition append_user :: "(users_shared, users_vars) stmt" where
  "append_user = (\<lambda>((nextID, users), l). ((nextID, users @ [uv_user l]), l))"

fun users_body :: "users_op \<Rightarrow> (users_shared, users_vars) stmt list" where
  "users_body (PostUser name) = [make_user name, incr_nextID, append_user]"
| "users_body ListUsers = [\<lambda>((n, us), l). ((n, us), l\<lparr>uv_cloned := copyUsers us\<rparr>)]"
| "users_body (FindUser i) =
     [\<lambda>((n, us), l). ((n, us), l\<lparr>uv_found := find (\<lambda>u. user_get u ''id'' = i) us\<rparr>)]"

lemmas users_stmts = make_user_def incr_nextID_def append_user_def

section \<open>The atomic operations\<close>

fun users_atomic :: "users_op \<Rightarrow> users_shared \<Rightarrow> users_shared \<times> users_vars" where
  "users_atomic (PostUser name) (n, us) =
     (let u = [(''id'', show_int n), (''name'', name)] in ((n + 1, us @ [u]), no_vars\<lparr>uv_user := u\<rparr>))"
| "users_atomic ListUsers (n, us) = ((n, us), no_vars\<lparr>uv_cloned := copyUsers us\<rparr>)"
| "users_atomic (FindUser i) (n, us) = ((n, us), no_vars\<lparr>uv_found := find (\<lambda>u. user_get u ''id'' = i) us\<rparr>)"

interpretation users_lock: critical_section users_body no_vars users_atomic
proof
  fix p and s :: users_shared
  show "run_stmts (users_body p) (s, no_vars) = users_atomic p s"
    by (cases s; cases p) (simp_all add: users_stmts Let_def)
qed

text \<open>The handlers do to the state, and answer with, what the atomic operations compute.\<close>

definition users_of :: "('l, 'x) basic_world_scheme \<Rightarrow> users_shared" where
  "users_of w = (bs_nextID w, bs_users w)"

lemma bs_create_atomic:
  assumes "Ctx_BindAndValidate M V c (GMap [(''name'', GStr [])]) = Inr body"
    and "users_atomic (PostUser (field_str body ''name'')) (users_of w) = ((n, us), l)"
  shows "bs_create M V c w =
    answer (Ctx_MsgPack M c 201 (gstrings (uv_user l))) (w\<lparr>bs_nextID := n, bs_users := us\<rparr>)"
  using assms by (auto simp: bs_create_def users_of_def Let_def)

lemma bs_list_atomic:
  assumes "users_atomic ListUsers (users_of w) = (s, l)"
  shows "s = users_of w \<and> bs_list M c w =
    answer (Ctx_MsgPack M c 200 (GMap [(''users'', GList (map gstrings (uv_cloned l)))])) w"
  using assms by (auto simp: bs_list_def users_of_def)

lemma bs_get_atomic:
  assumes "users_atomic (FindUser (Ctx_Param c ''id'')) (users_of w) = (s, l)"
  shows "s = users_of w \<and> bs_get M c w =
    (case uv_found l of
       Some u \<Rightarrow> answer (Ctx_MsgPack M c 200 (gstrings u)) w
     | None \<Rightarrow> answer (Ctx_Error M c 404 ''user not found'' []) w)"
  using assms by (auto simp: bs_get_def users_of_def split: option.split)

section \<open>Runs\<close>

text \<open>The table as \<open>users_ok\<close> of \<open>Basic_Server\<close> has it: the IDs are 1, 2, 3, ... in order.\<close>

fun numbered :: "users_shared \<Rightarrow> bool" where
  "numbered (n, us) =
     (map (\<lambda>u. user_get u ''id'') us = map (\<lambda>k. show_int (int k)) [1 ..< Suc (length us)] \<and>
      n = int (length us) + 1)"

lemma numbered_users_ok: "numbered (users_of w) \<longleftrightarrow> users_ok w"
  by (simp add: users_of_def users_ok_def)

lemma atomic_numbered: "numbered s \<Longrightarrow> numbered (fst (users_atomic p s))"
  by (cases s; cases p) (auto simp: Let_def user_get_id)

lemma serial_numbered: "numbered s \<Longrightarrow> numbered (serial users_atomic h s)"
proof (induction h arbitrary: s)
  case (Cons e h)
  then show ?case using atomic_numbered by (cases e) auto
qed simp

lemma serial_prefix: "prefix (snd s) (snd (serial users_atomic h s))"
proof (induction h arbitrary: s)
  case (Cons e h)
  obtain g p where e: "e = (g, p)" by (cases e)
  have "prefix (snd s) (snd (fst (users_atomic p s)))" by (cases s; cases p) (auto simp: Let_def)
  then show ?case using Cons [of "fst (users_atomic p s)"] e by (auto dest: prefix_order.trans)
qed simp

text \<open>The user of a POST at its place in a history is at its position in every later table.\<close>

lemma serial_post:
  assumes "numbered s" "l = snd (users_atomic (PostUser name) (serial users_atomic h1 s))"
    and "i = length (snd (serial users_atomic h1 s))"
  shows "i < length (snd (serial users_atomic (h1 @ (g, PostUser name) # h2) s)) \<and>
    snd (serial users_atomic (h1 @ (g, PostUser name) # h2) s) ! i = uv_user l \<and>
    uv_user l = [(''id'', show_int (int i + 1)), (''name'', name)]"
proof -
  obtain n us where s1: "serial users_atomic h1 s = (n, us)" by (cases "serial users_atomic h1 s")
  have n: "n = int (length us) + 1" using serial_numbered [OF assms(1), of h1] s1 by simp
  let ?u = "[(''id'', show_int n), (''name'', name)]"
  have "prefix (us @ [?u]) (snd (serial users_atomic h2 (n + 1, us @ [?u])))"
    using serial_prefix [of "(n + 1, us @ [?u])" h2] by simp
  then obtain zs where "snd (serial users_atomic h2 (n + 1, us @ [?u])) = us @ ?u # zs"
    by (auto simp: prefix_def)
  then show ?thesis using assms(2,3) s1 n by (simp add: Let_def nth_append)
qed

lemma initial_numbered: "numbered (3, initial_users)"
proof -
  have "users_of basic_start = (3, initial_users)" by (simp add: users_of_def basic_start_def)
  with numbered_users_ok [of basic_start] basic_start_ok show ?thesis by metis
qed

text \<open>Two POSTs at different places in a history find tables of different lengths.\<close>

lemma serial_posts:
  assumes "h1 @ (g, PostUser name) # h2 = k1 @ (g', PostUser name') # k2" "g \<noteq> g'" "numbered s"
  shows "length (snd (serial users_atomic h1 s)) \<noteq> length (snd (serial users_atomic k1 s))"
proof -
  have grow: "length (snd (serial users_atomic k s)) < length (snd (serial users_atomic (k @ (i, PostUser m) # k') s))"
    for k i m k' using serial_post [OF assms(3) refl refl] by blast
  from history_order [OF assms(1,2)] show ?thesis using grow by (metis less_irrefl)
qed

lemma explained_post:
  assumes "explains users_atomic h (3, initial_users) st" "g < length (lk_routines st)"
    and "lk_routines st ! g = Released (PostUser name) l"
  shows "\<exists>h1 h2. h = h1 @ (g, PostUser name) # h2 \<and>
    l = snd (users_atomic (PostUser name) (serial users_atomic h1 (3, initial_users)))"
  using explainsD(3) [OF assms(1,2)] assms(3) by simp

lemma numbered_find:
  assumes "numbered (n, us)" "u \<in> set us"
  shows "find (\<lambda>v. user_get v ''id'' = user_get u ''id'') us = Some u"
proof -
  let ?w = "basic_start\<lparr>bs_nextID := n, bs_users := us\<rparr>"
  have "users_of ?w = (n, us)" by (simp add: users_of_def)
  then have "users_ok ?w" using assms(1) numbered_users_ok by metis
  from users_ok_find [OF this, of u] assms(2) show ?thesis by simp
qed

section \<open>Properties of the users under concurrency\<close>

text \<open>
  C19: The users of the basic server under every interleaving of statements. However many POST and GET
  handlers run at once, whenever the mutex is free the IDs in the table are 1, 2, 3, ... in order, the
  first users are untouched, the user each finished POST answers with is in the table, and two POSTs
  never answer with the same ID; at no time are two handlers between Lock and Unlock.
\<close>

theorem users_linearizable:
  assumes "lk_reach users_body no_vars (lk_start (3, initial_users)) st"
  shows "(\<forall>g < length (lk_routines st). \<forall>g' < length (lk_routines st). \<forall>p fs l p' fs' l'.
       lk_routines st ! g = Holds p fs l \<longrightarrow> lk_routines st ! g' = Holds p' fs' l' \<longrightarrow> g = g') \<and>
    (\<forall>g < length (lk_routines st). \<forall>g' < length (lk_routines st). \<forall>name l name' l'.
       lk_routines st ! g = Released (PostUser name) l \<longrightarrow> lk_routines st ! g' = Released (PostUser name') l' \<longrightarrow>
       g \<noteq> g' \<longrightarrow> user_get (uv_user l) ''id'' \<noteq> user_get (uv_user l') ''id'') \<and>
    (lk_owner st = None \<longrightarrow>
       numbered (lk_shared st) \<and> prefix initial_users (snd (lk_shared st)) \<and>
       (\<forall>g < length (lk_routines st). \<forall>name l. lk_routines st ! g = Released (PostUser name) l \<longrightarrow>
          uv_user l \<in> set (snd (lk_shared st)) \<and> user_get (uv_user l) ''name'' = name))"
proof -
  let ?s0 = "(3, initial_users)"
  obtain h where h: "explains users_atomic h ?s0 st"
    using users_lock.reach_ok [OF assms] users_lock.start_ok [of ?s0] by blast
  have sh: "lk_owner st = None \<Longrightarrow> lk_shared st = serial users_atomic h ?s0" by (rule explainsD(4) [OF h])
  have post: "uv_user l \<in> set (snd (serial users_atomic h ?s0)) \<and> user_get (uv_user l) ''name'' = name"
    if r: "g < length (lk_routines st)" "lk_routines st ! g = Released (PostUser name) l" for g name l
  proof -
    from explained_post [OF h r] obtain h1 h2 where d: "h = h1 @ (g, PostUser name) # h2"
      "l = snd (users_atomic (PostUser name) (serial users_atomic h1 ?s0))" by blast
    from serial_post [OF initial_numbered d(2) refl, of g h2] d(1) show ?thesis
      by (auto simp: in_set_conv_nth user_get_def)
  qed
  have "user_get (uv_user l) ''id'' \<noteq> user_get (uv_user l') ''id''"
    if r: "g < length (lk_routines st)" "g' < length (lk_routines st)" "g \<noteq> g'"
      "lk_routines st ! g = Released (PostUser name) l" "lk_routines st ! g' = Released (PostUser name') l'"
    for g g' name l name' l'
  proof -
    from explained_post [OF h r(1,4)] obtain h1 h2 where d: "h = h1 @ (g, PostUser name) # h2"
      "l = snd (users_atomic (PostUser name) (serial users_atomic h1 ?s0))" by blast
    from explained_post [OF h r(2,5)] obtain k1 k2 where k: "h = k1 @ (g', PostUser name') # k2"
      "l' = snd (users_atomic (PostUser name') (serial users_atomic k1 ?s0))" by blast
    have "length (snd (serial users_atomic h1 ?s0)) \<noteq> length (snd (serial users_atomic k1 ?s0))"
      using serial_posts [OF _ r(3) initial_numbered] d(1) k(1) by metis
    with serial_post [OF initial_numbered d(2) refl, of g h2] serial_post [OF initial_numbered k(2) refl, of g' k2]
    show ?thesis by (simp add: user_get_def)
  qed
  moreover note post serial_numbered [OF initial_numbered, of h] serial_prefix [of ?s0 h]
  ultimately show ?thesis using sh users_lock.mutual_exclusion [OF assms] by auto
qed

text \<open>Two POSTs at once, then a GET for the first one's user.\<close>

definition two_posts :: "(users_op, users_shared, users_vars) locked" where
  "two_posts = the (lk_run users_body no_vars
     [Call (PostUser ''Zoe''), Call (PostUser ''Yan''), Lock 1, Stmt 1, Call ListUsers, Stmt 1, Stmt 1, Unlock 1,
      Lock 0, Stmt 0, Stmt 0, Stmt 0, Unlock 0] (lk_start (3, initial_users)))"

definition then_get :: "(users_op, users_shared, users_vars) locked" where
  "then_get = the (lk_run users_body no_vars [Call (FindUser ''4''), Lock 3, Stmt 3, Unlock 3] two_posts)"

lemma show_small [simp]: "show_int 3 = ''3''" "show_int 4 = ''4''"
  by (simp_all add: show_int_def show_nat.simps digit_char_def char_of_def bit_iff_odd)

lemma two_posts_eval:
  "lk_run users_body no_vars
     [Call (PostUser ''Zoe''), Call (PostUser ''Yan''), Lock 1, Stmt 1, Call ListUsers, Stmt 1, Stmt 1, Unlock 1,
      Lock 0, Stmt 0, Stmt 0, Stmt 0, Unlock 0] (lk_start (3, initial_users)) = Some two_posts"
  "two_posts = \<lparr>lk_shared = (5, initial_users @ [[(''id'', ''3''), (''name'', ''Yan'')], [(''id'', ''4''), (''name'', ''Zoe'')]]),
     lk_owner = None, lk_routines =
       [Released (PostUser ''Zoe'') (no_vars\<lparr>uv_user := [(''id'', ''4''), (''name'', ''Zoe'')]\<rparr>),
        Released (PostUser ''Yan'') (no_vars\<lparr>uv_user := [(''id'', ''3''), (''name'', ''Yan'')]\<rparr>), Wants ListUsers]\<rparr>"
  by (simp_all add: two_posts_def lk_start_def users_stmts)

lemma two_posts_reach: "lk_reach users_body no_vars (lk_start (3, initial_users)) two_posts"
  by (rule lk_run_reach [OF two_posts_eval(1)])

theorem users_linearizable_witness:
  "user_get (uv_user (no_vars\<lparr>uv_user := [(''id'', ''4''), (''name'', ''Zoe'')]\<rparr>)) ''id'' \<noteq>
     user_get (uv_user (no_vars\<lparr>uv_user := [(''id'', ''3''), (''name'', ''Yan'')]\<rparr>)) ''id'' \<and>
   numbered (lk_shared two_posts) \<and> [(''id'', ''4''), (''name'', ''Zoe'')] \<in> set (snd (lk_shared two_posts))"
proof -
  note all = users_linearizable [OF two_posts_reach]
  have ids: "user_get (uv_user (no_vars\<lparr>uv_user := [(''id'', ''4''), (''name'', ''Zoe'')]\<rparr>)) ''id'' \<noteq>
     user_get (uv_user (no_vars\<lparr>uv_user := [(''id'', ''3''), (''name'', ''Yan'')]\<rparr>)) ''id''"
    by (rule conjunct1 [OF conjunct2 [OF all], rule_format, of 0 1 "''Zoe''" _ "''Yan''"]) (simp_all add: two_posts_eval(2))
  have "lk_owner two_posts = None" by (simp add: two_posts_eval(2))
  then have "numbered (lk_shared two_posts)" using all by blast
  moreover have "[(''id'', ''4''), (''name'', ''Zoe'')] \<in> set (snd (lk_shared two_posts))" by (simp add: two_posts_eval(2))
  ultimately show ?thesis using ids by blast
qed

text \<open>
  C20: A user that was created is found. If a POST has finished, every GET that starts afterwards with the ID
  it answered finds exactly that user, whatever other requests run at the same time.
\<close>

theorem users_read_your_writes:
  assumes "lk_reach users_body no_vars (lk_start (3, initial_users)) st"
    and "g < length (lk_routines st)" "lk_routines st ! g = Released (PostUser name) l"
    and "lk_reach users_body no_vars st st'" "length (lk_routines st) \<le> g'" "g' < length (lk_routines st')"
    and "lk_routines st' ! g' = Released (FindUser (user_get (uv_user l) ''id'')) l'"
  shows "uv_found l' = Some (uv_user l)"
proof -
  let ?s0 = "(3, initial_users)"
  from users_lock.linearizable [OF assms(1,4)] obtain h h' where
    h: "explains users_atomic h ?s0 st" "explains users_atomic (h @ h') ?s0 st'" by blast
  from explained_post [OF h(1) assms(2,3)] obtain h1 h2 where d: "h = h1 @ (g, PostUser name) # h2"
      "l = snd (users_atomic (PostUser name) (serial users_atomic h1 ?s0))" by blast
  from explainsD(3) [OF h(2) assms(6)] assms(7) obtain k1 k2 where k:
      "h @ h' = k1 @ (g', FindUser (user_get (uv_user l) ''id'')) # k2"
      "l' = snd (users_atomic (FindUser (user_get (uv_user l) ''id'')) (serial users_atomic k1 ?s0))" by auto
  have "g' \<notin> fst ` set h" using explainsD(2) [OF h(1)] assms(5) by fastforce
  with k(1) obtain m where "k1 = h @ m"
    by (auto simp: append_eq_append_conv2 Cons_eq_append_conv append_eq_Cons_conv)
  with d(1) have k1: "k1 = h1 @ (g, PostUser name) # (h2 @ m)" by simp
  obtain n us where s1: "serial users_atomic k1 ?s0 = (n, us)" by (cases "serial users_atomic k1 ?s0")
  from serial_post [OF initial_numbered d(2) refl, of g "h2 @ m"] have "uv_user l \<in> set us"
    using s1 by (auto simp: k1 in_set_conv_nth)
  moreover have "numbered (n, us)" using serial_numbered [OF initial_numbered, of k1] s1 by metis
  ultimately have "find (\<lambda>v. user_get v ''id'' = user_get (uv_user l) ''id'') us = Some (uv_user l)"
    using numbered_find by blast
  with k(2) s1 show ?thesis by simp
qed

theorem users_read_your_writes_witness:
  "uv_found (no_vars\<lparr>uv_found := Some [(''id'', ''4''), (''name'', ''Zoe'')]\<rparr>) =
   Some (uv_user (no_vars\<lparr>uv_user := [(''id'', ''4''), (''name'', ''Zoe'')]\<rparr>))"
proof (rule users_read_your_writes [OF two_posts_reach, where g = 0 and name = "''Zoe''"])
  have run: "lk_run users_body no_vars [Call (FindUser ''4''), Lock 3, Stmt 3, Unlock 3] two_posts = Some then_get"
    by (simp add: then_get_def two_posts_eval(2))
  then show "lk_reach users_body no_vars two_posts then_get" by (rule lk_run_reach)
  have "lk_routines then_get = lk_routines two_posts @ [Released (FindUser ''4'')
      (no_vars\<lparr>uv_found := Some [(''id'', ''4''), (''name'', ''Zoe'')]\<rparr>)]"
    by (simp add: then_get_def two_posts_eval(2) initial_users_def user_get_def)
  then show "lk_routines then_get ! 3 = Released (FindUser (user_get (uv_user (no_vars\<lparr>uv_user :=
      [(''id'', ''4''), (''name'', ''Zoe'')]\<rparr>)) ''id'')) (no_vars\<lparr>uv_found := Some [(''id'', ''4''), (''name'', ''Zoe'')]\<rparr>)"
    "3 < length (lk_routines then_get)"
    by (simp_all add: two_posts_eval(2) user_get_def)
qed (simp_all add: two_posts_eval(2))

end
