(* ===== verification/Rate_Limit_Conc.thy ===== *)
theory Rate_Limit_Conc
  imports Rate_Limit Mutex
begin

text \<open>
  middleware/ratelimit.go with its goroutines apart. The table maps keys to pointers into a heap of
  entries, each with the limiter allocated for it. A request first calls getLimiter, which holds the
  mutex, and later, without the mutex, Allow on the limiter it was given; other requests and the cleanup
  goroutine may run in between. \<open>Rate_Limit\<close> takes both calls as one step.
\<close>

section \<open>The table with pointers\<close>

record 'l rl_heap =
  rh_entries :: "string \<rightharpoonup> nat"
  rh_heap :: "'l entry list"

datatype rl_op =
    GetLimiter string int \<comment> \<open>the key, and what time.Now() returns inside\<close>
  | Cleanup int

text \<open>The statements under the mutex; the variable is \<^verbatim>\<open>e\<close>, nil before the lookup succeeds.\<close>

definition look_entry :: "string \<Rightarrow> ('l rl_heap, nat option) stmt" where
  "look_entry key = (\<lambda>(h, e). (h, rh_entries h key))"

definition new_entry :: "'l limiter_lib \<Rightarrow> 'v RateLimitConfig \<Rightarrow> string \<Rightarrow> ('l rl_heap, nat option) stmt" where
  "new_entry lib cfg key = (\<lambda>(h, e).
     case e of
       Some i \<Rightarrow> (h, e)
     | None \<Rightarrow>
         (h\<lparr>rh_entries := (rh_entries h)(key \<mapsto> length (rh_heap h)),
            rh_heap := rh_heap h @ [\<lparr>e_limiter = NewLimiter lib (rl_RequestsPerSecond cfg) (rl_Burst cfg), e_lastSeen = 0\<rparr>]\<rparr>,
          Some (length (rh_heap h))))"

definition touch_entry :: "int \<Rightarrow> ('l rl_heap, nat option) stmt" where
  "touch_entry now = (\<lambda>(h, e).
     (h\<lparr>rh_heap := (rh_heap h)[the e := (rh_heap h ! the e)\<lparr>e_lastSeen := now\<rparr>]\<rparr>, e))"

definition cleanup_refs :: "'v RateLimitConfig \<Rightarrow> int \<Rightarrow> 'l rl_heap \<Rightarrow> 'l rl_heap" where
  "cleanup_refs cfg now h =
     h\<lparr>rh_entries := (\<lambda>k. case rh_entries h k of
        None \<Rightarrow> None
      | Some i \<Rightarrow> if now - e_lastSeen (rh_heap h ! i) > rl_IdleTimeout cfg then None else Some i)\<rparr>"

fun rl_body :: "'l limiter_lib \<Rightarrow> 'v RateLimitConfig \<Rightarrow> rl_op \<Rightarrow> ('l rl_heap, nat option) stmt list" where
  "rl_body lib cfg (GetLimiter key now) = [look_entry key, new_entry lib cfg key, touch_entry now]"
| "rl_body lib cfg (Cleanup now) = [\<lambda>(h, e). (cleanup_refs cfg now h, e)]"

definition getLimiter_ref ::
    "'l limiter_lib \<Rightarrow> 'v RateLimitConfig \<Rightarrow> string \<Rightarrow> int \<Rightarrow> 'l rl_heap \<Rightarrow> 'l rl_heap \<times> nat" where
  "getLimiter_ref lib cfg key now h =
     (case rh_entries h key of
        Some i \<Rightarrow> (h\<lparr>rh_heap := (rh_heap h)[i := (rh_heap h ! i)\<lparr>e_lastSeen := now\<rparr>]\<rparr>, i)
      | None \<Rightarrow>
          (h\<lparr>rh_entries := (rh_entries h)(key \<mapsto> length (rh_heap h)),
             rh_heap := rh_heap h @ [\<lparr>e_limiter = NewLimiter lib (rl_RequestsPerSecond cfg) (rl_Burst cfg), e_lastSeen = now\<rparr>]\<rparr>,
           length (rh_heap h)))"

fun rl_atomic :: "'l limiter_lib \<Rightarrow> 'v RateLimitConfig \<Rightarrow> rl_op \<Rightarrow> 'l rl_heap \<Rightarrow> 'l rl_heap \<times> nat option" where
  "rl_atomic lib cfg (GetLimiter key now) h = (case getLimiter_ref lib cfg key now h of (h', i) \<Rightarrow> (h', Some i))"
| "rl_atomic lib cfg (Cleanup now) h = (cleanup_refs cfg now h, None)"

interpretation rl_lock: critical_section "rl_body lib cfg" None "rl_atomic lib cfg" for lib cfg
proof
  fix p and s :: "'a rl_heap"
  show "run_stmts (rl_body lib cfg p) (s, None) = rl_atomic lib cfg p s"
    by (cases p) (auto simp: look_entry_def new_entry_def touch_entry_def getLimiter_ref_def split: option.split)
qed

section \<open>Requests\<close>

text \<open>A request that has its limiter, and then its decision.\<close>

datatype rl_call = Got string nat | Decided string bool

record 'l rl_conc =
  rc_heap :: "'l rl_heap"
  rc_calls :: "rl_call list"
  rc_out :: "(string \<times> int \<times> bool) list" \<comment> \<open>the calls of Allow: key, time and result\<close>

datatype rc_event = RGet string int | RAllow nat int | RTick int

definition allow_ref :: "'l limiter_lib \<Rightarrow> nat \<Rightarrow> int \<Rightarrow> 'l rl_heap \<Rightarrow> bool \<times> 'l rl_heap" where
  "allow_ref lib i now h =
     (case Allow lib (e_limiter (rh_heap h ! i)) now of
        (ok, l) \<Rightarrow> (ok, h\<lparr>rh_heap := (rh_heap h)[i := (rh_heap h ! i)\<lparr>e_limiter := l\<rparr>]\<rparr>))"

fun rc_step :: "'l limiter_lib \<Rightarrow> 'v RateLimitConfig \<Rightarrow> rc_event \<Rightarrow> 'l rl_conc \<Rightarrow> 'l rl_conc option" where
  "rc_step lib cfg (RGet k now) st =
     (case getLimiter_ref lib cfg k now (rc_heap st) of
        (h, i) \<Rightarrow> Some (st\<lparr>rc_heap := h, rc_calls := rc_calls st @ [Got k i]\<rparr>))"
| "rc_step lib cfg (RAllow g now) st =
     (if g < length (rc_calls st) then
        (case rc_calls st ! g of
           Got k i \<Rightarrow>
             (case allow_ref lib i now (rc_heap st) of
                (ok, h) \<Rightarrow> Some (st\<lparr>rc_heap := h, rc_calls := (rc_calls st)[g := Decided k ok],
                                  rc_out := rc_out st @ [(k, now, ok)]\<rparr>))
         | Decided k ok \<Rightarrow> None)
      else None)"
| "rc_step lib cfg (RTick now) st = Some (st\<lparr>rc_heap := cleanup_refs cfg now (rc_heap st)\<rparr>)"

definition rc_start :: "'l rl_conc" where
  "rc_start = \<lparr>rc_heap = \<lparr>rh_entries = Map.empty, rh_heap = []\<rparr>, rc_calls = [], rc_out = []\<rparr>"

fun rc_run :: "'l limiter_lib \<Rightarrow> 'v RateLimitConfig \<Rightarrow> rc_event list \<Rightarrow> 'l rl_conc \<Rightarrow> 'l rl_conc option" where
  "rc_run lib cfg [] st = Some st"
| "rc_run lib cfg (e # es) st = (case rc_step lib cfg e st of None \<Rightarrow> None | Some st' \<Rightarrow> rc_run lib cfg es st')"

text \<open>A key that no tick of the cleanup finds idle for longer than the timeout.\<close>

fun kept_busy :: "'v RateLimitConfig \<Rightarrow> string \<Rightarrow> rc_event list \<Rightarrow> int option \<Rightarrow> bool" where
  "kept_busy cfg k [] seen = True"
| "kept_busy cfg k (RGet k' now # es) seen = kept_busy cfg k es (if k' = k then Some now else seen)"
| "kept_busy cfg k (RAllow g now # es) seen = kept_busy cfg k es seen"
| "kept_busy cfg k (RTick now # es) seen =
     ((case seen of None \<Rightarrow> True | Some t \<Rightarrow> now - t \<le> rl_IdleTimeout cfg) \<and> kept_busy cfg k es seen)"

section \<open>Every request of a key meets the same limiter\<close>

fun limiter_after :: "'l limiter_lib \<Rightarrow> int list \<Rightarrow> 'l \<Rightarrow> 'l" where
  "limiter_after lib [] l = l"
| "limiter_after lib (now # ts) l = limiter_after lib ts (snd (Allow lib l now))"

lemma limiter_after_snoc:
  "limiter_after lib (ts @ [now]) l = snd (Allow lib (limiter_after lib ts l) now)"
  "limiter_run lib (ts @ [now]) l = limiter_run lib ts l @ [fst (Allow lib (limiter_after lib ts l) now)]"
  by (induction ts arbitrary: l) (auto simp: Let_def split: prod.splits)

text \<open>Pointers are valid, and each belongs to one key.\<close>

definition refs_ok :: "'l rl_conc \<Rightarrow> bool" where
  "refs_ok st \<longleftrightarrow>
     (\<exists>own. length own = length (rh_heap (rc_heap st)) \<and>
        (\<forall>k i. rh_entries (rc_heap st) k = Some i \<longrightarrow> i < length own \<and> own ! i = k) \<and>
        (\<forall>k i. Got k i \<in> set (rc_calls st) \<longrightarrow> i < length own \<and> own ! i = k))"

text \<open>The calls of one key, and the limiter they have made, seen as one limiter on its own.\<close>

definition key_calls :: "string \<Rightarrow> 'l rl_conc \<Rightarrow> (int \<times> bool) list" where
  "key_calls k st = map snd (filter (\<lambda>c. fst c = k) (rc_out st))"

definition key_ok :: "'l limiter_lib \<Rightarrow> 'v RateLimitConfig \<Rightarrow> string \<Rightarrow> int option \<Rightarrow> 'l rl_conc \<Rightarrow> bool" where
  "key_ok lib cfg k seen st \<longleftrightarrow>
     (\<forall>i. Got k i \<in> set (rc_calls st) \<longrightarrow> rh_entries (rc_heap st) k = Some i) \<and>
     map_option (\<lambda>i. e_lastSeen (rh_heap (rc_heap st) ! i)) (rh_entries (rc_heap st) k) = seen \<and>
     (let ts = map fst (key_calls k st); l = NewLimiter lib (rl_RequestsPerSecond cfg) (rl_Burst cfg) in
      map snd (key_calls k st) = limiter_run lib ts l \<and>
      (case rh_entries (rc_heap st) k of
         None \<Rightarrow> key_calls k st = []
       | Some i \<Rightarrow> e_limiter (rh_heap (rc_heap st) ! i) = limiter_after lib ts l))"

lemma refs_okD:
  assumes "refs_ok st"
  shows "rh_entries (rc_heap st) k = Some i \<Longrightarrow> i < length (rh_heap (rc_heap st))"
    "Got k i \<in> set (rc_calls st) \<Longrightarrow> i < length (rh_heap (rc_heap st))"
    "rh_entries (rc_heap st) k = Some i \<Longrightarrow> rh_entries (rc_heap st) k' = Some i \<Longrightarrow> k = k'"
    "rh_entries (rc_heap st) k = Some i \<Longrightarrow> Got k' i \<in> set (rc_calls st) \<Longrightarrow> k = k'"
  using assms unfolding refs_ok_def by metis+

lemma get_cases:
  assumes "rc_step lib cfg (RGet k now) st = Some st'"
  shows "(\<exists>i. rh_entries (rc_heap st) k = Some i \<and>
      st' = st\<lparr>rc_heap := (rc_heap st)\<lparr>rh_heap := (rh_heap (rc_heap st))[i := (rh_heap (rc_heap st) ! i)\<lparr>e_lastSeen := now\<rparr>]\<rparr>,
               rc_calls := rc_calls st @ [Got k i]\<rparr>) \<or>
    rh_entries (rc_heap st) k = None \<and>
      st' = st\<lparr>rc_heap := \<lparr>rh_entries = (rh_entries (rc_heap st))(k \<mapsto> length (rh_heap (rc_heap st))),
                 rh_heap = rh_heap (rc_heap st) @
                   [\<lparr>e_limiter = NewLimiter lib (rl_RequestsPerSecond cfg) (rl_Burst cfg), e_lastSeen = now\<rparr>]\<rparr>,
               rc_calls := rc_calls st @ [Got k (length (rh_heap (rc_heap st)))]\<rparr>"
  using assms by (auto simp: getLimiter_ref_def split: option.splits)

lemma get_refs:
  assumes "refs_ok st" "rc_step lib cfg (RGet k now) st = Some st'"
  shows "refs_ok st'"
proof -
  from assms(1) obtain own where own: "length own = length (rh_heap (rc_heap st))"
    "\<And>k i. rh_entries (rc_heap st) k = Some i \<Longrightarrow> i < length own \<and> own ! i = k"
    "\<And>k i. Got k i \<in> set (rc_calls st) \<Longrightarrow> i < length own \<and> own ! i = k"
    unfolding refs_ok_def by metis
  from get_cases [OF assms(2)] show ?thesis
  proof (elim disjE exE conjE)
    fix i assume "rh_entries (rc_heap st) k = Some i" and st': "st' = st\<lparr>rc_heap := (rc_heap st)\<lparr>rh_heap :=
        (rh_heap (rc_heap st))[i := (rh_heap (rc_heap st) ! i)\<lparr>e_lastSeen := now\<rparr>]\<rparr>, rc_calls := rc_calls st @ [Got k i]\<rparr>"
    with own show ?thesis unfolding refs_ok_def by (intro exI [where x = own]) auto
  next
    assume "rh_entries (rc_heap st) k = None" and st': "st' = st\<lparr>rc_heap := \<lparr>rh_entries =
        (rh_entries (rc_heap st))(k \<mapsto> length (rh_heap (rc_heap st))), rh_heap = rh_heap (rc_heap st) @
          [\<lparr>e_limiter = NewLimiter lib (rl_RequestsPerSecond cfg) (rl_Burst cfg), e_lastSeen = now\<rparr>]\<rparr>,
        rc_calls := rc_calls st @ [Got k (length (rh_heap (rc_heap st)))]\<rparr>"
    with own show ?thesis unfolding refs_ok_def
      by (intro exI [where x = "own @ [k]"]) (auto simp: nth_append split: if_splits dest: own(2,3))
  qed
qed

lemma key_calls_cong: "rc_out st' = rc_out st \<Longrightarrow> key_calls k st' = key_calls k st"
  by (simp add: key_calls_def)

lemma get_key:
  assumes "refs_ok st" "key_ok lib cfg k0 seen st" "rc_step lib cfg (RGet k now) st = Some st'"
  shows "key_ok lib cfg k0 (if k = k0 then Some now else seen) st'"
  using get_cases [OF assms(3)]
proof (elim disjE exE conjE)
  fix i assume e: "rh_entries (rc_heap st) k = Some i" and st': "st' = st\<lparr>rc_heap := (rc_heap st)\<lparr>rh_heap :=
      (rh_heap (rc_heap st))[i := (rh_heap (rc_heap st) ! i)\<lparr>e_lastSeen := now\<rparr>]\<rparr>, rc_calls := rc_calls st @ [Got k i]\<rparr>"
  have other: "j \<noteq> i" if "rh_entries (rc_heap st) k0 = Some j" "k \<noteq> k0" for j
    using refs_okD(3) [OF assms(1) that(1)] e that(2) by blast
  have calls: "key_calls k0 st' = key_calls k0 st" by (simp add: key_calls_def st')
  show ?thesis
    using assms(2) e refs_okD(1) [OF assms(1)] other unfolding key_ok_def calls
    by (cases "rh_entries (rc_heap st) k0") (auto simp: st' Let_def nth_list_update)
next
  assume e: "rh_entries (rc_heap st) k = None" and st': "st' = st\<lparr>rc_heap := \<lparr>rh_entries =
      (rh_entries (rc_heap st))(k \<mapsto> length (rh_heap (rc_heap st))), rh_heap = rh_heap (rc_heap st) @
        [\<lparr>e_limiter = NewLimiter lib (rl_RequestsPerSecond cfg) (rl_Burst cfg), e_lastSeen = now\<rparr>]\<rparr>,
      rc_calls := rc_calls st @ [Got k (length (rh_heap (rc_heap st)))]\<rparr>"
  have calls: "key_calls k0 st' = key_calls k0 st" by (simp add: key_calls_def st')
  show ?thesis
    using assms(2) e refs_okD(1) [OF assms(1)] unfolding key_ok_def calls
    by (cases "rh_entries (rc_heap st) k0") (auto simp: st' Let_def nth_append)
qed

lemma allow_cases:
  assumes "rc_step lib cfg (RAllow g now) st = Some st'"
  obtains k i ok l where "g < length (rc_calls st)" "Got k i \<in> set (rc_calls st)" "rc_calls st ! g = Got k i"
    "Allow lib (e_limiter (rh_heap (rc_heap st) ! i)) now = (ok, l)"
    "st' = st\<lparr>rc_heap := (rc_heap st)\<lparr>rh_heap := (rh_heap (rc_heap st))[i := (rh_heap (rc_heap st) ! i)\<lparr>e_limiter := l\<rparr>]\<rparr>,
              rc_calls := (rc_calls st)[g := Decided k ok], rc_out := rc_out st @ [(k, now, ok)]\<rparr>"
  using assms by (auto simp: allow_ref_def split: if_splits rl_call.splits prod.splits) (metis nth_mem)

lemma decided_set:
  assumes "Got k i \<in> set (xs[g := Decided k' ok])"
  shows "Got k i \<in> set xs"
  using assms set_update_subset_insert [of xs g "Decided k' ok"] by blast

lemma allow_refs:
  assumes "refs_ok st" "rc_step lib cfg (RAllow g now) st = Some st'"
  shows "refs_ok st'"
proof -
  obtain k i ok l where st': "st' = st\<lparr>rc_heap := (rc_heap st)\<lparr>rh_heap :=
        (rh_heap (rc_heap st))[i := (rh_heap (rc_heap st) ! i)\<lparr>e_limiter := l\<rparr>]\<rparr>,
      rc_calls := (rc_calls st)[g := Decided k ok], rc_out := rc_out st @ [(k, now, ok)]\<rparr>"
    using assms(2) by (rule allow_cases)
  show ?thesis using assms(1) unfolding refs_ok_def st' by (auto dest!: decided_set)
qed

lemma allow_key:
  assumes "refs_ok st" "key_ok lib cfg k0 seen st" "rc_step lib cfg (RAllow g now) st = Some st'"
  shows "key_ok lib cfg k0 seen st'"
proof -
  obtain k i ok l where g: "Got k i \<in> set (rc_calls st)" "Allow lib (e_limiter (rh_heap (rc_heap st) ! i)) now = (ok, l)"
    and st': "st' = st\<lparr>rc_heap := (rc_heap st)\<lparr>rh_heap :=
        (rh_heap (rc_heap st))[i := (rh_heap (rc_heap st) ! i)\<lparr>e_limiter := l\<rparr>]\<rparr>,
      rc_calls := (rc_calls st)[g := Decided k ok], rc_out := rc_out st @ [(k, now, ok)]\<rparr>"
    using assms(3) by (rule allow_cases)
  have i: "i < length (rh_heap (rc_heap st))" by (rule refs_okD(2) [OF assms(1) g(1)])
  show ?thesis
  proof (cases "k = k0")
    case True
    have calls: "key_calls k0 st' = key_calls k0 st @ [(now, ok)]" using True by (simp add: key_calls_def st')
    have "rh_entries (rc_heap st) k0 = Some i" using assms(2) g(1) True by (simp add: key_ok_def)
    with assms(2) g(2) i show ?thesis
      unfolding key_ok_def calls by (auto simp: st' Let_def limiter_after_snoc dest!: decided_set)
  next
    case False
    have calls: "key_calls k0 st' = key_calls k0 st" using False by (simp add: key_calls_def st')
    have "j \<noteq> i" if "rh_entries (rc_heap st) k0 = Some j" for j
      using refs_okD(4) [OF assms(1) that] g(1) False by blast
    with assms(2) show ?thesis
      unfolding key_ok_def calls
      by (cases "rh_entries (rc_heap st) k0") (auto simp: st' Let_def dest!: decided_set)
  qed
qed

lemma tick_refs: "refs_ok st \<Longrightarrow> refs_ok (st\<lparr>rc_heap := cleanup_refs cfg now (rc_heap st)\<rparr>)"
  unfolding refs_ok_def cleanup_refs_def by (auto split: option.splits if_splits)

lemma tick_key:
  assumes "key_ok lib cfg k seen st" "case seen of None \<Rightarrow> True | Some t \<Rightarrow> now - t \<le> rl_IdleTimeout cfg"
  shows "key_ok lib cfg k seen (st\<lparr>rc_heap := cleanup_refs cfg now (rc_heap st)\<rparr>)"
proof -
  have "rh_entries (cleanup_refs cfg now (rc_heap st)) k = rh_entries (rc_heap st) k"
    using assms by (cases "rh_entries (rc_heap st) k") (auto simp: key_ok_def cleanup_refs_def)
  moreover have "rh_heap (cleanup_refs cfg now (rc_heap st)) = rh_heap (rc_heap st)" by (simp add: cleanup_refs_def)
  ultimately show ?thesis using assms(1) by (simp add: key_ok_def key_calls_def Let_def split: option.splits)
qed

lemma run_key:
  assumes "rc_run lib cfg es st = Some st'" "refs_ok st" "key_ok lib cfg k seen st" "kept_busy cfg k es seen"
  shows "\<exists>seen'. key_ok lib cfg k seen' st'"
  using assms
proof (induction es arbitrary: st seen)
  case Nil
  then show ?case by auto
next
  case (Cons e es)
  then obtain st1 where s: "rc_step lib cfg e st = Some st1" "rc_run lib cfg es st1 = Some st'"
    by (auto split: option.splits)
  show ?case
  proof (cases e)
    case (RGet k1 now)
    from Cons.IH [OF s(2) get_refs [OF Cons.prems(2)] get_key [OF Cons.prems(2,3)]] s(1) Cons.prems(4) RGet
    show ?thesis by auto
  next
    case (RAllow g now)
    from Cons.IH [OF s(2) allow_refs [OF Cons.prems(2)] allow_key [OF Cons.prems(2,3)]] s(1) Cons.prems(4) RAllow
    show ?thesis by auto
  next
    case (RTick now)
    with s(1) have st1: "st1 = st\<lparr>rc_heap := cleanup_refs cfg now (rc_heap st)\<rparr>" by simp
    from Cons.IH [OF s(2), unfolded st1, OF tick_refs [OF Cons.prems(2)] tick_key [OF Cons.prems(3)]] Cons.prems(4) RTick
    show ?thesis by auto
  qed
qed

section \<open>Properties of concurrent rate limiting\<close>

text \<open>
  C23: One bucket per key, under every interleaving. Requests take their limiter from the table and ask it
  later, while other requests and the cleanup run in between. As long as no tick finds a key idle beyond
  the timeout, the decisions for it, in the order in which Allow is called, are those of one
  fresh limiter that is asked at these times and by nobody else.
\<close>

theorem concurrent_rate_limit:
  assumes "rc_run lib cfg es rc_start = Some st" "kept_busy cfg k es None"
  shows "map snd (key_calls k st) =
    limiter_run lib (map fst (key_calls k st)) (NewLimiter lib (rl_RequestsPerSecond cfg) (rl_Burst cfg))"
proof -
  have "refs_ok (rc_start :: 'a rl_conc)" by (simp add: refs_ok_def rc_start_def)
  moreover have "key_ok lib cfg k None rc_start" by (simp add: key_ok_def key_calls_def rc_start_def)
  ultimately obtain seen where "key_ok lib cfg k seen st" using run_key [OF assms(1) _ _ assms(2)] by blast
  then show ?thesis by (simp add: key_ok_def Let_def)
qed

theorem concurrent_rate_limit_witness:
  "map snd (key_calls ''a'' (the (rc_run count_limiter sample_rl
       [RGet ''a'' 0, RGet ''b'' 1, RGet ''a'' 2, RTick 3, RAllow 2 4, RAllow 1 5, RAllow 0 6] rc_start))) =
     limiter_run count_limiter [4, 6] (NewLimiter count_limiter (rl_RequestsPerSecond sample_rl) (rl_Burst sample_rl))"
proof -
  let ?es = "[RGet ''a'' 0, RGet ''b'' 1, RGet ''a'' 2, RTick 3, RAllow 2 4, RAllow 1 5, RAllow 0 6]"
  let ?r = "rc_run count_limiter sample_rl ?es rc_start"
  have idle: "rl_IdleTimeout sample_rl = 10 * Minute" by (simp add: sample_rl_def RateLimit_setDefaults_def)
  note eval = rc_start_def getLimiter_ref_def allow_ref_def cleanup_refs_def count_limiter_def idle time_defs
  have "?r = Some (the ?r)" by (simp add: eval)
  moreover have "kept_busy sample_rl ''a'' ?es None" by (simp add: idle time_defs)
  ultimately have "map snd (key_calls ''a'' (the ?r)) = limiter_run count_limiter (map fst (key_calls ''a'' (the ?r)))
      (NewLimiter count_limiter (rl_RequestsPerSecond sample_rl) (rl_Burst sample_rl))"
    by (rule concurrent_rate_limit)
  moreover have "map fst (key_calls ''a'' (the ?r)) = [4, 6]" by (simp add: eval key_calls_def)
  ultimately show ?thesis by simp
qed

end
