(* ===== verification/Stream_Conc.thy ===== *)
theory Stream_Conc
  imports Reply Mutex
begin

text \<open>
  A StreamWriter that several goroutines use at once (framework/context.go: Write may be called from
  multiple goroutines). The statements of Write and Close run under the mutex of the StreamWriter, down
  to the three calls of the stream's Write inside WriteFrame (protocol/codec.go); those of different
  goroutines interleave as far as the mutex lets them. \<open>Context\<close> takes each call as one step.
\<close>

section \<open>The statements of Write and Close\<close>

datatype sw_op = SWrite bytes | SClose

text \<open>The variables of a call, and what it returns; \<open>sv_returned\<close> after a return statement.\<close>

record sw_vars =
  sv_chunk :: StreamChunk
  sv_encoded :: bytes
  sv_n :: nat
  sv_err :: "goerr option"
  sv_returned :: bool

definition no_chunk :: StreamChunk where
  "no_chunk = \<lparr>chunk_ID = [], chunk_Seq = 0, chunk_Data = [], chunk_Final = False\<rparr>"

definition sw_enter :: sw_vars where
  "sw_enter = \<lparr>sv_chunk = no_chunk, sv_encoded = [], sv_n = 0, sv_err = None, sv_returned = False\<rparr>"

type_synonym sw_stmt = "(StreamWriter \<times> gostream, sw_vars) stmt"

text \<open>A statement that is skipped once the call has returned, and the return with an error.\<close>

definition live :: "sw_stmt \<Rightarrow> sw_stmt" where
  "live f = (\<lambda>(s, l). if sv_returned l then (s, l) else f (s, l))"

definition sw_fail :: "goerr option \<Rightarrow> sw_vars \<Rightarrow> sw_vars" where
  "sw_fail err l = l\<lparr>sv_err := err, sv_returned := True\<rparr>"

definition check_Write :: sw_stmt where
  "check_Write = (\<lambda>((sw, s), l).
     ((sw, s), if sw_closed sw then sw_fail (Some (Err ''quicframe: StreamWriter already closed'')) l else l))"

definition check_Close :: sw_stmt where
  "check_Close = (\<lambda>((sw, s), l). ((sw, s), if sw_closed sw then sw_fail None l else l))"

definition set_closed :: sw_stmt where
  "set_closed = (\<lambda>((sw, s), l). ((sw\<lparr>sw_closed := True\<rparr>, s), l))"

definition make_chunk :: "bytes \<Rightarrow> bool \<Rightarrow> sw_stmt" where
  "make_chunk data final = (\<lambda>((sw, s), l).
     ((sw, s), l\<lparr>sv_chunk := \<lparr>chunk_ID = sw_requestID sw, chunk_Seq = sw_seq sw, chunk_Data = data, chunk_Final = final\<rparr>\<rparr>))"

definition incr_seq :: sw_stmt where
  "incr_seq = (\<lambda>((sw, s), l). ((sw\<lparr>sw_seq := sw_seq sw + 1\<rparr>, s), l))"

text \<open>WriteFrame: the encoding and its size, and three writes.\<close>

definition wf_encode :: "'v msgpack \<Rightarrow> sw_stmt" where
  "wf_encode M = (\<lambda>(ss, l).
     (ss, case Marshal M (PStreamChunk (sv_chunk l)) of
            Inl err \<Rightarrow> sw_fail (Some (Wrap ''quicframe/protocol: marshal: '' err)) l
          | Inr encoded \<Rightarrow>
              if frameLen encoded > MaxFrameSize then
                sw_fail (Some (Err (''quicframe/protocol: payload too large ('' @
                  show_nat (unat (frameLen encoded)) @ '' bytes)''))) l
              else l\<lparr>sv_encoded := encoded\<rparr>))"

definition wf_write :: "string \<Rightarrow> (bytes \<Rightarrow> bytes) \<Rightarrow> sw_stmt" where
  "wf_write what part = (\<lambda>((sw, s), l).
     case io_Write s (part (sv_encoded l)) of
       (Some err, s') \<Rightarrow> ((sw, s'), sw_fail (Some (Wrap what err)) l)
     | (None, s') \<Rightarrow> ((sw, s'), l))"

text \<open>The end of a call: its variables are gone, its results stay.\<close>

definition sw_return :: "nat \<Rightarrow> sw_stmt" where
  "sw_return n = (\<lambda>(ss, l).
     (ss, l\<lparr>sv_chunk := no_chunk, sv_encoded := [], sv_n := (if sv_returned l then 0 else n), sv_returned := True\<rparr>))"

definition wf_body :: "'v msgpack \<Rightarrow> FrameType \<Rightarrow> sw_stmt list" where
  "wf_body M ft =
     [live (wf_encode M), live (wf_write ''quicframe/protocol: write header: '' (\<lambda>enc. PutUint32 (frameLen enc))),
      live (wf_write ''quicframe/protocol: write type: '' (\<lambda>enc. [ft])),
      live (wf_write ''quicframe/protocol: write payload: '' (\<lambda>enc. enc))]"

fun sw_body :: "'v msgpack \<Rightarrow> sw_op \<Rightarrow> sw_stmt list" where
  "sw_body M (SWrite data) =
     [check_Write, live (make_chunk data False), live incr_seq] @ wf_body M FrameTypeStreamData @ [sw_return (length data)]"
| "sw_body M SClose =
     [check_Close, live set_closed, live (make_chunk [] True)] @ wf_body M FrameTypeStreamEnd @ [sw_return 0]"

section \<open>The atomic calls\<close>

definition sw_result :: "nat \<Rightarrow> goerr option \<Rightarrow> sw_vars" where
  "sw_result n err = sw_enter\<lparr>sv_n := n, sv_err := err, sv_returned := True\<rparr>"

fun sw_atomic :: "'v msgpack \<Rightarrow> sw_op \<Rightarrow> StreamWriter \<times> gostream \<Rightarrow> (StreamWriter \<times> gostream) \<times> sw_vars" where
  "sw_atomic M (SWrite data) (sw, s) =
     (case StreamWriter_Write M sw s data of ((n, err), sw', s') \<Rightarrow> ((sw', s'), sw_result n err))"
| "sw_atomic M SClose (sw, s) =
     (case StreamWriter_Close M sw s of (err, sw', s') \<Rightarrow> ((sw', s'), sw_result 0 err))"

lemma run_returned [simp]:
  "sv_returned l \<Longrightarrow> live f (s, l) = (s, l)"
  "sv_returned l \<Longrightarrow> run_stmts (wf_body M ft @ fs) (s, l) = run_stmts fs (s, l)"
  by (simp_all add: live_def wf_body_def)

lemma live_wf_write:
  assumes "\<not> sv_returned l" "io_Write s (part (sv_encoded l)) = (r, s')"
  shows "live (wf_write what part) ((sw, s), l) =
    ((sw, s'), case r of None \<Rightarrow> l | Some err \<Rightarrow> sw_fail (Some (Wrap what err)) l)"
  using assms by (cases r) (simp_all add: live_def wf_write_def)

lemma run_wf_body:
  assumes "\<not> sv_returned l" "WriteFrame M s ft (PStreamChunk (sv_chunk l)) = (r, s')"
  shows "run_stmts (wf_body M ft @ [sw_return n]) ((sw, s), l) =
    ((sw, s'), l\<lparr>sv_chunk := no_chunk, sv_encoded := [], sv_n := (if r = None then n else 0),
       sv_err := (if r = None then sv_err l else r), sv_returned := True\<rparr>)"
proof (cases "Marshal M (PStreamChunk (sv_chunk l))")
  case (Inl err)
  with assms show ?thesis
    by (auto simp: wf_body_def live_def wf_encode_def sw_fail_def sw_return_def WriteFrame_def)
next
  case (Inr enc)
  show ?thesis
  proof (cases "frameLen enc > MaxFrameSize")
    case True
    with Inr assms show ?thesis
      by (auto simp: wf_body_def live_def wf_encode_def sw_fail_def sw_return_def WriteFrame_def)
  next
    case False
    obtain r1 s1 where w1: "io_Write s (PutUint32 (frameLen enc)) = (r1, s1)" by fastforce
    obtain r2 s2 where w2: "io_Write s1 [ft] = (r2, s2)" by fastforce
    obtain r3 s3 where w3: "io_Write s2 enc = (r3, s3)" by fastforce
    note w = w1 w2 w3
    have r: "(r, s') = (case r1 of Some e \<Rightarrow> (Some (Wrap ''quicframe/protocol: write header: '' e), s1) | None \<Rightarrow>
        (case r2 of Some e \<Rightarrow> (Some (Wrap ''quicframe/protocol: write type: '' e), s2) | None \<Rightarrow>
        (case r3 of Some e \<Rightarrow> (Some (Wrap ''quicframe/protocol: write payload: '' e), s3) | None \<Rightarrow> (None, s3))))"
      using assms(2) Inr False w by (cases r1; cases r2; cases r3) (simp_all add: WriteFrame_def)
    have enc: "live (wf_encode M) ((sw, s), l) = ((sw, s), l\<lparr>sv_encoded := enc\<rparr>)"
      using Inr False assms(1) by (simp add: live_def wf_encode_def)
    note run = wf_body_def enc assms(1) sw_return_def sw_fail_def
    show ?thesis using r w by (cases r1; cases r2; cases r3) (simp_all add: run live_wf_write)
  qed
qed

interpretation writer_lock: critical_section "sw_body M" sw_enter "sw_atomic M" for M :: "'v msgpack"
proof
  fix p and ss :: "StreamWriter \<times> gostream"
  obtain sw s where ss: "ss = (sw, s)" by (cases ss)
  show "run_stmts (sw_body M p) (ss, sw_enter) = sw_atomic M p ss"
  proof (cases p)
    case (SWrite d)
    let ?ch = "\<lparr>chunk_ID = sw_requestID sw, chunk_Seq = sw_seq sw, chunk_Data = d, chunk_Final = False\<rparr>"
    obtain r s' where w: "WriteFrame M s FrameTypeStreamData (PStreamChunk ?ch) = (r, s')"
      by (cases "WriteFrame M s FrameTypeStreamData (PStreamChunk ?ch)")
    then show ?thesis
      using run_wf_body [of "sw_enter\<lparr>sv_chunk := ?ch\<rparr>" M s FrameTypeStreamData r s' "length d"]
      by (cases r) (auto simp: ss SWrite StreamWriter_Write_def check_Write_def live_def make_chunk_def incr_seq_def
          sw_fail_def sw_return_def sw_result_def sw_enter_def no_chunk_def Let_def)
  next
    case SClose
    let ?ch = "\<lparr>chunk_ID = sw_requestID sw, chunk_Seq = sw_seq sw, chunk_Data = [], chunk_Final = True\<rparr>"
    obtain r s' where w: "WriteFrame M s FrameTypeStreamEnd (PStreamChunk ?ch) = (r, s')"
      by (cases "WriteFrame M s FrameTypeStreamEnd (PStreamChunk ?ch)")
    then show ?thesis
      using run_wf_body [of "sw_enter\<lparr>sv_chunk := ?ch\<rparr>" M s FrameTypeStreamEnd r s' 0]
      by (cases r) (auto simp: ss SClose StreamWriter_Close_def check_Close_def live_def make_chunk_def set_closed_def
          sw_fail_def sw_return_def sw_result_def sw_enter_def no_chunk_def Let_def)
  qed
qed

section \<open>The frames of a history of calls\<close>

text \<open>
  What a history of calls puts on the stream: each Write before the first Close one frame, numbered by its
  place in the history, unless it is one that cannot be sent; the Close the end frame; nothing after it.
\<close>

fun sw_msgs :: "'v msgpack \<Rightarrow> string \<Rightarrow> nat \<Rightarrow> (nat \<times> sw_op) list \<Rightarrow> msg list" where
  "sw_msgs M i n [] = []"
| "sw_msgs M i n ((g, SWrite d) # h) =
     (if sendable M (data_msg i n d) then [data_msg i n d] else []) @ sw_msgs M i (Suc n) h"
| "sw_msgs M i n ((g, SClose) # h) = (if sendable M (end_msg i n) then [end_msg i n] else [])"

lemma sw_atomic_closed:
  assumes "sw_closed sw"
  shows "fst (sw_atomic M p (sw, s)) = (sw, s)"
    "sv_err (snd (sw_atomic M (SWrite d) (sw, s))) \<noteq> None" "sv_n (snd (sw_atomic M (SWrite d) (sw, s))) = 0"
  using assms by (cases p; simp add: StreamWriter_Write_def StreamWriter_Close_def sw_result_def)+

lemma serial_closed: "sw_closed sw \<Longrightarrow> serial (sw_atomic M) h (sw, s) = (sw, s)"
proof (induction h)
  case (Cons e h)
  then show ?case by (cases e) (simp add: sw_atomic_closed(1))
qed simp

lemma WriteFrame_outcome:
  assumes "healthy s" "WriteFrame M s (msg_type m) (msg_payload m) = (r, s')"
  shows "(r = None \<longleftrightarrow> sendable M m) \<and> healthy s' \<and>
    tx s' = tx s @ wire_bytes M (if sendable M m then [m] else [])"
  using WriteFrame_not_sendable [OF assms(1), of M m] WriteFrame_msg [OF assms(1), of M m] assms
  by (cases "sendable M m") (auto simp: healthy_def)

text \<open>One call on an open writer over a stream that takes every write.\<close>

lemma sw_atomic_Write:
  assumes "healthy s" "\<not> sw_closed sw" "sw_seq sw = word_of_nat n"
  shows "\<exists>s' l. sw_atomic M (SWrite d) (sw, s) = ((sw\<lparr>sw_seq := word_of_nat (Suc n)\<rparr>, s'), l) \<and> healthy s' \<and>
    tx s' = tx s @ wire_bytes M (if sendable M (data_msg (sw_requestID sw) n d) then [data_msg (sw_requestID sw) n d] else []) \<and>
    (sv_err l = None \<longleftrightarrow> sendable M (data_msg (sw_requestID sw) n d)) \<and>
    sv_n l = (if sendable M (data_msg (sw_requestID sw) n d) then length d else 0)"
proof -
  let ?m = "data_msg (sw_requestID sw) n d"
  obtain r s' where w: "WriteFrame M s (msg_type ?m) (msg_payload ?m) = (r, s')" by fastforce
  have "sw_atomic M (SWrite d) (sw, s) = ((sw\<lparr>sw_seq := word_of_nat (Suc n)\<rparr>, s'), sw_result (if r = None then length d else 0) r)"
    using w assms(2,3) by (cases r) (auto simp: StreamWriter_Write_def data_msg_def Let_def)
  with WriteFrame_outcome [OF assms(1) w] show ?thesis by (simp add: sw_result_def)
qed

lemma sw_atomic_Close:
  assumes "healthy s" "\<not> sw_closed sw" "sw_seq sw = word_of_nat n"
  shows "\<exists>s'. fst (sw_atomic M SClose (sw, s)) = (sw\<lparr>sw_closed := True\<rparr>, s') \<and>
    tx s' = tx s @ wire_bytes M (if sendable M (end_msg (sw_requestID sw) n) then [end_msg (sw_requestID sw) n] else [])"
proof -
  let ?m = "end_msg (sw_requestID sw) n"
  obtain r s' where w: "WriteFrame M s (msg_type ?m) (msg_payload ?m) = (r, s')" by fastforce
  have "fst (sw_atomic M SClose (sw, s)) = (sw\<lparr>sw_closed := True\<rparr>, s')"
    using w assms(2,3) by (auto simp: StreamWriter_Close_def end_msg_def Let_def)
  with WriteFrame_outcome [OF assms(1) w] show ?thesis by blast
qed

lemma serial_msgs:
  assumes "healthy s" "\<not> sw_closed sw" "sw_seq sw = word_of_nat n"
  shows "tx (snd (serial (sw_atomic M) h (sw, s))) = tx s @ wire_bytes M (sw_msgs M (sw_requestID sw) n h)"
  using assms
proof (induction h arbitrary: sw s n)
  case (Cons e h)
  obtain g p where e: "e = (g, p)" by (cases e)
  show ?case
  proof (cases p)
    case (SWrite d)
    from sw_atomic_Write [OF Cons.prems, of M d] obtain s' l where a:
      "sw_atomic M (SWrite d) (sw, s) = ((sw\<lparr>sw_seq := word_of_nat (Suc n)\<rparr>, s'), l)" "healthy s'"
      "tx s' = tx s @ wire_bytes M (if sendable M (data_msg (sw_requestID sw) n d) then [data_msg (sw_requestID sw) n d] else [])"
      by blast
    from Cons.IH [OF a(2), of "sw\<lparr>sw_seq := word_of_nat (Suc n)\<rparr>" "Suc n"] Cons.prems(2) show ?thesis
      using a(1,3) by (simp add: e SWrite del: sw_atomic.simps of_nat_Suc)
  next
    case SClose
    from sw_atomic_Close [OF Cons.prems, of M] show ?thesis
      by (auto simp: e SClose serial_closed simp del: sw_atomic.simps)
  qed
qed simp

text \<open>What a Write at a place of a history returns: no error just when nobody closed before and its chunk can be sent.\<close>

definition write_sent :: "'v msgpack \<Rightarrow> string \<Rightarrow> nat \<Rightarrow> (nat \<times> sw_op) list \<Rightarrow> nat \<Rightarrow> bytes \<Rightarrow> bool" where
  "write_sent M i n h k d \<longleftrightarrow> SClose \<notin> snd ` set (take k h) \<and> sendable M (data_msg i (n + k) d)"

lemma serial_write:
  assumes "healthy s" "\<not> sw_closed sw" "sw_seq sw = word_of_nat n"
    and "l = snd (sw_atomic M (SWrite d) (serial (sw_atomic M) h1 (sw, s)))"
  shows "(sv_err l = None \<longleftrightarrow> write_sent M (sw_requestID sw) n (h1 @ h2) (length h1) d) \<and>
    sv_n l = (if write_sent M (sw_requestID sw) n (h1 @ h2) (length h1) d then length d else 0)"
  using assms
proof (induction h1 arbitrary: sw s n)
  case Nil
  with sw_atomic_Write [OF Nil(1-3), of M d] show ?case by (auto simp: write_sent_def)
next
  case (Cons e h1)
  obtain g' p where e: "e = (g', p)" by (cases e)
  show ?case
  proof (cases p)
    case (SWrite d')
    from sw_atomic_Write [OF Cons.prems(1-3), of M d'] obtain s' l' where a:
      "sw_atomic M (SWrite d') (sw, s) = ((sw\<lparr>sw_seq := word_of_nat (Suc n)\<rparr>, s'), l')" "healthy s'" by blast
    from Cons.IH [OF a(2), of "sw\<lparr>sw_seq := word_of_nat (Suc n)\<rparr>" "Suc n"] Cons.prems(2,4) show ?thesis
      using a(1) by (simp add: e SWrite write_sent_def del: sw_atomic.simps of_nat_Suc)
  next
    case SClose
    from sw_atomic_Close [OF Cons.prems(1-3), of M] obtain s' where
      "fst (sw_atomic M SClose (sw, s)) = (sw\<lparr>sw_closed := True\<rparr>, s')" by blast
    then have l: "l = snd (sw_atomic M (SWrite d) (sw\<lparr>sw_closed := True\<rparr>, s'))"
      using Cons.prems(4) by (simp add: e SClose serial_closed del: sw_atomic.simps)
    show ?thesis unfolding l using sw_atomic_closed(2,3) [of "sw\<lparr>sw_closed := True\<rparr>" M d s']
      by (simp add: e SClose write_sent_def del: sw_atomic.simps)
  qed
qed

section \<open>Properties of concurrent stream writes\<close>

text \<open>
  C6: A stream that several goroutines write. Take any run, with any interleaving of the statements of Write and
  Close, over a stream that takes every write, at a moment when the mutex is free. The calls that have finished
  are those that took the mutex, and the stream holds whole frames only, in the order in which it was taken
  (\<open>lock_order\<close>): the k-th call, if it is a Write before the first Close whose chunk can be encoded within the
  size limit, has put there its data under the number k, and returned its length and no error; any other
  Write has put nothing there and returned 0 and an error, and if it came before the Close its number is skipped;
  the first Close has put there the end frame, if that can be encoded, and nothing follows it.
\<close>

theorem concurrent_stream_writes:
  assumes "lk_run (sw_body M) sw_enter es (lk_start (sw, s)) = Some st" "lk_owner st = None"
    and "healthy s" "\<not> sw_closed sw" "sw_seq sw = word_of_nat n"
  shows "tx (snd (lk_shared st)) = tx s @ wire_bytes M (sw_msgs M (sw_requestID sw) n (lock_order es)) \<and>
    (\<forall>g p. (g, p) \<in> set (lock_order es) \<longleftrightarrow> g < length (lk_routines st) \<and> (\<exists>l. lk_routines st ! g = Released p l)) \<and>
    (\<forall>k < length (lock_order es). \<forall>g d l. lock_order es ! k = (g, SWrite d) \<longrightarrow> lk_routines st ! g = Released (SWrite d) l \<longrightarrow>
       (sv_err l = None \<longleftrightarrow> write_sent M (sw_requestID sw) n (lock_order es) k d) \<and>
       sv_n l = (if write_sent M (sw_requestID sw) n (lock_order es) k d then length d else 0))"
proof -
  let ?h = "lock_order es"
  have h: "explains (sw_atomic M) ?h (sw, s) st" "guarded (sw_atomic M) ?h (sw, s) st"
    using writer_lock.run_ok [OF assms(1)] by blast+
  have "tx (snd (lk_shared st)) = tx s @ wire_bytes M (sw_msgs M (sw_requestID sw) n ?h)"
    using explainsD(4) [OF h(1) assms(2)] serial_msgs [OF assms(3-5)] by simp
  moreover have "(sv_err l = None \<longleftrightarrow> write_sent M (sw_requestID sw) n ?h k d) \<and>
      sv_n l = (if write_sent M (sw_requestID sw) n ?h k d then length d else 0)"
    if k: "k < length ?h" "?h ! k = (g, SWrite d)" and r: "lk_routines st ! g = Released (SWrite d) l" for k g d l
  proof -
    have "(g, SWrite d) \<in> set ?h" using k by (metis nth_mem)
    then have "g < length (lk_routines st)" using history_op [OF h(1)] by blast
    from explainsD(3) [OF h(1) this] r obtain h1 h2 where d: "?h = h1 @ (g, SWrite d) # h2"
      "l = snd (sw_atomic M (SWrite d) (serial (sw_atomic M) h1 (sw, s)))" by (auto simp del: sw_atomic.simps)
    have "k = length h1"
    proof -
      have "length h1 < length ?h" using arg_cong [OF d(1), of length] by simp
      moreover have "?h ! length h1 = (g, SWrite d)" unfolding d(1) by simp
      ultimately have "map fst ?h ! k = map fst ?h ! length h1" "length h1 < length ?h" using k by simp_all
      then show ?thesis using k(1) explainsD(1) [OF h(1)] nth_eq_iff_index_eq by (metis length_map)
    qed
    with serial_write [OF assms(3-5) d(2), of "(g, SWrite d) # h2"] d(1) show ?thesis by simp
  qed
  ultimately show ?thesis using writer_lock.quiet_history [OF h assms(2)] by blast
qed

text \<open>Two goroutines write one chunk each; the second takes the mutex first.\<close>

definition two_writes :: "(sw_op, StreamWriter \<times> gostream, sw_vars) locked" where
  "two_writes = the (lk_run (sw_body sample_msgpack) sw_enter
     [Call (SWrite [1]), Call (SWrite [2, 3]), Lock 1, Stmt 1, Stmt 1, Stmt 1, Stmt 1, Stmt 1, Stmt 1, Stmt 1, Stmt 1,
      Unlock 1, Lock 0, Stmt 0, Stmt 0, Stmt 0, Stmt 0, Stmt 0, Stmt 0, Stmt 0, Stmt 0, Unlock 0]
     (lk_start (\<lparr>sw_requestID = ''r1'', sw_seq = 0, sw_closed = False\<rparr>, fresh_stream)))"

lemmas sw_stmts = check_Write_def check_Close_def set_closed_def make_chunk_def incr_seq_def live_def sw_fail_def
  wf_body_def wf_encode_def wf_write_def sw_return_def sw_enter_def no_chunk_def

lemma two_writes_eval:
  "lk_run (sw_body sample_msgpack) sw_enter
     [Call (SWrite [1]), Call (SWrite [2, 3]), Lock 1, Stmt 1, Stmt 1, Stmt 1, Stmt 1, Stmt 1, Stmt 1, Stmt 1, Stmt 1,
      Unlock 1, Lock 0, Stmt 0, Stmt 0, Stmt 0, Stmt 0, Stmt 0, Stmt 0, Stmt 0, Stmt 0, Unlock 0]
     (lk_start (\<lparr>sw_requestID = ''r1'', sw_seq = 0, sw_closed = False\<rparr>, fresh_stream)) = Some two_writes"
  "two_writes = \<lparr>lk_shared = (\<lparr>sw_requestID = ''r1'', sw_seq = 2, sw_closed = False\<rparr>,
       fresh_stream\<lparr>tx := [0, 0, 0, 3, FrameTypeStreamData, 2, 3, 0, 0, 0, 2, FrameTypeStreamData, 1]\<rparr>),
     lk_owner = None, lk_routines = [Released (SWrite [1]) (sw_result 1 None), Released (SWrite [2, 3]) (sw_result 2 None)]\<rparr>"
  by (simp_all add: two_writes_def lk_start_def sw_stmts sw_result_def sample_simps io_Write_def
      FrameType_defs)

theorem concurrent_stream_writes_witness:
  "tx (snd (lk_shared two_writes)) = tx fresh_stream @ wire_bytes sample_msgpack
     (sw_msgs sample_msgpack ''r1'' 0 [(1, SWrite [2, 3]), (0, SWrite [1])]) \<and>
   (sv_err (sw_result 1 None) = None \<longleftrightarrow>
     write_sent sample_msgpack ''r1'' 0 [(1, SWrite [2, 3]), (0, SWrite [1])] 1 [1])"
proof -
  let ?es = "[Call (SWrite [1]), Call (SWrite [2, 3]), Lock 1, Stmt 1, Stmt 1, Stmt 1, Stmt 1, Stmt 1, Stmt 1, Stmt 1,
      Stmt 1, Unlock 1, Lock 0, Stmt 0, Stmt 0, Stmt 0, Stmt 0, Stmt 0, Stmt 0, Stmt 0, Stmt 0, Unlock 0]"
  have order: "lock_order ?es = [(1, SWrite [2, 3]), (0, SWrite [1])]" by (simp add: lock_order_def)
  have "lk_owner two_writes = None" "healthy fresh_stream"
    by (simp_all add: two_writes_eval(2) healthy_def fresh_stream_def)
  note all = concurrent_stream_writes [OF two_writes_eval(1) this, of 0, unfolded order]
  have "\<not> sw_closed \<lparr>sw_requestID = ''r1'', sw_seq = 0, sw_closed = False\<rparr>"
    "sw_seq \<lparr>sw_requestID = ''r1'', sw_seq = 0, sw_closed = False\<rparr> = word_of_nat 0" by simp_all
  note run = all [OF this]
  note sent = conjunct2 [OF conjunct2 [OF run]]
  show ?thesis
  proof
    show "tx (snd (lk_shared two_writes)) = tx fresh_stream @ wire_bytes sample_msgpack
        (sw_msgs sample_msgpack ''r1'' 0 [(1, SWrite [2, 3]), (0, SWrite [1])])"
      using conjunct1 [OF run] by simp
    have "lk_routines two_writes ! 0 = Released (SWrite [1]) (sw_result 1 None)" by (simp add: two_writes_eval(2))
    then show "sv_err (sw_result 1 None) = None \<longleftrightarrow>
        write_sent sample_msgpack ''r1'' 0 [(1, SWrite [2, 3]), (0, SWrite [1])] 1 [1]"
      using sent [rule_format, of 1 0 "[1]" "sw_result 1 None"] by simp
  qed
qed

end
