(* ===== verification/End_To_End.thy ===== *)
theory End_To_End
  imports Client Conn
begin

text \<open>
  A client of framework/client.go talking to a running server of framework/app.go: the two ends of a
  request, with every other connection and stream of the server interleaved in between.
\<close>







end
