(* ===== verification/Logging.thy ===== *)
theory Logging
  imports App
begin

text \<open>
  Which log records an operator sees. \<open>w_logs\<close> holds every record the code hands to a logger; the handler of
  package log/slog prints those whose level reaches its minimum. cmd/example/main.go sets the minimum to
  Debug, the other programs leave slog's default, Info. The order of the levels is slog's.
\<close>

definition level_rank :: "log_level \<Rightarrow> int" where
  "level_rank l = (case l of LevelDebug \<Rightarrow> -4 | LevelInfo \<Rightarrow> 0 | LevelWarn \<Rightarrow> 4 | LevelError \<Rightarrow> 8)"

lemma level_rank_inj: "level_rank a = level_rank b \<longleftrightarrow> a = b"
  by (cases a; cases b) (simp_all add: level_rank_def)

instantiation log_level :: linorder
begin

definition less_eq_log_level :: "log_level \<Rightarrow> log_level \<Rightarrow> bool" where
  "less_eq_log_level a b \<longleftrightarrow> level_rank a \<le> level_rank b"

definition less_log_level :: "log_level \<Rightarrow> log_level \<Rightarrow> bool" where
  "less_log_level a b \<longleftrightarrow> level_rank a < level_rank b"

instance
  by standard (auto simp: less_eq_log_level_def less_log_level_def level_rank_inj)

end

lemma level_order: "LevelDebug \<le> l" "LevelInfo \<le> l \<longleftrightarrow> l \<noteq> LevelDebug" "l \<le> LevelError"
  by (cases l; simp add: less_eq_log_level_def level_rank_def)+

fun record_level :: "logrec \<Rightarrow> log_level" where
  "record_level (Log l lv m attrs) = lv"

text \<open>The handler's minimum in cmd/example, and slog's default.\<close>

definition example_level :: log_level where "example_level = LevelDebug"

definition default_level :: log_level where "default_level = LevelInfo"

definition printed :: "log_level \<Rightarrow> logrec list \<Rightarrow> logrec list" where
  "printed low rs = filter (\<lambda>r. low \<le> record_level r) rs"

lemma printed_log_to:
  "printed low (w_logs (log_to l lv m attrs w)) =
    printed low (w_logs w) @ (if low \<le> lv then [Log l lv m attrs] else [])"
  by (simp add: printed_def log_to_def)

lemma printed_higher: "low \<le> high \<Longrightarrow> printed high (printed low rs) = printed high rs"
  by (auto simp: printed_def intro!: filter_cong)

lemma example_prints_all: "printed example_level rs = rs"
  by (simp add: printed_def example_level_def level_order)

text \<open>
  A stream that breaks before its first frame leaves a record only in cmd/example: the other
  programs drop it, and nothing they print tells that the stream was there.
\<close>

theorem broken_stream_invisible:
  assumes "ReadFrame s = (Inl e, s1)" "dispatchStream L M a ctx peer s w = (r, s', w')"
  shows "printed default_level (w_logs w') = printed default_level (w_logs w) \<and>
    (\<exists>x. printed example_level (w_logs w') = printed example_level (w_logs w) @ [x])"
proof -
  have "\<exists>attrs. w' = log_to (app_logger a) LevelDebug ''quicframe: read frame error'' attrs w"
    using assms by (auto simp: dispatchStream_def)
  then show ?thesis by (auto simp: printed_log_to default_level_def example_level_def level_order)
qed

end
