(* ===== verification/Spec2Isabelle.thy ===== *)
theory Spec2Isabelle
  imports Wire_Types Pki Cli Basic_Server Chat_Session Hub_Lock Startup Users_Lock Rate_Limit_Conc Stream_Conc End_To_End
    Logging
begin

text \<open>
  QuicFrame: a verification development of the Go framework (package paths below are under src/).

  \<^bold>\<open>The program.\<close> A client opens a QUIC connection (native, or WebTransport over HTTP/3) and one
  bidirectional stream per request. Each stream carries length-prefixed frames of MessagePack
  payloads. The server's accept loops start a goroutine per connection and per stream; the stream's
  goroutine runs \<^verbatim>\<open>dispatchStream\<close>, which reads one frame, builds a \<^verbatim>\<open>Context\<close>, asks the router for a
  handler, wraps it in middleware, runs it, and writes an error frame if it failed without answering.
  Handlers answer through the Context, once, or through a \<^verbatim>\<open>StreamWriter\<close>. Around this core are
  middleware (recovery, logging, JWT, mutual TLS, rate limits, header checks), certificate and
  identity files, a project generator and example servers.

  \<^bold>\<open>Theories, and the sources they model.\<close>

  \<^item> \<open>Prelude\<close>, \<open>Go_Lib\<close>, \<open>Errors\<close>, \<open>Go_IO\<close>, \<open>Files\<close>: what the sources use of the language and its
    standard library: byte strings, nil-able maps, panics as a value (\<open>outcome\<close>), package strings,
    net/url and the cookie parser, error chains, an \<^verbatim>\<open>io.ReadWriter\<close> that may fail at any byte, and a
    file system whose calls may fail.
  \<^item> \<open>Protocol\<close> (protocol/types.go, protocol/codec.go): wire records, WriteFrame, ReadFrame and the
    typed decoders, with lengths as 32-bit words. \<open>Frames\<close> has the facts: the byte layout, round trips
    and what a receiver sees of a stream that breaks (locale \<open>frame_codec\<close>, interpreted as \<open>wire\<close>).
  \<^item> \<open>Context\<close> (framework/context.go): the Context and StreamWriter, one definition per method.
    \<open>Reply\<close> makes the methods the steps of a machine (\<open>api_op\<close>, \<open>api_exec\<close>, \<open>api_reach\<close>) and proves by
    rule induction what the peer can see: the datatype \<open>reply\<close> and \<open>reply_shape\<close> are the abstract
    specification, \<open>reply_inv\<close> the simulation.
  \<^item> \<open>Router\<close> (framework/router.go): patterns, matching, the table, chaining. \<open>Routing\<close> states matching
    against a declarative \<open>pattern_accepts\<close>, the table against the contract \<open>route_table\<close>
    (interpreted as \<open>table\<close>), and the rule that chaining keeps a handler contract
    (locale \<open>handler_contract\<close>, interpreted on \<open>api_reach\<close> and on \<open>ctx_kept\<close>).
  \<^item> \<open>App\<close> (framework/app.go): registration, groups, configuration and dispatchStream. \<open>Dispatch\<close>
    proves what a dispatched stream carries for every App within the contract; \<open>Wire_Types\<close> that every
    frame it writes has the payload its type announces.
  \<^item> \<open>Conn\<close> (framework/app.go): ListenNative's accept loop, HandleNativeConn, the WebTransport session
    handler, the stream goroutines, the goroutine that closes the listener, the CloseWithError at the end of
    a native connection, the WaitGroup and Shutdown as the step relation \<open>sv_step\<close>; runs are
    \<open>sv_reach\<close>. A native connection ends only after the peer or the network is lost (\<open>ConnLost\<close>), and \<open>Dispatch\<close> is the
    return of dispatchStream: a connection that stays idle and a handler that blocks for ever are a \<open>ConnEnd\<close> and a
    \<open>Dispatch\<close> that the run does not contain. \<open>Drain\<close> bounds the work that remains once nothing new arrives, and says
    where a draining server stops and what it then waits for. \<open>Transport\<close>
    (transport/transport.go and the set-up in app.go and client.go): dialling, listening on both
    transports, ALPN and the error codes of CloseWithError.
  \<^item> \<open>Client\<close> (framework/client.go): a request over a stream, and its composition with a server;
    \<open>Client_State\<close> has the certificate watcher.
  \<^item> \<open>Middleware\<close> (middleware/logger.go, recovery.go, validation.go), \<open>Auth\<close> (middleware/auth.go),
    \<open>Rate_Limit\<close> (middleware/ratelimit.go; locale \<open>keyed_machine\<close>, interpreted as \<open>limiters\<close>),
    \<open>Validation\<close> (framework/validation.go).
  \<^item> \<open>Cert_Util\<close> (tlsutil/certs.go) and \<open>Pki\<close> (pki/pki.go): certificates on disk. Both keep a
    certificate and reuse it while it is fresh; the locale \<open>cert_store\<close> of \<open>Files\<close> is that contract,
    interpreted for each (\<open>dev_store\<close>, \<open>node_store\<close>).
  \<^item> \<open>Cli\<close> (internal/cli/cli.go, cmd/quicframe/main.go, main.go): the command and its generator.
  \<^item> \<open>Chat\<close> (examples/streaming-demo/main.go): the chat hub, with its channels in a heap and publish
    split at the point where the mutex is released. \<open>Chat_Delivery\<close> follows the events meant for one
    subscription, as a multiset, from publish through the sends and the buffer to the session, and shows who
    closes a channel. \<open>Streaming_Demo\<close> has the handlers and routes over it: a chat handler touches the hub in single
    steps (subscribe, unsubscribe, the locked half of publish, one send, one receive), and between any two of them
    the other goroutines take an arbitrary list of steps, the argument \<open>oth\<close>. \<open>Chat_Session\<close> proves what a session
    and a post do under any such interference, and that the server's hub is always one a sequence of these steps
    leads to.
  \<^item> \<open>State_Contract\<close>: what holds of the shared state of a server when each handler keeps it (locale
    \<open>state_contract\<close>: a relation on states, reflexive, transitive and blind to the log; its extension
    \<open>limited_contract\<close> is blind to the rate limiter's tables too). Inside, the relation is carried through
    every middleware, the dispatcher and every run of the server. It is interpreted on the users of the
    basic server (\<open>users\<close>) and on the chat hub (\<open>hub\<close>, in \<open>Chat_Session\<close>).
  \<^item> \<open>Handlers\<close>: shapes that handlers of the example programs share (an answer, a numbered stream
    written by a loop, fmt.Sscanf). \<open>Basic_Server\<close> (examples/basic-server/main.go) and
    \<open>Example_Server\<close> (cmd/example/main.go, examples/mtls-pki/main.go): handlers and routes, composed with
    the middleware above. \<open>Startup\<close>: the rest of the four main functions, from certificates to exit code.
  \<^item> \<open>Mutex\<close>: goroutines that share a state behind a sync.Mutex, with interleaved statements (\<open>lk_step\<close>,
    \<open>lk_reach\<close>). The locale \<open>critical_section\<close> takes the statements of each operation and the atomic operation
    they amount to, and shows that every run is linearizable, in the order in which the mutex was taken
    (\<open>lock_order\<close>, read off the events of the run). It is interpreted for the four mutexes whose
    sections other theories take as one step: the users of the basic server (\<open>users_lock\<close> in \<open>Users_Lock\<close>),
    the rooms of the chat hub (\<open>hub_lock\<close> in \<open>Hub_Lock\<close>),
    the table of the rate limiter (\<open>rl_lock\<close> in \<open>Rate_Limit_Conc\<close>, with the entries in a heap, because requests
    use a limiter after they have released the mutex) and the StreamWriter (\<open>writer_lock\<close> in \<open>Stream_Conc\<close>,
    down to the three writes of one frame). \<open>End_To_End\<close> joins the client to a running server. \<open>Logging\<close>:
    the order of log levels and which records a handler prints.

  \<^bold>\<open>State.\<close> A handler maps a Context and a \<open>world\<close> to an outcome, a Context and a world. The world is
  an extensible record: the clock, the log, and whatever middleware or application adds (the rate
  limiter's table, for instance). A Context owns its stream; nothing else writes to it.

  \<^bold>\<open>What is proved.\<close> On the wire: frames round-trip and survive truncation (\<open>frame_roundtrip\<close>,
  \<open>frames_delivered\<close>, \<open>ReadFrame_iff\<close>). For one request: one reply of a fixed shape however handlers
  call the Context (\<open>one_reply\<close>, \<open>stream_in_order\<close>, \<open>context_frame\<close>), lifted to the dispatcher
  (\<open>dispatch_one_reply\<close>; \<open>dispatch_well_typed\<close> for every input, well-formed or not), to every
  interleaving of the server's goroutines (\<open>server_replies\<close>) and to a client of such a server
  (\<open>request_to_running_server\<close>). A stream that several goroutines write carries whole frames in the order
  of its mutex (\<open>concurrent_stream_writes\<close>). Routing: the first accepting route in registration order
  (\<open>Router_match_spec\<close>), with parameters that rebuild the path (\<open>match_then_render\<close>,
  \<open>render_then_match\<close>). Server: the WaitGroup counts exactly what is in flight (\<open>waitgroup_counts\<close>),
  Shutdown waits for it (\<open>shutdown_waits\<close>); once nothing new arrives the server takes finitely many steps and Shutdown
  returns exactly if no connection stays idle and no handler blocks (\<open>drain_terminates\<close>). Recovery keeps the process alive
  (\<open>recovered_server_never_crashes\<close>). Gates: \<open>unauthorized_request_refused\<close>, \<open>jwt_gate\<close>,
  \<open>rate_limit_per_key\<close> and, with requests and cleanup interleaved, \<open>concurrent_rate_limit\<close>, \<open>validate_headers_any_order\<close>. Certificates: \<open>identity_reused_until_last_day\<close>,
  \<open>rotation_keeps_a_day\<close>. Chat: \<open>chat_history\<close>, \<open>chat_channels_safe\<close>, delivery to
  a subscriber without duplicates or strangers (\<open>chat_at_most_once\<close>) and without a gap between the history and
  the first message (\<open>chat_no_gap\<close>, statement by statement), what a session writes and leaves
  behind (\<open>chat_session_wire\<close>, \<open>chat_session_cleanup\<close>), posts (\<open>chat_post_spec\<close>) and whole runs
  (\<open>streaming_server_hub\<close>). Example servers: the users of the basic server keep distinct IDs and are found
  again (\<open>basic_users_invariant\<close>, \<open>created_user_found\<close>) also when the statements of the handlers interleave
  (\<open>users_linearizable\<close>, \<open>users_read_your_writes\<close>), streams have the promised chunks
  (\<open>batch_stream\<close>, \<open>example_stream_bounded\<close>), the API group is guarded (\<open>example_api_guarded\<close>), and
  cmd/example exits only when it is drained (\<open>example_stops_drained\<close>). Several theorems state behaviour
  that differs from what comments or documentation say: \<open>WriteFrame_length_wraps\<close>,
  \<open>failed_write_leaves_gap\<close>, \<open>unsendable_response_unanswered\<close>, \<open>after_middleware_sends_again\<close>,
  \<open>bad_error_frame_panics\<close>, \<open>self_signed_never_reused\<close>, \<open>shutdown_race\<close>, \<open>chat_publish_panics\<close>,
  \<open>chat_delivery_reordered\<close>, \<open>chat_channel_stays_open\<close>, \<open>delete_keeps_users\<close>, \<open>example_empty_post_fails\<close>, \<open>announced_hash_not_pinned\<close>,
  \<open>torn_rotation_accepted\<close>.

  \<^bold>\<open>Parameters and hypotheses.\<close> Code outside the repository is an argument: MessagePack (\<open>msgpack\<close>),
  Unicode case mapping and cookie and host syntax (\<open>golib\<close>), x509 and PEM (\<open>x509_lib\<close>), the token bucket
  (\<open>limiter_lib\<close>), the JWT parser, the struct validator, quic-go and
  webtransport-go. What a goroutine meets from outside is an argument too: the times a ticker delivers,
  the steps other goroutines take on the chat hub between the steps of a chat handler, the environment
  variables, the reports of the listeners. What is assumed of it is a named
  hypothesis of the theorem: \<open>parser_verifies\<close> (a token returned without an error was verified with the
  key the key function gave, whatever key function it was called with), \<open>x509_faithful\<close> (parsing a created certificate gives its template back to
  the second), \<open>payload_below_4GiB\<close> (a payload's length fits 32 bits, which is what WriteFrame's check
  silently needs). \<open>app_within (api_reach M)\<close> says that handlers and middleware change a Context only
  through its methods, which Go's visibility rules enforce but for the exported pointer \<^verbatim>\<open>Context.Request\<close>,
  whose target handlers are assumed not to change; \<open>quiet\<close> says that after-middleware does not
  write. \<open>announced_hash_not_pinned\<close> assumes that
  a PEM file is longer than the DER bytes in it. Each has a witness on a concrete instance. \<^verbatim>\<open>time.Sleep\<close> moves the clock of the state forward; other
  calls take no time.

  \<^bold>\<open>Bounds and termination.\<close> There is no fuel. Loops over data are structural recursions; the two that
  are not (reading frames until the stream ends, trimming a set of character sequences in strings.TrimSpace) have measures.
  Server loops are step relations. The loop of a chat
  session over its channel is followed for as many rounds as the argument \<open>rounds\<close> says, any number; a session that is still
  waiting then leaves, as it does when the channel is closed. Of the integers of type
  \<^verbatim>\<open>int\<close>, nextID of the basic server is unbounded where Go's wraps at 2^63. A whole dispatchStream is one step of \<open>Conn\<close>: streams share no
  Context, and what they share in the world is guarded by locks in the code; that a locked section may be
  taken as one step is what \<open>Mutex\<close> and its interpretations prove. The exceptions, where the code works on
  shared data after Unlock, are modelled with the steps apart: publish in \<open>Chat\<close> and in the handlers of \<open>Streaming_Demo\<close>, Allow in \<open>Rate_Limit_Conc\<close>.

  \<^bold>\<open>Not modelled.\<close> The Rust and JavaScript SDKs (other languages); framework/doc.go (comments only);
  stack trace text in the recovery log; claim values other than strings; the line format of the text handler
  that cmd/example configures for its logger; signal delivery, which appears as the event \<open>Cancel\<close>. The
  status codes of protocol/types.go that no source uses have no definition.
\<close>

section \<open>Authentication, seen from the wire\<close>

text \<open>
  C16: An unauthenticated request changes nothing. On an App whose outermost middleware is JWT, a
  request without a Bearer token that is signed with the configured key, valid and of the configured
  algorithm gets one error frame with its ID and status 401, if the stream takes every write and the
  refusal can be encoded. No route's handler, no group's middleware and none of the App's other middleware
  runs, nothing is logged and the application's state is what it was. What dispatchStream still does is to run
  the functions given to App.After, on a Context that has been answered; if there are none, that is all.
\<close>

theorem unauthorized_request_refused:
  assumes "parser_verifies signs parse"
    and "app_middleware a = JWT M parse cfg # mw"
    and "healthy s" "ReadFrame s = (Inr (FrameTypeRequest, data), s1)" "DecodeRequest M data = Inr req"
    and "\<And>str tok. gomap_get (req_Headers req) (jc_TokenHeader (JWT_setDefaults cfg)) = ''Bearer '' @ str \<Longrightarrow>
      tok_Alg tok = (case jc_SigningMethod cfg of None \<Rightarrow> ''HS256'' | Some m \<Rightarrow> m) \<Longrightarrow>
      \<not> (signs (jc_SigningKey cfg) str tok \<and> tok_Valid tok)"
    and "\<forall>m \<in> set jwt_refusals.
      sendable M (MErr \<lparr>ef_ID = req_ID req, ef_Code = 401, ef_Message = m, ef_Data = []\<rparr>)"
  shows "\<exists>m \<in> set jwt_refusals. \<exists>c. ctx_sent c \<and> ctx_Request c = req \<and>
    ctx_stream c = s1\<lparr>tx := tx s @ wire_bytes M
       [MErr \<lparr>ef_ID = req_ID req, ef_Code = 401, ef_Message = m, ef_Data = []\<rparr>]\<rparr> \<and>
    dispatchStream L M a ctx peer s w =
      (case runAfter (app_afterMiddleware a) c w of (r, c', w') \<Rightarrow> (r, ctx_stream c', w')) \<and>
    (app_afterMiddleware a = [] \<longrightarrow> dispatchStream L M a ctx peer s w = (Ret (), ctx_stream c, w))"
proof -
  note s1 = ReadFrame_stream [OF assms(4)]
  obtain h c where rr: "route_request L a ctx peer s1 req = (h, c)"
    by (cases "route_request L a ctx peer s1 req")
  note ctx = route_request_ctx [OF rr]
  let ?next = "applyMiddleware (fst (Router_match L (app_router a) (req_Method req)
    (url_Path (request_url L req)))) mw"
  have h: "h = JWT M parse cfg ?next" using ctx(10) assms(2) by simp
  obtain m where m: "m \<in> set jwt_refusals" "h c w = error_handler M 401 (\<lambda>_. m) c w"
    using JWT_cases [OF assms(1), of c cfg M ?next w] assms(6) ctx(1)
    unfolding h Ctx_GetHeader_request by metis
  with assms(3,7) s1 ctx have "h c w = (Ret None, c\<lparr>ctx_sent := True, ctx_stream := s1\<lparr>tx := tx s @ wire_bytes M
       [MErr \<lparr>ef_ID = req_ID req, ef_Code = 401, ef_Message = m, ef_Data = []\<rparr>]\<rparr>\<rparr>, w)"
    by (simp add: error_handler_sendable)
  with m(1) rr ctx show ?thesis
    unfolding dispatchStream_request [OF assms(4,5)]
    by (intro bexI [where x = m] exI [where x = "c\<lparr>ctx_sent := True, ctx_stream := s1\<lparr>tx := tx s @ wire_bytes M
       [MErr \<lparr>ef_ID = req_ID req, ef_Code = 401, ef_Message = m, ef_Data = []\<rparr>]\<rparr>\<rparr>"])
      (simp_all add: dispatchRequest_def finish_request_def)
qed

definition guarded_app :: "(string, world) App" where
  "guarded_app = App_Use sample_app [JWT sample_msgpack sample_parser sample_jwt]"

theorem unauthorized_request_refused_witness:
  "\<exists>m \<in> set jwt_refusals. \<exists>c. ctx_sent c \<and> ctx_Request c = sample_req \<and>
    ctx_stream c = (framed FrameTypeRequest ''/a'')\<lparr>rx := [], tx := tx (framed FrameTypeRequest ''/a'') @
       wire_bytes sample_msgpack
         [MErr \<lparr>ef_ID = req_ID sample_req, ef_Code = 401, ef_Message = m, ef_Data = []\<rparr>]\<rparr> \<and>
    dispatchStream sample_lib sample_msgpack guarded_app None sample_peer (framed FrameTypeRequest ''/a'') sample_world =
      (case runAfter (app_afterMiddleware guarded_app) c sample_world of (r, c', w') \<Rightarrow> (r, ctx_stream c', w')) \<and>
    (app_afterMiddleware guarded_app = [] \<longrightarrow> dispatchStream sample_lib sample_msgpack guarded_app None sample_peer
       (framed FrameTypeRequest ''/a'') sample_world = (Ret (), ctx_stream c, sample_world))"
proof (rule unauthorized_request_refused [OF sample_parser_verifies])
  show "app_middleware guarded_app = JWT sample_msgpack sample_parser sample_jwt # []"
    by (simp_all add: guarded_app_def App_Use_def sample_app_def App_GET_def addRoute_def App_New_def)
  show "healthy (framed FrameTypeRequest ''/a'')" by (rule healthy_framed)
  show "ReadFrame (framed FrameTypeRequest ''/a'') =
      (Inr (FrameTypeRequest, str_bytes ''/a''), (framed FrameTypeRequest ''/a'')\<lparr>rx := []\<rparr>)"
    by (rule ReadFrame_framed) simp
  show "DecodeRequest sample_msgpack (str_bytes ''/a'') = Inr sample_req" by (rule sample_decode)
qed (simp_all add: sample_req_def jwt_refusals_def sendable_def sample_simps)

end
